(* ===== verification/Prelude.thy ===== *)
theory Prelude
  imports Main
begin

text \<open>
  The vocabulary every component shares: the ways a C++ computation of this program can go
  wrong (\<open>fault\<close>), results that carry a fault or a value (\<open>res\<close>), 32-bit integers written
  as \<open>int\<close> with their range checked where the code can leave it, and memory buffers as lists
  of bytes with the C library's view of them (a string ends at its first NUL).
\<close>

named_theorems res_simps "sequencing of computations that may fault"
named_theorems buf_simps "reading and writing byte buffers"
named_theorems int32_simps "ranges of machine integers"

subsection \<open>Faults and results\<close>

text \<open>
  \<open>NullPointer\<close>: a null or missing pointer is dereferenced (or \<open>std::string\<close> is built from
  one). \<open>EmptyContainer\<close>: \<open>front\<close> of an empty queue. \<open>OutOfRange\<close>: \<open>vector::at\<close> throws and nobody
  catches. \<open>BufferOverflow\<close>: a write past the end of an array. \<open>OverRead\<close>: a read past the end of
  a known array. \<open>IntOverflow\<close>: a signed operation leaves the 32-bit range. \<open>BadNumber\<close>:
  \<open>std::stoi\<close> throws. \<open>Exit n\<close>: the program calls \<open>exit(n)\<close>. \<open>Abort\<close>: it calls \<open>abort()\<close>.
\<close>

datatype fault =
    NullPointer
  | EmptyContainer
  | OutOfRange
  | BufferOverflow
  | OverRead
  | IntOverflow
  | BadNumber
  | Exit int
  | Abort

type_synonym 'a res = "fault + 'a"

definition rbind :: "'a res \<Rightarrow> ('a \<Rightarrow> 'b res) \<Rightarrow> 'b res" where
  "rbind m f = (case m of Inl e \<Rightarrow> Inl e | Inr x \<Rightarrow> f x)"

lemma rbind_Inl [simp, res_simps]: "rbind (Inl e) f = Inl e"
  by (simp add: rbind_def)

lemma rbind_Inr [simp, res_simps]: "rbind (Inr x) f = f x"
  by (simp add: rbind_def)

lemma rbind_eq_Inr [res_simps]: "rbind m f = Inr y \<longleftrightarrow> (\<exists>x. m = Inr x \<and> f x = Inr y)"
  by (cases m) auto

lemma rbind_eq_Inl [res_simps]:
  "rbind m f = Inl e \<longleftrightarrow> m = Inl e \<or> (\<exists>x. m = Inr x \<and> f x = Inl e)"
  by (cases m) auto

lemma rbind_split [res_simps]:
  "P (rbind m f) \<longleftrightarrow> (\<forall>e. m = Inl e \<longrightarrow> P (Inl e)) \<and> (\<forall>x. m = Inr x \<longrightarrow> P (f x))"
  by (cases m) auto

definition guard_res :: "bool \<Rightarrow> fault \<Rightarrow> unit res" where
  "guard_res b e = (if b then Inr () else Inl e)"

lemma guard_res_simps [simp, res_simps]:
  "guard_res True e = Inr ()" "guard_res False e = Inl e"
  by (simp_all add: guard_res_def)

lemma guard_res_eq_Inr [simp, res_simps]: "guard_res b e = Inr u \<longleftrightarrow> b"
  by (simp add: guard_res_def)

lemma guard_res_eq_Inl [simp, res_simps]: "guard_res b e = Inl e' \<longleftrightarrow> \<not> b \<and> e' = e"
  by (auto simp: guard_res_def)

subsection \<open>Signed 32-bit integers\<close>

abbreviation INT_MAX :: int where
  "INT_MAX \<equiv> 2147483647"

abbreviation INT_MIN :: int where
  "INT_MIN \<equiv> - 2147483648"

definition in_int32 :: "int \<Rightarrow> bool" where
  "in_int32 x \<longleftrightarrow> INT_MIN \<le> x \<and> x \<le> INT_MAX"

text \<open>Assigning a wider integer to an \<open>int\<close> keeps its low 32 bits.\<close>

definition to_int32 :: "int \<Rightarrow> int" where
  "to_int32 x = (x + 2147483648) mod 4294967296 - 2147483648"

definition inc32 :: "int \<Rightarrow> int res" where
  "inc32 x = (if in_int32 (x + 1) then Inr (x + 1) else Inl IntOverflow)"

text \<open>C's division truncates towards zero.\<close>

definition c_div :: "int \<Rightarrow> int \<Rightarrow> int" where
  "c_div a b = sgn a * sgn b * (\<bar>a\<bar> div \<bar>b\<bar>)"

lemma to_int32_in_range [int32_simps]: "in_int32 (to_int32 x)"
proof -
  have "0 \<le> (x + 2147483648) mod 4294967296 \<and> (x + 2147483648) mod 4294967296 < 4294967296"
    by simp
  then show ?thesis by (simp add: in_int32_def to_int32_def)
qed

lemma to_int32_id [int32_simps]: "in_int32 x \<Longrightarrow> to_int32 x = x"
  by (simp add: in_int32_def to_int32_def)

lemma inc32_eq_Inr [simp, int32_simps]: "inc32 x = Inr y \<longleftrightarrow> in_int32 (x + 1) \<and> y = x + 1"
  by (auto simp: inc32_def)

lemma c_div_nonneg: "0 \<le> a \<Longrightarrow> 0 < b \<Longrightarrow> c_div a b = a div b"
  by (cases "a = 0") (simp_all add: c_div_def sgn_if)

subsection \<open>Buffers\<close>

type_synonym bytes = "char list"

abbreviation NUL :: char where
  "NUL \<equiv> CHR 0x00"

text \<open>The C string at the start of a buffer: the bytes before its first NUL.\<close>

definition cstr :: "bytes \<Rightarrow> string" where
  "cstr buf = takeWhile (\<lambda>c. c \<noteq> NUL) buf"

text \<open>A write of \<open>bs\<close> into an array at offset \<open>i\<close>, refused when it would leave the array.\<close>

definition write_at :: "nat \<Rightarrow> bytes \<Rightarrow> bytes \<Rightarrow> bytes res" where
  "write_at i bs buf =
     (if i + length bs \<le> length buf
      then Inr (take i buf @ bs @ drop (i + length bs) buf)
      else Inl BufferOverflow)"

text \<open>A read of \<open>n\<close> bytes at offset \<open>i\<close> of an array.\<close>

definition read_at :: "nat \<Rightarrow> nat \<Rightarrow> bytes \<Rightarrow> bytes res" where
  "read_at i n buf = (if i + n \<le> length buf then Inr (take n (drop i buf)) else Inl OverRead)"

text \<open>\<open>sprintf\<close> into an array: the text and its terminating NUL.\<close>

definition sprintf_buf :: "string \<Rightarrow> bytes \<Rightarrow> bytes res" where
  "sprintf_buf s buf = write_at 0 (s @ [NUL]) buf"

text \<open>
  A receive buffer after the library stored a message in it: at most its capacity is
  stored, the rest keeps what the array held before.
\<close>

definition fill :: "bytes \<Rightarrow> bytes \<Rightarrow> bytes" where
  "fill msg buf = take (length buf) msg @ drop (length msg) buf"

text \<open>\<open>bzero\<close>\<close>

definition zeros :: "nat \<Rightarrow> bytes" where
  "zeros n = replicate n NUL"

definition no_nul :: "string \<Rightarrow> bool" where
  "no_nul s \<longleftrightarrow> (\<forall>c \<in> set s. c \<noteq> NUL)"

text \<open>
  An array the code does not initialise: \<open>stack i\<close> is whatever its \<open>i\<close>-th byte happens to be.
  Every statement about such a buffer holds for all \<open>stack\<close>.
\<close>

definition stack_array :: "nat \<Rightarrow> (nat \<Rightarrow> char) \<Rightarrow> bytes" where
  "stack_array n stack = map stack [0..<n]"

lemma length_stack_array [simp, buf_simps]: "length (stack_array n stack) = n"
  by (simp add: stack_array_def)

lemma length_zeros [simp, buf_simps]: "length (zeros n) = n"
  by (simp add: zeros_def)

lemma length_fill [simp, buf_simps]: "length (fill msg buf) = length buf"
  by (simp add: fill_def)

lemma fill_fits [buf_simps]: "length msg \<le> length buf \<Longrightarrow> fill msg buf = msg @ drop (length msg) buf"
  by (simp add: fill_def)

lemma length_write_at [buf_simps]: "write_at i bs buf = Inr buf' \<Longrightarrow> length buf' = length buf"
  by (auto simp: write_at_def split: if_splits)

lemma write_at_ok [buf_simps]:
  "i + length bs \<le> length buf \<Longrightarrow>
     write_at i bs buf = Inr (take i buf @ bs @ drop (i + length bs) buf)"
  by (simp add: write_at_def)

lemma read_at_ok [buf_simps]: "i + n \<le> length buf \<Longrightarrow> read_at i n buf = Inr (take n (drop i buf))"
  by (simp add: read_at_def)

lemma read_at_append [buf_simps]:
  "i = length pre \<Longrightarrow> n = length bs \<Longrightarrow> read_at i n (pre @ bs @ post) = Inr bs"
  by (simp add: read_at_def)

lemma cstr_NUL [simp, buf_simps]: "no_nul s \<Longrightarrow> cstr (s @ NUL # rest) = s"
  by (simp add: cstr_def no_nul_def)

lemma cstr_id [simp, buf_simps]: "no_nul s \<Longrightarrow> cstr s = s"
  by (simp add: cstr_def no_nul_def takeWhile_eq_all_conv)

lemma cstr_append [buf_simps]: "no_nul s \<Longrightarrow> cstr (s @ rest) = s @ cstr rest"
  by (induction s) (auto simp: cstr_def no_nul_def)

lemma no_nul_cstr [simp, buf_simps]: "no_nul (cstr buf)"
  by (auto simp: no_nul_def cstr_def dest: set_takeWhileD)

lemma no_nul_append [simp, buf_simps]: "no_nul (s @ t) \<longleftrightarrow> no_nul s \<and> no_nul t"
  by (auto simp: no_nul_def)

lemma no_nul_Cons [simp, buf_simps]: "no_nul (c # s) \<longleftrightarrow> c \<noteq> NUL \<and> no_nul s"
  by (auto simp: no_nul_def)

lemma no_nul_Nil [simp, buf_simps]: "no_nul []"
  by (simp add: no_nul_def)

lemma sprintf_buf_ok [buf_simps]:
  "length s < length buf \<Longrightarrow> sprintf_buf s buf = Inr (s @ NUL # drop (Suc (length s)) buf)"
  by (simp add: sprintf_buf_def write_at_def)

subsection \<open>Lists of records that are updated one at a time\<close>

lemma filter_names_index:
  "distinct (map f (filter P xs)) \<Longrightarrow> i < length xs \<Longrightarrow> j < length xs \<Longrightarrow> P (xs ! i) \<Longrightarrow> P (xs ! j) \<Longrightarrow>
     f (xs ! i) = f (xs ! j) \<Longrightarrow> i = j"
proof (induction xs arbitrary: i j)
  case (Cons x xs)
  have n: "f x \<noteq> f (xs ! k)" if "k < length xs" "P (xs ! k)" "P x" for k
    using Cons.prems(1) that by (auto simp: image_iff)
  from Cons.prems(1) have d: "distinct (map f (filter P xs))" by (simp split: if_splits)
  show ?case
  proof (cases i)
    case 0
    show ?thesis
    proof (cases j)
      case (Suc j')
      from n [of j'] Cons.prems(3-6) 0 Suc show ?thesis by simp
    qed (simp add: 0)
  next
    case (Suc i')
    show ?thesis
    proof (cases j)
      case 0
      have "f x = f (xs ! i')" using Cons.prems(6) Suc 0 by simp
      with n [of i'] Cons.prems(2,4,5) Suc 0 show ?thesis by simp
    next
      case (Suc j')
      from Cons.IH [OF d, of i' j'] Cons.prems(2-6) \<open>i = Suc i'\<close> Suc show ?thesis by simp
    qed
  qed
qed simp

lemma filter_names_update:
  "distinct (map f (filter P xs)) \<Longrightarrow> i < length xs \<Longrightarrow> f y = f (xs ! i) \<Longrightarrow> (P y \<Longrightarrow> P (xs ! i)) \<Longrightarrow>
     distinct (map f (filter P (xs[i := y])))"
proof -
  assume d: "distinct (map f (filter P xs))" and i: "i < length xs" and f: "f y = f (xs ! i)" and p: "P y \<Longrightarrow> P (xs ! i)"
  have "filter P xs = filter P (take i xs) @ filter P [xs ! i] @ filter P (drop (Suc i) xs)"
    using arg_cong [OF id_take_nth_drop [OF i], of "filter P"] by simp
  moreover have "filter P (xs[i := y]) = filter P (take i xs) @ filter P [y] @ filter P (drop (Suc i) xs)"
    using i by (simp add: upd_conv_take_nth_drop)
  ultimately show ?thesis using d f p by (cases "P y") (auto split: if_splits)
qed

lemma map_update_same: "f y = f (xs ! i) \<Longrightarrow> map f (xs[i := y]) = map f xs"
  by (simp add: map_update) (metis list_update_beyond list_update_id linorder_not_less nth_map length_map)

lemma sum_update:
  "i < length us \<Longrightarrow> (\<Sum>w\<leftarrow>us[i := u']. f w) + f (us ! i) = (\<Sum>w\<leftarrow>us. f w) + (f u' :: nat)"
  using sum_list_update [of i "map f us" "f u'"] elem_le_sum_list [of i "map f us"]
  by (simp add: map_update)

end
