(* ===== verification/CLib.thy ===== *)
theory CLib
  imports Prelude
begin

text \<open>
  The part of the C library the program parses and prints with: \<open>strtok\<close>, \<open>strtol\<close> /
  \<open>atoi\<close> in base 10, and the \<open>%d\<close> conversion of \<open>printf\<close>, as executable functions on buffers
  and strings, with the round trips between them.
\<close>

named_theorems clib_simps "parsing and printing with the C library"

subsection \<open>Decimal digits\<close>

definition is_digit :: "char \<Rightarrow> bool" where
  "is_digit c \<longleftrightarrow> 48 \<le> (of_char c :: nat) \<and> (of_char c :: nat) \<le> 57"

definition digit_char :: "nat \<Rightarrow> char" where
  "digit_char d = char_of (48 + d)"

definition digit_val :: "char \<Rightarrow> nat" where
  "digit_val c = of_char c - 48"

fun dec_nat :: "nat \<Rightarrow> string" where
  "dec_nat n = (if n < 10 then [digit_char n] else dec_nat (n div 10) @ [digit_char (n mod 10)])"

declare dec_nat.simps [simp del]

definition print_int :: "int \<Rightarrow> string" where
  "print_int i = (if i < 0 then CHR ''-'' # dec_nat (nat (- i)) else dec_nat (nat i))"

definition digits_val :: "string \<Rightarrow> nat" where
  "digits_val ds = foldl (\<lambda>a c. 10 * a + digit_val c) 0 ds"

lemma of_digit_char [clib_simps]: "d < 10 \<Longrightarrow> (of_char (digit_char d) :: nat) = 48 + d"
  by (simp add: digit_char_def)

lemma is_digit_digit_char [simp, clib_simps]: "d < 10 \<Longrightarrow> is_digit (digit_char d)"
  by (simp add: is_digit_def of_digit_char)

lemma digit_val_digit_char [simp, clib_simps]: "d < 10 \<Longrightarrow> digit_val (digit_char d) = d"
  by (simp add: digit_val_def of_digit_char)

lemma is_digit_neq [clib_simps]:
  "is_digit c \<Longrightarrow> c \<noteq> NUL" "is_digit c \<Longrightarrow> c \<noteq> CHR '',''" "is_digit c \<Longrightarrow> c \<noteq> CHR ''-''"
  "is_digit c \<Longrightarrow> c \<noteq> CHR '' ''" "is_digit c \<Longrightarrow> c \<noteq> CHR ''+''"
  by (auto simp: is_digit_def)

lemma dec_nat_not_Nil [simp]: "dec_nat n \<noteq> []"
  by (subst dec_nat.simps) simp

lemma dec_nat_digits: "list_all is_digit (dec_nat n)"
proof (induction n rule: dec_nat.induct)
  case (1 n)
  then show ?case by (subst dec_nat.simps) simp
qed

lemma dec_nat_digit [clib_simps]: "c \<in> set (dec_nat n) \<Longrightarrow> is_digit c"
  using dec_nat_digits by (auto simp: list_all_iff)

lemma digits_val_snoc [simp]: "digits_val (ds @ [c]) = 10 * digits_val ds + digit_val c"
  by (simp add: digits_val_def)

lemma digits_val_dec_nat [simp, clib_simps]: "digits_val (dec_nat n) = n"
proof (induction n rule: dec_nat.induct)
  case (1 n)
  then show ?case by (subst dec_nat.simps) (simp add: digits_val_def)
qed

lemma length_dec_nat_le:
  "0 < k \<Longrightarrow> n < 10 ^ k \<Longrightarrow> length (dec_nat n) \<le> k"
proof (induction n arbitrary: k rule: dec_nat.induct)
  case (1 n)
  show ?case
  proof (cases "n < 10")
    case True
    with "1.prems" show ?thesis by (subst dec_nat.simps) simp
  next
    case False
    from False "1.prems" have "k \<noteq> 1" by auto
    with "1.prems" obtain j where k: "k = Suc j" "0 < j"
      by (cases k) auto
    with "1.prems" have "n div 10 < 10 ^ j" by (simp add: less_mult_imp_div_less)
    with False k "1.IH" have "length (dec_nat (n div 10)) \<le> j" by simp
    with False k show ?thesis by (subst dec_nat.simps) simp
  qed
qed

lemma length_dec_nat_step: "10 \<le> n \<Longrightarrow> length (dec_nat n) = Suc (length (dec_nat (n div 10)))"
  by (subst dec_nat.simps) simp

lemma print_int_nonneg: "0 \<le> i \<Longrightarrow> print_int i = dec_nat (nat i)"
  by (simp add: print_int_def)

lemma no_nul_dec_nat [simp, clib_simps]: "no_nul (dec_nat n)"
  by (auto simp: no_nul_def clib_simps)

lemma no_nul_print_int [simp, clib_simps]: "no_nul (print_int i)"
  by (simp add: print_int_def)

lemma print_int_not_Nil [simp]: "print_int i \<noteq> []"
  by (simp add: print_int_def)

lemma print_int_chars [clib_simps]: "c \<in> set (print_int i) \<Longrightarrow> is_digit c \<or> c = CHR ''-''"
  by (auto simp: print_int_def clib_simps split: if_splits)

subsection \<open>strtol and atoi\<close>

definition is_space :: "char \<Rightarrow> bool" where
  "is_space c \<longleftrightarrow> c = CHR '' '' \<or> (9 \<le> (of_char c :: nat) \<and> (of_char c :: nat) \<le> 13)"

text \<open>
  Leading white space, one optional sign, then digits up to the first other character; the
  value saturates at the bounds of a 64-bit \<open>long\<close>, and no digit at all gives 0.
\<close>

definition clamp_long :: "int \<Rightarrow> int" where
  "clamp_long v = max (- 9223372036854775808) (min 9223372036854775807 v)"

definition strtol :: "string \<Rightarrow> int" where
  "strtol s =
     (let s1 = dropWhile is_space s
      in case s1 of
           [] \<Rightarrow> 0
         | c # t \<Rightarrow>
             if c = CHR ''-'' then clamp_long (- int (digits_val (takeWhile is_digit t)))
             else if c = CHR ''+'' then clamp_long (int (digits_val (takeWhile is_digit t)))
             else clamp_long (int (digits_val (takeWhile is_digit s1))))"

text \<open>\<open>int x = strtol(s, NULL, 10)\<close> and \<open>atoi(s)\<close>: the low 32 bits of the \<open>long\<close>.\<close>

definition strtol_int :: "string \<Rightarrow> int" where
  "strtol_int s = to_int32 (strtol s)"

definition stops_number :: "string \<Rightarrow> bool" where
  "stops_number s \<longleftrightarrow> (case s of [] \<Rightarrow> True | c # _ \<Rightarrow> \<not> is_digit c)"

lemma takeWhile_digits [clib_simps]:
  "stops_number rest \<Longrightarrow> takeWhile is_digit (dec_nat n @ rest) = dec_nat n"
  by (cases rest) (auto simp: stops_number_def clib_simps takeWhile_append2 takeWhile_eq_all_conv)

lemma is_digit_not_space: "is_digit c \<Longrightarrow> \<not> is_space c"
  by (auto simp: is_digit_def is_space_def)

lemma dropWhile_space_dec_nat: "dropWhile is_space (dec_nat n @ rest) = dec_nat n @ rest"
  by (cases "dec_nat n") (auto dest: dec_nat_digit is_digit_not_space, metis dec_nat_digit
      is_digit_not_space list.set_intros(1))

lemma strtol_print_int [clib_simps]:
  assumes "stops_number rest" and "\<bar>i\<bar> \<le> 9223372036854775807"
  shows "strtol (print_int i @ rest) = i"
proof (cases "i < 0")
  case True
  have "\<not> is_space (CHR ''-'')" by (simp add: is_space_def)
  with True assms show ?thesis
    by (simp add: strtol_def print_int_def takeWhile_digits clamp_long_def)
next
  case False
  obtain c t where ct: "dec_nat (nat i) = c # t" by (cases "dec_nat (nat i)") auto
  then have "is_digit c" using dec_nat_digit by (metis list.set_intros(1))
  then have "c \<noteq> CHR ''-''" "c \<noteq> CHR ''+''" by (simp_all add: is_digit_neq)
  moreover have "takeWhile is_digit (c # t @ rest) = dec_nat (nat i)"
    using takeWhile_digits [OF assms(1), of "nat i"] ct by simp
  moreover have "digits_val (c # t) = nat i"
    using digits_val_dec_nat [of "nat i"] ct by simp
  ultimately show ?thesis
    using False assms(2) dropWhile_space_dec_nat [of "nat i" rest] ct
    by (simp add: strtol_def print_int_def clamp_long_def del: takeWhile.simps)
qed

lemma strtol_int_print_int [clib_simps]:
  assumes "stops_number rest" and "in_int32 i"
  shows "strtol_int (print_int i @ rest) = i"
proof -
  from assms(2) have "\<bar>i\<bar> \<le> 9223372036854775807" unfolding in_int32_def by arith
  with assms show ?thesis by (simp add: strtol_int_def strtol_print_int to_int32_id)
qed

lemma strtol_int_print_int_0 [clib_simps]: "in_int32 i \<Longrightarrow> strtol_int (print_int i) = i"
  using strtol_int_print_int [of "[]" i] by (simp add: stops_number_def)

subsection \<open>strtok\<close>

text \<open>
  A call looks at the C string that starts at the saved position, skips leading delimiters,
  and returns the token up to the next delimiter, where it stores a NUL. The result holds
  the token, where it starts, the position the next call starts from, and the buffer after
  the store. \<open>None\<close> is the null pointer: nothing but delimiters was left.
\<close>

record token =
  tok :: string
  tok_start :: nat
  tok_next :: nat
  tok_buf :: bytes

definition strtok :: "char list \<Rightarrow> bytes \<Rightarrow> nat \<Rightarrow> token option" where
  "strtok delims buf pos =
     (let s = cstr (drop pos buf);
          skip = length (takeWhile (\<lambda>c. c \<in> set delims) s);
          rest = drop skip s;
          t = takeWhile (\<lambda>c. c \<notin> set delims) rest;
          end = pos + skip + length t
      in if rest = [] then None
         else if length t = length rest
           then Some \<lparr>tok = t, tok_start = pos + skip, tok_next = end, tok_buf = buf\<rparr>
         else Some \<lparr>tok = t, tok_start = pos + skip, tok_next = Suc end, tok_buf = buf[end := NUL]\<rparr>)"

definition no_char :: "char list \<Rightarrow> string \<Rightarrow> bool" where
  "no_char ds s \<longleftrightarrow> (\<forall>c \<in> set s. c \<notin> set ds)"

lemma no_char_simps [simp, clib_simps]:
  "no_char ds []" "no_char ds (c # s) \<longleftrightarrow> c \<notin> set ds \<and> no_char ds s"
  "no_char ds (s @ t) \<longleftrightarrow> no_char ds s \<and> no_char ds t"
  by (auto simp: no_char_def)

lemma no_char_dec_nat [simp, clib_simps]: "no_char [CHR '',''] (dec_nat n)"
  by (auto simp: no_char_def clib_simps dest: dec_nat_digit)

lemma no_char_print_int [simp, clib_simps]: "no_char [CHR '',''] (print_int i)"
  by (simp add: print_int_def)

text \<open>A token ended by a delimiter, at a known place in the buffer.\<close>

lemma strtok_field:
  assumes "length pre = pos" and "t \<noteq> []" and "no_char ds t" and "no_nul t"
    and "d \<in> set ds" and "d \<noteq> NUL"
  shows "strtok ds (pre @ t @ d # post) pos =
     Some \<lparr>tok = t, tok_start = pos, tok_next = pos + length t + 1,
          tok_buf = pre @ t @ NUL # post\<rparr>"
proof -
  have c: "cstr (drop pos (pre @ t @ d # post)) = t @ d # cstr post"
    using assms by (simp add: cstr_append) (simp add: cstr_def)
  have k: "takeWhile (\<lambda>c. c \<in> set ds) (t @ d # cstr post) = []"
    using assms by (cases t) auto
  have u: "takeWhile (\<lambda>c. c \<notin> set ds) (t @ d # cstr post) = t"
    using assms by (auto simp: no_char_def takeWhile_append2)
  have "(pre @ t @ d # post)[pos + length t := NUL] = pre @ t @ NUL # post"
    using assms(1) by (simp add: list_update_append)
  then show ?thesis
    unfolding strtok_def Let_def c k using assms(2) by (simp add: u)
qed

text \<open>A token that runs to the end of the string.\<close>

lemma strtok_last:
  assumes "length pre = pos" and "t \<noteq> []" and "no_char ds t" and "no_nul t"
  shows "strtok ds (pre @ t @ NUL # post) pos =
     Some \<lparr>tok = t, tok_start = pos, tok_next = pos + length t,
          tok_buf = pre @ t @ NUL # post\<rparr>"
proof -
  have c: "cstr (drop pos (pre @ t @ NUL # post)) = t"
    using assms by simp
  have k: "takeWhile (\<lambda>c. c \<in> set ds) t = []"
    using assms by (cases t) auto
  have u: "takeWhile (\<lambda>c. c \<notin> set ds) t = t"
    using assms by (auto simp: no_char_def takeWhile_eq_all_conv)
  show ?thesis
    unfolding strtok_def Let_def c k using assms(2) by (simp add: u)
qed

lemma strtok_at_end: "length pre = pos \<Longrightarrow> strtok ds (pre @ NUL # post) pos = None"
  by (simp add: strtok_def cstr_def)

end
