(* ===== verification/SemQueue.thy ===== *)
theory SemQueue
  imports Prelude
begin

text \<open>
  The interface behind every hand-over between threads in this program: a FIFO queue and a
  semaphore that counts its elements. The producer pushes and then posts; the consumer waits
  and then pops. The message distributor uses it for accepted connections and for the
  messages of each socket, the server for the images of each user. A provider shows that one
  push-and-post and one wait-and-pop behave as the laws say; the client gets that the
  consumer never pops an empty queue and that elements come out in the order they went in.
\<close>

datatype 'a qop = Put 'a | Get

locale sem_queue =
  fixes items :: "'s \<Rightarrow> 'a list"
    and count :: "'s \<Rightarrow> nat"
    and put :: "'a \<Rightarrow> 's \<Rightarrow> 's res"
    and get :: "'s \<Rightarrow> 's res"
    and ok :: "'s \<Rightarrow> bool"
  assumes ok_count: "ok s \<Longrightarrow> count s = length (items s)"
    and put_total: "ok s \<Longrightarrow> \<exists>s'. put x s = Inr s'"
    and ok_put: "ok s \<Longrightarrow> put x s = Inr s' \<Longrightarrow> ok s'"
    and items_put: "ok s \<Longrightarrow> put x s = Inr s' \<Longrightarrow> items s' = items s @ [x]"
    and get_total: "ok s \<Longrightarrow> 0 < count s \<Longrightarrow> \<exists>s'. get s = Inr s'"
    and ok_get: "ok s \<Longrightarrow> 0 < count s \<Longrightarrow> get s = Inr s' \<Longrightarrow> ok s'"
    and items_get: "ok s \<Longrightarrow> 0 < count s \<Longrightarrow> get s = Inr s' \<Longrightarrow> items s = hd (items s) # items s'"
begin

text \<open>
  A run of producer and consumer operations. A \<open>Get\<close> on a semaphore at 0 blocks, which
  ends the run early: the operations after it have not happened.
\<close>

fun run :: "'a qop list \<Rightarrow> 's \<Rightarrow> ('s \<times> 'a list) res" where
  "run [] s = Inr (s, [])"
| "run (Put x # ops) s = rbind (put x s) (run ops)"
| "run (Get # ops) s =
     (if count s = 0 then Inr (s, [])
      else rbind (get s) (\<lambda>s'. rbind (run ops s') (\<lambda>(t, out). Inr (t, hd (items s) # out))))"

fun puts :: "'a qop list \<Rightarrow> 'a list" where
  "puts [] = []"
| "puts (Put x # ops) = x # puts ops"
| "puts (Get # ops) = puts ops"

lemma get_ok:
  assumes "ok s" and "0 < count s"
  obtains s' where "get s = Inr s'" "ok s'" "items s = hd (items s) # items s'"
  using assms get_total ok_get items_get by blast

lemma put_ok:
  assumes "ok s"
  obtains s' where "put x s = Inr s'" "ok s'" "items s' = items s @ [x]"
  using assms put_total ok_put items_put by blast

lemma count_put: "ok s \<Longrightarrow> put x s = Inr s' \<Longrightarrow> count s' = Suc (count s)"
  using items_put [of s x s'] ok_put [of s x s'] by (simp add: ok_count)

lemma count_get: "ok s \<Longrightarrow> 0 < count s \<Longrightarrow> get s = Inr s' \<Longrightarrow> count s = Suc (count s')"
  using items_get [of s s'] ok_get [of s s'] ok_count [of s] ok_count [of s']
  by (metis length_Cons)

text \<open>A message put into an empty queue is the one the next wait returns.\<close>

lemma put_get_single:
  assumes "ok s" and "items s = []" and "put x s = Inr s1" and "get s1 = Inr s2"
  shows "hd (items s1) = x \<and> items s2 = []"
proof -
  from assms(1,2,3) have s1: "items s1 = [x]" "ok s1" "0 < count s1"
    using items_put ok_put count_put by fastforce+
  with assms(4) have "items s1 = hd (items s1) # items s2" using items_get by blast
  with s1 show ?thesis by simp
qed

lemma run_total: "ok s \<Longrightarrow> \<exists>t out. run ops s = Inr (t, out) \<and> ok t"
proof (induction ops arbitrary: s)
  case Nil
  then show ?case by simp
next
  case (Cons a ops)
  show ?case
  proof (cases a)
    case (Put x)
    obtain s1 where "put x s = Inr s1" "ok s1" using Cons.prems put_ok by blast
    with Cons.IH [of s1] Put show ?thesis by simp
  next
    case Get
    show ?thesis
    proof (cases "count s = 0")
      case True
      with Get Cons.prems show ?thesis by simp
    next
      case False
      with Cons.prems obtain s' where "get s = Inr s'" "ok s'"
        using get_ok by blast
      with Cons.IH [of s'] Get False show ?thesis by auto
    qed
  qed
qed

text \<open>What came out, and then what is left, is a prefix of what was there and what was put.\<close>

lemma run_fifo:
  assumes "ok s" and "run ops s = Inr (t, out)"
  shows "\<exists>rest. items s @ puts ops = out @ rest"
  using assms
proof (induction ops arbitrary: s out)
  case Nil
  then show ?case by simp
next
  case (Cons a ops)
  show ?case
  proof (cases a)
    case (Put x)
    obtain s1 where s1: "put x s = Inr s1" "ok s1" "items s1 = items s @ [x]"
      using Cons.prems(1) put_ok by blast
    with Cons.prems(2) Put have "run ops s1 = Inr (t, out)" by simp
    with Cons.IH [OF s1(2)] s1(3) Put show ?thesis by auto
  next
    case Get
    show ?thesis
    proof (cases "count s = 0")
      case True
      with Get Cons.prems show ?thesis by simp
    next
      case False
      with Cons.prems(1) obtain s' where s': "get s = Inr s'" "ok s'" "items s = hd (items s) # items s'"
        using get_ok by blast
      with Cons.prems(2) Get False obtain out' where
        "run ops s' = Inr (t, out')" "out = hd (items s) # out'"
        by (auto simp: res_simps)
      with Cons.IH [of s' out'] s'(2,3) Get show ?thesis
        by (metis append_Cons puts.simps(3))
    qed
  qed
qed

end

end
