(* ===== verification/MsgDistributor.thy ===== *)
theory MsgDistributor
  imports CLib SemQueue
begin

text \<open>
  The message distributor (\<open>MsgDistributor.cpp\<close>): many sockets multiplexed over one
  MobilityFirst handle. The state is the object's fields; semaphores and queues live on a
  heap and the maps hold their addresses, because \<open>recv\<close> keeps a semaphore's address across
  a wait while \<open>close\<close> erases the map entry. A method that blocks is cut at its wait: the part
  before it, and the part that runs once the semaphore is positive. What \<open>mfsend\<close> and
  \<open>mfrecv_blk\<close> return is an argument, and uninitialised memory is an argument too.
\<close>

named_theorems md_simps "definitions of the message distributor"

subsection \<open>State\<close>

definition BUFFER_SIZE :: nat where "BUFFER_SIZE = 1024"

definition MAX_CHUNK :: nat where "MAX_CHUNK = 50000"

record msgd =
  src_GUID :: int
  dst_GUID :: int
  md_debug :: int
  stop :: int
  mfsockid :: int
  id_lock :: bool
  connect_sem :: nat
  connect_queue :: "int list"
  accept_sem :: nat
  sem_map :: "int \<rightharpoonup> nat"
  queue_map :: "int \<rightharpoonup> nat"
  status_map :: "int \<rightharpoonup> int"
  sem_heap :: "nat \<rightharpoonup> nat"
  queue_heap :: "nat \<rightharpoonup> bytes list"
  next_addr :: nat

text \<open>The constructor and the initialisers of the class.\<close>

definition new_msgd :: msgd where
  "new_msgd = \<lparr>src_GUID = 0, dst_GUID = 0, md_debug = 0, stop = 0, mfsockid = -1, id_lock = False,
     connect_sem = 0, connect_queue = [], accept_sem = 0, sem_map = Map.empty, queue_map = Map.empty,
     status_map = Map.empty, sem_heap = Map.empty, queue_heap = Map.empty, next_addr = 0\<rparr>"

definition init :: "int \<Rightarrow> int \<Rightarrow> int \<Rightarrow> int \<Rightarrow> bool \<Rightarrow> msgd \<Rightarrow> (msgd \<times> int) res" where
  "init src dst set_debug mfopen_ret mutex_ok s =
     (if mfsockid s \<noteq> -1 then Inr (s, -1)
      else if mfopen_ret \<noteq> 0 then Inl (Exit 1)
      else let s1 = s\<lparr>mfsockid := 0, src_GUID := src, dst_GUID := dst, md_debug := set_debug\<rparr>
           in if \<not> mutex_ok then Inr (s1, -1)
              else Inr (s1\<lparr>connect_sem := 0, accept_sem := 0\<rparr>, 0))"

subsection \<open>The decimal length of a socket id\<close>

function id_length_loop :: "int \<Rightarrow> int \<Rightarrow> int \<Rightarrow> int res" where
  "id_length_loop sid divisor id_length =
     (if c_div sid divisor \<noteq> 0
      then if in_int32 (divisor * 10) then id_length_loop sid (divisor * 10) (id_length + 1)
           else Inl IntOverflow
      else Inr id_length)"
  by pat_completeness auto
termination
  by (relation "measure (\<lambda>(sid, divisor, n). nat (4294967296 - \<bar>divisor\<bar>))")
    (auto simp: in_int32_def c_div_def abs_mult split: if_splits)

declare id_length_loop.simps [simp del]

definition id_length_of :: "int \<Rightarrow> int res" where
  "id_length_of sid = id_length_loop sid 10 1"

subsection \<open>Semaphores, queues and the maps\<close>

definition sem_post :: "nat \<Rightarrow> msgd \<Rightarrow> msgd res" where
  "sem_post a s =
     (case sem_heap s a of
        None \<Rightarrow> Inl NullPointer
      | Some n \<Rightarrow> Inr (s\<lparr>sem_heap := (sem_heap s)(a \<mapsto> Suc n)\<rparr>))"

definition sem_take :: "nat \<Rightarrow> msgd \<Rightarrow> msgd" where
  "sem_take a s = s\<lparr>sem_heap := (sem_heap s)(a := map_option (\<lambda>n. n - 1) (sem_heap s a))\<rparr>"

text \<open>A new queue, a new semaphore at 0 and status 1, entered into the maps under one id.\<close>

definition register_connection :: "int \<Rightarrow> msgd \<Rightarrow> msgd" where
  "register_connection newID s =
     (let a = next_addr s; q = Suc (next_addr s)
      in s\<lparr>sem_heap := (sem_heap s)(a \<mapsto> 0), queue_heap := (queue_heap s)(q \<mapsto> []),
           queue_map := (queue_map s)(newID \<mapsto> q), sem_map := (sem_map s)(newID \<mapsto> a),
           status_map := (status_map s)(newID \<mapsto> 1), next_addr := Suc (Suc (next_addr s))\<rparr>)"

definition push_message :: "int \<Rightarrow> bytes \<Rightarrow> msgd \<Rightarrow> msgd res" where
  "push_message sid content s =
     (case queue_map s sid of
        None \<Rightarrow> Inl NullPointer
      | Some q \<Rightarrow>
          (case queue_heap s q of
             None \<Rightarrow> Inl NullPointer
           | Some cs \<Rightarrow>
               (let s1 = s\<lparr>queue_heap := (queue_heap s)(q \<mapsto> cs @ [content])\<rparr>
                in case sem_map s1 sid of
                     None \<Rightarrow> Inl NullPointer
                   | Some a \<Rightarrow> sem_post a s1)))"

definition pop_message :: "int \<Rightarrow> msgd \<Rightarrow> (bytes \<times> msgd) res" where
  "pop_message sock s =
     (case queue_map s sock of
        None \<Rightarrow> Inl NullPointer
      | Some q \<Rightarrow>
          (case queue_heap s q of
             None \<Rightarrow> Inl NullPointer
           | Some [] \<Rightarrow> Inl EmptyContainer
           | Some (c # cs) \<Rightarrow> Inr (c, s\<lparr>queue_heap := (queue_heap s)(q \<mapsto> cs)\<rparr>)))"

subsection \<open>close\<close>

definition close :: "int \<Rightarrow> int \<Rightarrow> (nat \<Rightarrow> char) \<Rightarrow> int \<Rightarrow> msgd \<Rightarrow> (msgd \<times> bytes list \<times> int) res" where
  "close sock passive stack mfsend_ret s =
     (if mfsockid s = -1 then Inl (Exit 1)
      else case sem_map s sock of
        None \<Rightarrow> Inr (s, [], -1)
      | Some close_sem \<Rightarrow>
          rbind (sem_post close_sem (s\<lparr>status_map := (status_map s)(sock \<mapsto> 0)\<rparr>)) (\<lambda>s1.
            let s2 = s1\<lparr>queue_heap :=
                          (case queue_map s sock of
                             None \<Rightarrow> queue_heap s1
                           | Some close_queue \<Rightarrow> (queue_heap s1)(close_queue := None)),
                        sem_map := (sem_map s1)(sock := None),
                        queue_map := (queue_map s1)(sock := None)\<rparr>
            in if passive = 0
               then rbind (sprintf_buf (''close,'' @ print_int sock @ '','')
                             (stack_array BUFFER_SIZE stack)) (\<lambda>content.
                      if mfsend_ret < 0 then Inr (s2, [], -1) else Inr (s2, [content], 0))
               else Inr (s2, [], 0)))"

subsection \<open>listen\<close>

definition listen_accepted :: "token \<Rightarrow> msgd \<Rightarrow> (msgd \<times> int) res" where
  "listen_accepted t s =
     (case strtok '','' (tok_buf t) (tok_next t) of
        None \<Rightarrow> Inl NullPointer
      | Some t2 \<Rightarrow>
          (let created_id = strtol_int (tok t2)
           in Inr (s\<lparr>connect_queue := connect_queue s @ [created_id],
                    connect_sem := Suc (connect_sem s)\<rparr>, 0)))"

text \<open>
  A negative \<open>content_length\<close> turns into a huge \<open>size_t\<close>: \<open>malloc\<close> returns null and \<open>memcpy\<close>
  writes through it.
\<close>

definition listen_sock :: "int \<Rightarrow> token \<Rightarrow> msgd \<Rightarrow> (msgd \<times> int) res" where
  "listen_sock ret t s =
     (case strtok '','' (tok_buf t) (tok_next t) of
        None \<Rightarrow> Inl NullPointer
      | Some t2 \<Rightarrow>
          (let sid = strtol_int (tok t2)
           in rbind (id_length_of sid) (\<lambda>id_length.
                let content_length = ret - id_length - 6;
                    content_char = tok_start t2 + nat id_length + 1
                in if content_length < 0 then Inl NullPointer
                   else rbind (read_at content_char (nat content_length) (tok_buf t2)) (\<lambda>content.
                     if sem_map s sid = None then Inr (s, -1)
                     else rbind (push_message sid content s) (\<lambda>s1. Inr (s1, 0))))))"

definition listen_close :: "token \<Rightarrow> msgd \<Rightarrow> (msgd \<times> int) res" where
  "listen_close t s =
     (case strtok '','' (tok_buf t) (tok_next t) of
        None \<Rightarrow> Inl NullPointer
      | Some t2 \<Rightarrow>
          rbind (close (strtol_int (tok t2)) 1 (\<lambda>_. NUL) 0 s) (\<lambda>(s1, sent, r). Inr (s1, 0)))"

definition listen :: "(nat \<Rightarrow> char) \<Rightarrow> bytes option \<Rightarrow> msgd \<Rightarrow> (msgd \<times> int) res" where
  "listen stack received s =
     (if mfsockid s = -1 then Inr (s, -1)
      else case received of
        None \<Rightarrow> Inr (s, -1)
      | Some m \<Rightarrow>
          (let ret = int (min (length m) MAX_CHUNK)
           in case strtok '','' (fill m (stack_array MAX_CHUNK stack)) 0 of
                None \<Rightarrow> Inl NullPointer
              | Some t \<Rightarrow>
                  if tok t = ''create'' then Inr (s\<lparr>accept_sem := Suc (accept_sem s)\<rparr>, 0)
                  else if tok t = ''accepted'' then listen_accepted t s
                  else if tok t = ''sock'' then listen_sock ret t s
                  else if tok t = ''close'' then listen_close t s
                  else Inr (s, -1)))"

subsection \<open>connect\<close>

text \<open>
  Before the wait: the answer is the return value if the method is over, \<open>None\<close> if it now
  waits on \<open>connect_sem\<close>, holding \<open>id_lock\<close>.
\<close>

definition connect_request ::
  "(nat \<Rightarrow> char) \<Rightarrow> int \<Rightarrow> msgd \<Rightarrow> (msgd \<times> bytes list \<times> int option) res" where
  "connect_request stack mfsend_ret s =
     (if mfsockid s = -1 then Inr (s, [], Some (-1))
      else rbind (sprintf_buf ''create'' (stack_array BUFFER_SIZE stack)) (\<lambda>header.
        if mfsend_ret < 0 then Inr (s, [], Some (-1))
        else Inr (s\<lparr>id_lock := True\<rparr>, [header], None)))"

definition take_connect :: "msgd \<Rightarrow> msgd" where
  "take_connect s = s\<lparr>connect_sem := connect_sem s - 1\<rparr>"

definition pop_connect :: "msgd \<Rightarrow> (int \<times> msgd) res" where
  "pop_connect s =
     (case connect_queue s of
        [] \<Rightarrow> Inl EmptyContainer
      | x # xs \<Rightarrow> Inr (x, s\<lparr>connect_queue := xs\<rparr>))"

text \<open>After the wait, which took one unit of \<open>connect_sem\<close>.\<close>

definition connect_finish :: "msgd \<Rightarrow> (msgd \<times> int) res" where
  "connect_finish s =
     (let s1 = take_connect s
      in if stop s1 \<noteq> 0 then Inr (s1, -1)
         else rbind (pop_connect s1) (\<lambda>(newID, s2).
           Inr ((register_connection newID s2)\<lparr>id_lock := False\<rparr>, newID)))"

subsection \<open>accept\<close>

definition accept_enter :: "msgd \<Rightarrow> int option" where
  "accept_enter s = (if mfsockid s = -1 then Some (-1) else None)"

definition accept_wake :: "msgd \<Rightarrow> msgd \<times> int option" where
  "accept_wake s =
     (let s1 = s\<lparr>accept_sem := accept_sem s - 1\<rparr>
      in if stop s1 \<noteq> 0 then (s1, Some (-1)) else (s1, None))"

function skip_used :: "(int \<rightharpoonup> nat) \<Rightarrow> int \<Rightarrow> int res" where
  "skip_used m n =
     (if m n \<noteq> None
      then if in_int32 (n + 1) then skip_used m (n + 1) else Inl IntOverflow
      else Inr n)"
  by pat_completeness auto
termination
  by (relation "measure (\<lambda>(m, n). nat (2147483648 - n))") (auto simp: in_int32_def)

declare skip_used.simps [simp del]

text \<open>Takes \<open>id_lock\<close>, picks the id and answers the peer; \<open>id_lock\<close> stays held.\<close>

definition accept_respond ::
  "(nat \<Rightarrow> char) \<Rightarrow> int \<Rightarrow> msgd \<Rightarrow> (msgd \<times> bytes list) res" where
  "accept_respond stack mfsend_ret s =
     rbind (inc32 (mfsockid s)) (\<lambda>first. rbind (skip_used (sem_map s) first) (\<lambda>newID.
       rbind (sprintf_buf (''accepted,'' @ print_int newID @ '','')
                (stack_array BUFFER_SIZE stack)) (\<lambda>header.
         if mfsend_ret < 0 then Inl (Exit 1)
         else Inr (s\<lparr>mfsockid := newID, id_lock := True\<rparr>, [header]))))"

definition accept_register :: "msgd \<Rightarrow> msgd \<times> int" where
  "accept_register s = ((register_connection (mfsockid s) s)\<lparr>id_lock := False\<rparr>, mfsockid s)"

subsection \<open>send\<close>

text \<open>A negative size would reach \<open>memcpy\<close> as a huge \<open>size_t\<close>.\<close>

definition send ::
  "int \<Rightarrow> bytes \<Rightarrow> int \<Rightarrow> (nat \<Rightarrow> char) \<Rightarrow> int \<Rightarrow> msgd \<Rightarrow> (bytes list \<times> int) res" where
  "send sock buffer len stack mfsend_ret s =
     (if mfsockid s = -1 then Inr ([], -1)
      else if sem_map s sock = None then Inr ([], -1)
      else rbind (id_length_of sock) (\<lambda>id_length.
        if len < 0 then Inl OverRead
        else let content_length = len + id_length + 6
        in rbind (sprintf_buf (''sock,'' @ print_int sock @ '','')
                    (stack_array (nat content_length) stack)) (\<lambda>text.
             rbind (read_at 0 (nat len) buffer) (\<lambda>payload.
               rbind (write_at (6 + nat id_length) payload text) (\<lambda>content.
                 if mfsend_ret < 0 then Inr ([], -1) else Inr ([content], mfsend_ret))))))"

subsection \<open>recv\<close>

text \<open>Before the wait: \<open>Inl r\<close> returns \<open>r\<close>, \<open>Inr a\<close> waits on the semaphore at address \<open>a\<close>.\<close>

definition recv_enter :: "int \<Rightarrow> msgd \<Rightarrow> int + nat" where
  "recv_enter sock s =
     (if mfsockid s = -1 then Inl (-1)
      else case sem_map s sock of None \<Rightarrow> Inl (-1) | Some a \<Rightarrow> Inr a)"

text \<open>
  \<open>memcpy(buffer, recv_char, size)\<close> copies \<open>size\<close> bytes whatever the length of the message is;
  past its end it reads what lies behind it on the heap.
\<close>

definition copy_message :: "bytes \<Rightarrow> nat \<Rightarrow> (nat \<Rightarrow> char) \<Rightarrow> bytes" where
  "copy_message content len heap = take len (content @ stack_array len heap)"

definition recv_wake ::
  "int \<Rightarrow> nat \<Rightarrow> bytes \<Rightarrow> nat \<Rightarrow> (nat \<Rightarrow> char) \<Rightarrow> msgd \<Rightarrow> (msgd \<times> bytes \<times> int) res" where
  "recv_wake sock recv_sem buffer len heap s =
     (let s1 = sem_take recv_sem s
      in if status_map s1 sock = None \<or> status_map s1 sock = Some 0
         then Inr (s1\<lparr>status_map := (status_map s1)(sock := None)\<rparr>, buffer, -1)
         else if stop s1 \<noteq> 0 then Inr (s1, buffer, -1)
         else rbind (pop_message sock s1) (\<lambda>(recv_char, s2).
           rbind (write_at 0 (copy_message recv_char len heap) buffer) (\<lambda>buffer'.
             Inr (s2, buffer', 1))))"

lemmas md_op_defs [md_simps] = sem_post_def sem_take_def register_connection_def push_message_def
  pop_message_def take_connect_def pop_connect_def

end
