(* ===== verification/Floats.thy ===== *)
theory Floats
  imports Prelude
begin

text \<open>
  The little floating-point arithmetic whose rounding the matcher depends on, in exact integer
  arithmetic: rounding to a number of significant bits (nearest, ties to even), the
  single-precision product with \<open>0.8f\<close> of the ratio test, and the double-precision products
  with \<open>.015\<close> (server) and \<open>.02\<close> (Storm bolt) of the vote threshold.
\<close>

named_theorems round_simps "rounding of integers to significant bits"

subsection \<open>Rounding\<close>

text \<open>The nearest multiple of \<open>q\<close>, the even one when two are equally near.\<close>

definition round_to :: "nat \<Rightarrow> nat \<Rightarrow> nat" where
  "round_to q M =
     (let d = M div q; r = M mod q
      in if 2 * r < q \<or> (2 * r = q \<and> even d) then d * q else (d + 1) * q)"

text \<open>The weight of the last kept bit when \<open>M\<close> is rounded to \<open>p\<close> significant bits.\<close>

function round_unit :: "nat \<Rightarrow> nat \<Rightarrow> nat" where
  "round_unit p M = (if M < 2 ^ p then 1 else 2 * round_unit p (M div 2))"
  by pat_completeness auto
termination
proof (relation "measure snd")
  fix p M :: nat
  assume "\<not> M < 2 ^ p"
  moreover have "(0::nat) < 2 ^ p" by simp
  ultimately have "0 < M" by linarith
  then show "((p, M div 2), (p, M)) \<in> measure snd" by simp
qed simp

declare round_unit.simps [simp del]

definition round_bits :: "nat \<Rightarrow> nat \<Rightarrow> nat" where
  "round_bits p M = round_to (round_unit p M) M"

definition round_sbits :: "nat \<Rightarrow> int \<Rightarrow> int" where
  "round_sbits p z = sgn z * int (round_bits p (nat \<bar>z\<bar>))"

lemma round_to_dvd [round_simps]: "q dvd round_to q M"
  by (simp add: round_to_def Let_def)

lemma round_to_exact [round_simps]: "0 < q \<Longrightarrow> q dvd M \<Longrightarrow> round_to q M = M"
  by (auto simp: round_to_def Let_def)

lemma round_to_cases:
  obtains (down) "round_to q M = M div q * q" "2 * (M mod q) \<le> q"
  | (up) "round_to q M = M div q * q + q" "q \<le> 2 * (M mod q)"
  by (cases "2 * (M mod q) < q \<or> (2 * (M mod q) = q \<and> even (M div q))")
    (auto simp: round_to_def Let_def)

lemma round_to_near [round_simps]:
  assumes "0 < q"
  shows "2 * round_to q M \<le> 2 * M + q \<and> 2 * M \<le> 2 * round_to q M + q"
proof -
  have "M div q * q + M mod q = M" by simp
  moreover have "M mod q < q" using assms by simp
  ultimately show ?thesis by (cases rule: round_to_cases [where q = q and M = M]) linarith+
qed

text \<open>Rounding never crosses a multiple of the unit.\<close>

lemma round_to_le_mult [round_simps]:
  assumes "0 < q" and "q dvd B" and "M \<le> B"
  shows "round_to q M \<le> B"
proof -
  from assms(2) obtain b where b: "B = b * q" by (metis dvd_def mult.commute)
  show ?thesis
  proof (cases "M div q < b")
    case True
    then have "(M div q + 1) * q \<le> b * q" by (intro mult_le_mono1) simp
    then have "M div q * q + q \<le> b * q" by simp
    then show ?thesis unfolding b by (cases rule: round_to_cases [where q = q and M = M]) linarith+
  next
    case False
    then have "b * q \<le> M div q * q" by (intro mult_le_mono1) simp
    moreover have "M div q * q \<le> M" by (rule div_times_less_eq_dividend)
    ultimately have "M = B" using assms(3) b by linarith
    with assms show ?thesis by (simp add: round_to_exact)
  qed
qed

lemma round_to_ge_mult [round_simps]:
  assumes "0 < q" and "q dvd B" and "B \<le> M"
  shows "B \<le> round_to q M"
proof -
  from assms(2) obtain b where b: "B = b * q" by (metis dvd_def mult.commute)
  with assms have "b \<le> M div q" by (simp add: less_eq_div_iff_mult_less_eq)
  then have "b * q \<le> M div q * q" by (rule mult_le_mono1)
  then show ?thesis unfolding b by (cases rule: round_to_cases [where q = q and M = M]) linarith+
qed

text \<open>A value nearer to a multiple of the unit than half a unit rounds to it.\<close>

lemma round_to_eq_near:
  assumes "q dvd B" and "B \<le> M" and "2 * (M - B) < q"
  shows "round_to q M = B"
proof -
  from assms(1) obtain b where b: "B = b * q" by (metis dvd_def mult.commute)
  from assms have q: "0 < q" and "M - B < q" by simp_all
  moreover have "M = b * q + (M - B)" using assms(2) b by simp
  ultimately have "M div q = b" "M mod q = M - B"
    by (metis div_mult_self3 div_less add_0_right bot_nat_0.not_eq_extremum less_irrefl, metis mod_mult_self3 mod_less)
  with assms(3) b show ?thesis by (simp add: round_to_def)
qed

lemma round_unit_pow2 [round_simps]: "\<exists>e. round_unit p M = 2 ^ e"
proof (induction p M rule: round_unit.induct)
  case (1 p M)
  show ?case
  proof (cases "M < 2 ^ p")
    case True
    then show ?thesis by (subst round_unit.simps) (auto intro: exI [of _ 0])
  next
    case False
    with 1 obtain e where "round_unit p (M div 2) = 2 ^ e" by blast
    with False have "round_unit p M = 2 ^ Suc e" by (subst round_unit.simps) simp
    then show ?thesis by blast
  qed
qed

lemma round_unit_pos [simp, round_simps]: "0 < round_unit p M"
  using round_unit_pow2 [of p M] by auto

lemma round_unit_bounds [round_simps]:
  "M < 2 ^ p * round_unit p M \<and> (round_unit p M = 1 \<or> 2 ^ p * round_unit p M \<le> 2 * M)"
proof (induction p M rule: round_unit.induct)
  case (1 p M)
  show ?case
  proof (cases "M < 2 ^ p")
    case True
    then have "round_unit p M = 1" by (subst round_unit.simps) simp
    with True show ?thesis by simp
  next
    case False
    define u where "u = round_unit p (M div 2)"
    have u: "round_unit p M = 2 * u" using False by (subst round_unit.simps) (simp add: u_def)
    from 1 [OF False] have IH: "M div 2 < 2 ^ p * u" "u = 1 \<or> 2 ^ p * u \<le> 2 * (M div 2)"
      by (simp_all add: u_def)
    have m: "M = 2 * (M div 2) + M mod 2" "M mod 2 < 2" by simp_all
    have "M < 2 * (2 ^ p * u)" using IH(1) m by linarith
    moreover have "2 * (2 ^ p * u) \<le> 2 * M"
    proof (cases "u = 1")
      case True
      with False show ?thesis by simp
    next
      case False
      with IH(2) m show ?thesis by linarith
    qed
    ultimately show ?thesis by (simp add: u mult.left_commute)
  qed
qed

lemma round_unit_dvd_pow2:
  assumes "M < 2 ^ (p + k)"
  shows "round_unit p M dvd 2 ^ k"
proof -
  obtain e where e: "round_unit p M = 2 ^ e" using round_unit_pow2 by blast
  have "e \<le> k"
  proof (rule ccontr)
    assume "\<not> e \<le> k"
    then have ke: "Suc k \<le> e" by simp
    then have "round_unit p M \<noteq> 1" using e by simp
    with round_unit_bounds [of M p] e have upper: "2 ^ p * 2 ^ e \<le> 2 * M" by auto
    from ke have "(2::nat) ^ (p + Suc k) \<le> 2 ^ (p + e)"
      by (intro power_increasing) simp_all
    then have "2 ^ p * 2 ^ k * 2 \<le> (2::nat) ^ p * 2 ^ e" by (simp only: power_add power_Suc ac_simps)
    moreover have "M < 2 ^ p * 2 ^ k" using assms by (simp add: power_add)
    ultimately show False using upper by linarith
  qed
  then show ?thesis by (simp add: e le_imp_power_dvd)
qed

subsection \<open>Single precision: the ratio test\<close>

text \<open>
  A distance is a \<open>float\<close> that is not negative: \<open>Fin k\<close> is \<open>k * 2^-149\<close>, where \<open>k\<close> has at most
  24 significant bits. \<open>0.8f\<close> is 13421773 * 2^-24, so the exact product is
  \<open>k * 13421773 * 2^-173\<close>; it is rounded to 24 significant bits, but never finer than 2^-149.
\<close>

datatype f32 = Fin nat | Infty | NaN

definition f32_ok :: "f32 \<Rightarrow> bool" where
  "f32_ok x = (case x of Fin k \<Rightarrow> round_bits 24 k = k | _ \<Rightarrow> True)"

fun f32_less :: "f32 \<Rightarrow> f32 \<Rightarrow> bool" where
  "f32_less (Fin a) (Fin b) = (a < b)"
| "f32_less (Fin a) Infty = True"
| "f32_less _ _ = False"

fun mul_ratio :: "f32 \<Rightarrow> f32" where
  "mul_ratio (Fin k) =
     (let M = k * 13421773 in Fin (round_to (max (2 ^ 24) (round_unit 24 M)) M div 2 ^ 24))"
| "mul_ratio Infty = Infty"
| "mul_ratio NaN = NaN"

text \<open>Rounding is monotone enough that the product never exceeds its operand.\<close>

lemma round_bits_eq_dvd: "round_bits p k = k \<longleftrightarrow> round_unit p k dvd k"
  by (metis round_bits_def round_to_dvd round_to_exact round_unit_pos)

lemma round_unit_mono: "M \<le> N \<Longrightarrow> round_unit p M \<le> round_unit p N"
proof (induction p M arbitrary: N rule: round_unit.induct)
  case (1 p M)
  show ?case
  proof (cases "M < 2 ^ p")
    case True
    then have "round_unit p M = 1" by (subst round_unit.simps) simp
    then show ?thesis by (simp add: Suc_le_eq)
  next
    case False
    with "1.prems" have "\<not> N < 2 ^ p" by simp
    moreover have "round_unit p (M div 2) \<le> round_unit p (N div 2)"
      using 1 False by (simp add: div_le_mono)
    ultimately show ?thesis using False by (subst (1 2) round_unit.simps) simp
  qed
qed

lemma round_unit_double: "2 ^ p \<le> M \<Longrightarrow> M div 2 = k \<Longrightarrow> round_unit p M = 2 * round_unit p k"
  by (subst round_unit.simps) simp

lemma round_unit_mult_pow2_dvd: "round_unit p (k * 2 ^ n) dvd round_unit p k * 2 ^ n"
proof (induction n)
  case 0
  then show ?case by simp
next
  case (Suc n)
  show ?case
  proof (cases "k * 2 ^ Suc n < 2 ^ p")
    case True
    then have "round_unit p (k * 2 ^ Suc n) = 1" by (subst round_unit.simps) simp
    then show ?thesis by simp
  next
    case False
    then have "round_unit p (k * 2 ^ Suc n) = 2 * round_unit p (k * 2 ^ n)"
      by (subst round_unit.simps) simp
    with Suc show ?thesis by simp
  qed
qed

lemma round_unit_dvd_mono:
  assumes "M \<le> N"
  shows "round_unit p M dvd round_unit p N"
proof -
  obtain a b where ab: "round_unit p M = 2 ^ a" "round_unit p N = 2 ^ b"
    using round_unit_pow2 by metis
  with round_unit_mono [OF assms, of p] have "a \<le> b" by simp
  with ab show ?thesis by (simp add: le_imp_power_dvd)
qed

lemma mul_ratio_le:
  assumes "f32_ok (Fin k)" and "mul_ratio (Fin k) = Fin j"
  shows "j \<le> k"
proof -
  define M where "M = k * 13421773"
  define q where "q = max (2 ^ 24) (round_unit 24 M)"
  have MB: "M \<le> k * 2 ^ 24" by (simp add: M_def)
  have "round_unit 24 M dvd round_unit 24 (k * 2 ^ 24)" by (rule round_unit_dvd_mono [OF MB])
  also have "\<dots> dvd round_unit 24 k * 2 ^ 24" by (rule round_unit_mult_pow2_dvd)
  also have "\<dots> dvd k * 2 ^ 24"
    using assms(1) by (intro mult_dvd_mono) (simp_all add: f32_ok_def round_bits_eq_dvd)
  finally have u: "round_unit 24 M dvd k * 2 ^ 24" .
  have "q dvd k * 2 ^ 24" using u by (simp add: q_def max_def)
  from round_to_le_mult [OF _ this MB] have "round_to q M \<le> k * 2 ^ 24" by (simp add: q_def)
  then have "round_to q M div 2 ^ 24 \<le> k * 2 ^ 24 div 2 ^ 24" by (rule div_le_mono)
  then have "round_to q M div 2 ^ 24 \<le> k" by simp
  moreover have "j = round_to q M div 2 ^ 24"
    using assms(2) by (simp add: Let_def q_def M_def)
  ultimately show ?thesis by simp
qed

text \<open>A match that passes the ratio test is strictly nearer than the second neighbour.\<close>

lemma ratio_test_less:
  assumes "f32_ok d1" and "f32_less d0 (mul_ratio d1)"
  shows "f32_less d0 d1"
proof (cases d1)
  case (Fin k)
  with assms(2) obtain a where a: "d0 = Fin a" by (cases d0) (simp_all add: Let_def)
  obtain j where j: "mul_ratio (Fin k) = Fin j" by (simp add: Let_def)
  with assms a Fin have "a < j" by (simp del: mul_ratio.simps)
  moreover have "j \<le> k" using mul_ratio_le [of k j] assms(1) Fin j by blast
  ultimately show ?thesis using a Fin by simp
next
  case Infty
  with assms show ?thesis by simp
next
  case NaN
  with assms show ?thesis by (cases d0) simp_all
qed

subsection \<open>Double precision: the vote threshold\<close>

text \<open>
  \<open>.015\<close> is the double 1080863910568919 * 2^-56 and \<open>.02\<close> is 5764607523034235 * 2^-58. The
  product with an \<open>int\<close> is rounded to 53 bits and compared with another \<open>int\<close>.
\<close>

definition below_015 :: "int \<Rightarrow> int \<Rightarrow> bool" where
  "below_015 f cnt = (f * 2 ^ 56 < round_sbits 53 (1080863910568919 * cnt))"

definition below_02 :: "int \<Rightarrow> int \<Rightarrow> bool" where
  "below_02 f cnt = (f * 2 ^ 58 < round_sbits 53 (5764607523034235 * cnt))"

lemma round_sbits_nonneg: "0 \<le> z \<Longrightarrow> round_sbits p z = int (round_bits p (nat z))"
  by (cases "z = 0") (simp_all add: round_sbits_def round_bits_def round_to_exact)

lemma round_sbits_neg: "z < 0 \<Longrightarrow> round_sbits p z \<le> 0"
  by (simp add: round_sbits_def)

text \<open>An integer of at most 53 bits, scaled, against the rounded product.\<close>

lemma round_le_scaled:
  assumes "M \<le> f * 2 ^ k" and "M < 2 ^ (p + k)"
  shows "round_bits p M \<le> f * 2 ^ k"
proof -
  have "round_unit p M dvd f * 2 ^ k"
    using round_unit_dvd_pow2 [OF assms(2)] by (rule dvd_mult)
  from round_to_le_mult [OF round_unit_pos this assms(1)] show ?thesis
    by (simp add: round_bits_def)
qed

lemma round_gt_scaled:
  assumes "f * 2 ^ k + round_unit p M < M"
  shows "f * 2 ^ k < round_bits p M"
  using round_to_near [OF round_unit_pos, of p M M] assms by (simp add: round_bits_def)

lemma below_015_exact:
  assumes "0 \<le> f" and "in_int32 cnt"
  shows "below_015 f cnt \<longleftrightarrow> 200 * f < 3 * cnt"
proof (cases "cnt < 0")
  case True
  have "1080863910568919 * cnt < 0" using True by simp
  from round_sbits_neg [OF this, of 53] show ?thesis
    using True assms(1) by (simp add: below_015_def)
next
  case False
  define c where "c = nat cnt"
  define g where "g = nat f"
  define M where "M = 1080863910568919 * c"
  have cc: "cnt = int c" "f = int g" using False assms(1) by (simp_all add: c_def g_def)
  have c31: "c < 2 ^ 31" using assms(2) cc by (simp add: in_int32_def)
  have "1080863910568919 * cnt = int M" by (simp add: M_def cc)
  then have e: "below_015 f cnt \<longleftrightarrow> g * 2 ^ 56 < round_bits 53 M"
    by (simp add: below_015_def round_sbits_nonneg cc) (metis of_nat_less_iff of_nat_mult of_nat_numeral)
  have M2: "200 * M + 8 * c = 216172782113783808 * c" by (simp add: M_def)
  have Mb: "M < 2 ^ (53 + 28)" using c31 by (simp add: M_def)
  show ?thesis
  proof (cases "200 * g < 3 * c")
    case True
    from round_unit_dvd_pow2 [OF Mb] have u: "round_unit 53 M \<le> 2 ^ 28" by (rule dvd_imp_le) simp
    have "g * 2 ^ 56 + round_unit 53 M < M" using True M2 u c31 by simp
    from round_gt_scaled [OF this] True show ?thesis unfolding e by (simp add: cc)
  next
    case False
    have "M \<le> g * 2 ^ 56" using False M2 by simp
    moreover have "M < 2 ^ (53 + 56)" using Mb by simp
    ultimately have "round_bits 53 M \<le> g * 2 ^ 56" by (rule round_le_scaled)
    with False show ?thesis unfolding e by (simp add: cc)
  qed
qed

lemma below_02_exact:
  assumes "0 \<le> f" and "in_int32 cnt"
  shows "below_02 f cnt \<longleftrightarrow> 50 * f < cnt"
proof (cases "cnt < 0")
  case True
  have "5764607523034235 * cnt < 0" using True by simp
  from round_sbits_neg [OF this, of 53] show ?thesis
    using True assms(1) by (simp add: below_02_def)
next
  case False
  define c where "c = nat cnt"
  define g where "g = nat f"
  define M where "M = 5764607523034235 * c"
  have cc: "cnt = int c" "f = int g" using False assms(1) by (simp_all add: c_def g_def)
  have c31: "c < 2 ^ 31" using assms(2) cc by (simp add: in_int32_def)
  have "5764607523034235 * cnt = int M" by (simp add: M_def cc)
  then have e: "below_02 f cnt \<longleftrightarrow> g * 2 ^ 58 < round_bits 53 M"
    by (simp add: below_02_def round_sbits_nonneg cc) (metis of_nat_less_iff of_nat_mult of_nat_numeral)
  have M2: "50 * M = 288230376151711750 * c" by (simp add: M_def)
  have Mb: "M < 2 ^ (53 + 31)" using c31 by (simp add: M_def)
  show ?thesis
  proof (cases "50 * g < c")
    case True
    from round_unit_dvd_pow2 [OF Mb] have u: "round_unit 53 M \<le> 2 ^ 31" by (rule dvd_imp_le) simp
    have "g * 2 ^ 58 + round_unit 53 M < M" using True M2 u by simp
    from round_gt_scaled [OF this] True show ?thesis unfolding e by (simp add: cc)
  next
    case False
    have d: "round_unit 53 M dvd g * 2 ^ 58"
    proof -
      have "M < 2 ^ (53 + 58)" using Mb by simp
      from round_unit_dvd_pow2 [OF this] show ?thesis by (rule dvd_mult)
    qed
    have "round_bits 53 M \<le> g * 2 ^ 58"
    proof (cases "M \<le> g * 2 ^ 58")
      case True
      from round_to_le_mult [OF round_unit_pos d True] show ?thesis by (simp add: round_bits_def)
    next
      case big: False
      have "M < 2 ^ 53 * round_unit 53 M" using round_unit_bounds by blast
      then have "2 * (M - g * 2 ^ 58) < round_unit 53 M" using False M2 big by simp
      from round_to_eq_near [OF d _ this] big show ?thesis by (simp add: round_bits_def)
    qed
    with False show ?thesis unfolding e by (simp add: cc)
  qed
qed

end
