(* ===== verification/ImgVote.thy ===== *)
theory ImgVote
  imports Floats
begin

text \<open>
  The vote of \<open>ImgMatch::matchImg\<close>: every descriptor of the photograph whose nearest database
  descriptor passes the ratio test votes for the image that descriptor belongs to. The code
  keeps a list of (image, frequency) pairs, takes the largest frequency and the last pair
  that has it. The specification counts the accepted votes with \<open>count_list\<close>; the lemmas show
  that the list is that count, in order of first appearance.
\<close>

named_theorems vote_simps "the votes of the accepted descriptors"

subsection \<open>Code\<close>

text \<open>\<open>vector::at\<close>: the \<open>int\<close> converts to an unsigned index, so a negative one is out of range too.\<close>

definition vec_at :: "'a list \<Rightarrow> int \<Rightarrow> 'a res" where
  "vec_at xs i = (if 0 \<le> i \<and> nat i < length xs then Inr (xs ! nat i) else Inl OutOfRange)"

record ImgFreq =
  ImgIndex :: int
  Freq :: int

text \<open>A row of the search result: the nearest descriptor, its distance, and the second distance.\<close>

type_synonym knn_row = "int \<times> f32 \<times> f32"

definition ratio_ok :: "knn_row \<Rightarrow> bool" where
  "ratio_ok r = (case r of (i, d0, d1) \<Rightarrow> f32_less d0 (mul_ratio d1))"

definition add_vote :: "int \<Rightarrow> ImgFreq list \<Rightarrow> ImgFreq list" where
  "add_vote n vs =
     (let vs' = map (\<lambda>t. if ImgIndex t = n then t\<lparr>Freq := Freq t + 1\<rparr> else t) vs;
          findImgNum = list_ex (\<lambda>t. ImgIndex t = n) vs
      in if findImgNum then vs' else vs' @ [\<lparr>ImgIndex = n, Freq = 1\<rparr>])"

fun vote_rows :: "int list \<Rightarrow> knn_row list \<Rightarrow> ImgFreq list \<Rightarrow> ImgFreq list res" where
  "vote_rows index_img [] vs = Inr vs"
| "vote_rows index_img (r # rs) vs =
     (if ratio_ok r
      then rbind (vec_at index_img (fst r)) (\<lambda>n. vote_rows index_img rs (add_vote n vs))
      else vote_rows index_img rs vs)"

definition max_freq :: "ImgFreq list \<Rightarrow> int" where
  "max_freq vs = foldl (\<lambda>m t. if Freq t > m then Freq t else m) 1 vs"

definition pick_image :: "int \<Rightarrow> ImgFreq list \<Rightarrow> int \<Rightarrow> int" where
  "pick_image m vs k = foldl (\<lambda>k t. if Freq t = m then ImgIndex t else k) k vs"

subsection \<open>Specification\<close>

text \<open>The images voted for, one entry per accepted descriptor.\<close>

definition accepted :: "int list \<Rightarrow> knn_row list \<Rightarrow> int list" where
  "accepted index_img rows = map (\<lambda>r. index_img ! nat (fst r)) (filter ratio_ok rows)"

definition first_occs :: "'a list \<Rightarrow> 'a list" where
  "first_occs xs = rev (remdups (rev xs))"

definition votes_of :: "int list \<Rightarrow> ImgFreq list" where
  "votes_of acc = map (\<lambda>n. \<lparr>ImgIndex = n, Freq = int (count_list acc n)\<rparr>) (first_occs acc)"

definition is_winner :: "int list \<Rightarrow> int \<Rightarrow> bool" where
  "is_winner acc w \<longleftrightarrow> w \<in> set acc \<and> (\<forall>n \<in> set acc. count_list acc n \<le> count_list acc w)"

text \<open>The image the votes elect: the most frequent, the last to appear among equals; 0 without votes.\<close>

definition elected :: "int list \<Rightarrow> int" where
  "elected acc = (case filter (is_winner acc) (first_occs acc) of [] \<Rightarrow> 0 | ws \<Rightarrow> last ws)"

definition rows_in_range :: "int list \<Rightarrow> knn_row list \<Rightarrow> bool" where
  "rows_in_range index_img rows \<longleftrightarrow>
     list_all (\<lambda>r. ratio_ok r \<longrightarrow> 0 \<le> fst r \<and> nat (fst r) < length index_img) rows"

subsection \<open>The loop computes the count\<close>

lemma vec_at_Inr [simp]: "vec_at xs i = Inr y \<longleftrightarrow> 0 \<le> i \<and> nat i < length xs \<and> y = xs ! nat i"
  by (auto simp: vec_at_def)

lemma vec_at_Inl [simp]: "vec_at xs i = Inl e \<longleftrightarrow> \<not> (0 \<le> i \<and> nat i < length xs) \<and> e = OutOfRange"
  by (auto simp: vec_at_def)

lemma vec_at_ok [simp]: "0 \<le> i \<Longrightarrow> nat i < length xs \<Longrightarrow> vec_at xs i = Inr (xs ! nat i)"
  by (simp add: vec_at_def)

lemma vec_at_bad [simp]: "\<not> (0 \<le> i \<and> nat i < length xs) \<Longrightarrow> vec_at xs i = Inl OutOfRange"
  by (simp add: vec_at_def)

lemma first_occs_snoc [vote_simps]:
  "first_occs (xs @ [x]) = (if x \<in> set xs then first_occs xs else first_occs xs @ [x])"
  by (simp add: first_occs_def)

lemma set_first_occs [simp, vote_simps]: "set (first_occs xs) = set xs"
  by (simp add: first_occs_def)

lemma distinct_first_occs [simp, vote_simps]: "distinct (first_occs xs)"
  by (simp add: first_occs_def)

lemma first_occs_Nil [simp]: "first_occs xs = [] \<longleftrightarrow> xs = []"
  by (metis set_empty set_first_occs)

lemma votes_of_Nil [simp]: "votes_of [] = []"
  by (simp add: votes_of_def first_occs_def)

lemma add_vote_votes_of [vote_simps]: "add_vote n (votes_of acc) = votes_of (acc @ [n])"
proof -
  have m: "map (\<lambda>t. if ImgIndex t = n then t\<lparr>Freq := Freq t + 1\<rparr> else t) (votes_of acc) =
      map (\<lambda>m. \<lparr>ImgIndex = m, Freq = int (count_list (acc @ [n]) m)\<rparr>) (first_occs acc)"
    by (simp add: votes_of_def)
  have e: "list_ex (\<lambda>t. ImgIndex t = n) (votes_of acc) \<longleftrightarrow> n \<in> set acc"
    by (auto simp: votes_of_def list_ex_iff)
  show ?thesis
  proof (cases "n \<in> set acc")
    case True
    then show ?thesis unfolding add_vote_def Let_def m e by (simp add: votes_of_def first_occs_snoc)
  next
    case False
    then show ?thesis unfolding add_vote_def Let_def m e
      by (simp add: votes_of_def first_occs_snoc count_notin)
  qed
qed

lemma vote_rows_accepted:
  "rows_in_range index_img rows \<Longrightarrow>
     vote_rows index_img rows (votes_of acc) = Inr (votes_of (acc @ accepted index_img rows))"
proof (induction rows arbitrary: acc)
  case Nil
  then show ?case by (simp add: accepted_def)
next
  case (Cons r rows)
  from Cons.prems have rr: "rows_in_range index_img rows" by (simp add: rows_in_range_def)
  show ?case
  proof (cases "ratio_ok r")
    case True
    with Cons.prems have "0 \<le> fst r" "nat (fst r) < length index_img"
      by (simp_all add: rows_in_range_def)
    with True Cons.IH [OF rr, of "acc @ [index_img ! nat (fst r)]"] show ?thesis
      by (simp add: add_vote_votes_of accepted_def)
  next
    case False
    with Cons.IH [OF rr] show ?thesis by (simp add: accepted_def)
  qed
qed

text \<open>One accepted row with an index outside the table is enough to fault.\<close>

lemma vote_rows_fault:
  "\<not> rows_in_range index_img rows \<Longrightarrow> vote_rows index_img rows vs = Inl OutOfRange"
proof (induction rows arbitrary: vs)
  case Nil
  then show ?case by (simp add: rows_in_range_def)
next
  case (Cons r rows)
  show ?case
  proof (cases "ratio_ok r \<and> \<not> (0 \<le> fst r \<and> nat (fst r) < length index_img)")
    case True
    then have "vec_at index_img (fst r) = Inl OutOfRange" by simp
    with True show ?thesis by (simp only: vote_rows.simps if_True rbind_Inl)
  next
    case False
    then have "\<not> rows_in_range index_img rows"
      using Cons.prems by (auto simp: rows_in_range_def)
    from Cons.IH [OF this] False show ?thesis by auto
  qed
qed

subsection \<open>Maximum and choice\<close>

lemma foldl_max_ge:
  fixes m :: int
  shows "m \<le> foldl (\<lambda>m t. if f t > m then f t else m) m vs \<and>
   (\<forall>t \<in> set vs. f t \<le> foldl (\<lambda>m t. if f t > m then f t else m) m vs) \<and>
   (foldl (\<lambda>m t. if f t > m then f t else m) m vs \<in> insert m (f ` set vs))"
proof (induction vs arbitrary: m)
  case Nil
  then show ?case by simp
next
  case (Cons a vs)
  from Cons [of "if f a > m then f a else m"] show ?case by auto
qed

lemma max_freq_votes [vote_simps]:
  assumes "acc \<noteq> []"
  shows "\<exists>w \<in> set acc. is_winner acc w \<and> max_freq (votes_of acc) = int (count_list acc w)"
proof -
  have S: "Freq ` set (votes_of acc) = (\<lambda>n. int (count_list acc n)) ` set acc"
    by (simp add: votes_of_def image_image)
  have pos: "n \<in> set acc \<Longrightarrow> 1 \<le> int (count_list acc n)" for n
    by (simp add: count_list_0_iff Suc_le_eq neq0_conv [symmetric])
  have F: "1 \<le> max_freq (votes_of acc)" "\<forall>t \<in> set (votes_of acc). Freq t \<le> max_freq (votes_of acc)"
    "max_freq (votes_of acc) \<in> insert 1 (Freq ` set (votes_of acc))"
    using foldl_max_ge [of 1 Freq "votes_of acc"] by (simp_all add: max_freq_def)
  from F(2) have le: "\<forall>n \<in> set acc. int (count_list acc n) \<le> max_freq (votes_of acc)"
    by (auto simp: votes_of_def)
  have "max_freq (votes_of acc) \<in> Freq ` set (votes_of acc)"
  proof (cases "max_freq (votes_of acc) = 1")
    case True
    obtain n where "n \<in> set acc" using assms by (cases acc) auto
    with pos [of n] le True have "int (count_list acc n) = 1" by fastforce
    with \<open>n \<in> set acc\<close> True show ?thesis unfolding S by force
  next
    case False
    with F(3) show ?thesis by simp
  qed
  then obtain w where w: "w \<in> set acc" "max_freq (votes_of acc) = int (count_list acc w)"
    unfolding S by blast
  moreover have "is_winner acc w"
    using le w by (simp add: is_winner_def)
  ultimately show ?thesis by blast
qed

lemma pick_image_last:
  "pick_image m vs k = (case filter (\<lambda>t. Freq t = m) vs of [] \<Rightarrow> k | ts \<Rightarrow> ImgIndex (last ts))"
proof (induction vs arbitrary: k)
  case Nil
  then show ?case by (simp add: pick_image_def)
next
  case (Cons a vs)
  have "pick_image m (a # vs) k = pick_image m vs (if Freq a = m then ImgIndex a else k)"
    by (simp add: pick_image_def)
  with Cons show ?case by (auto split: list.splits)
qed

lemma pick_image_Nil [simp]: "pick_image m [] k = k"
  by (simp add: pick_image_def)

text \<open>Refinement: the two loops over the list of pairs elect the image the specification elects.\<close>

lemma pick_image_elected:
  "pick_image (max_freq (votes_of acc)) (votes_of acc) 0 = elected acc"
proof (cases "acc = []")
  case True
  then show ?thesis by (simp add: pick_image_def elected_def first_occs_def)
next
  case False
  from max_freq_votes [OF False] obtain w where
    w: "w \<in> set acc" "is_winner acc w" "max_freq (votes_of acc) = int (count_list acc w)" by blast
  have W: "is_winner acc n \<longleftrightarrow> count_list acc n = count_list acc w" if "n \<in> set acc" for n
    using w that by (auto simp: is_winner_def intro: le_antisym)
  have fc: "filter (\<lambda>n. count_list acc n = count_list acc w) (first_occs acc) =
      filter (is_winner acc) (first_occs acc)"
    by (intro filter_cong) (simp_all add: W)
  have "filter (\<lambda>t. Freq t = int (count_list acc w)) (votes_of acc) =
      map (\<lambda>n. \<lparr>ImgIndex = n, Freq = int (count_list acc n)\<rparr>) (filter (is_winner acc) (first_occs acc))"
    unfolding votes_of_def filter_map by (simp add: comp_def fc)
  then show ?thesis
    unfolding pick_image_last elected_def w(3)
    by (auto split: list.splits simp: last_map)
qed

lemma elected_Nil [simp]: "elected [] = 0"
  by (simp add: elected_def first_occs_def)

lemma elected_winner [vote_simps]:
  assumes "acc \<noteq> []"
  shows "is_winner acc (elected acc)"
proof -
  from max_freq_votes [OF assms] obtain w where "w \<in> set acc" "is_winner acc w" by blast
  then have "filter (is_winner acc) (first_occs acc) \<noteq> []" by (auto simp: filter_empty_conv)
  moreover from this have "last (filter (is_winner acc) (first_occs acc)) \<in>
      set (filter (is_winner acc) (first_occs acc))" by (rule last_in_set)
  ultimately show ?thesis by (auto simp: elected_def split: list.splits)
qed

lemma max_freq_elected [vote_simps]:
  "acc \<noteq> [] \<Longrightarrow> max_freq (votes_of acc) = int (count_list acc (elected acc))"
  using max_freq_votes [of acc] elected_winner [of acc] unfolding is_winner_def
  by (metis le_antisym)

lemma elected_in_accepted: "acc \<noteq> [] \<Longrightarrow> elected acc \<in> set acc"
  using elected_winner [of acc] by (simp add: is_winner_def)

lemma pick_image_count:
  "acc \<noteq> [] \<Longrightarrow> pick_image (int (count_list acc (elected acc))) (votes_of acc) 0 = elected acc"
  using pick_image_elected [of acc] by (simp add: max_freq_elected)

lemmas election = pick_image_elected pick_image_count max_freq_elected

end
