(* ===== verification/ImgMatch.thy ===== *)
theory ImgMatch
  imports ImgVote CLib
begin

text \<open>
  The class \<open>ImgMatch\<close> (\<open>src/server/ImgMatch.cpp\<close>) and its copy in the Storm bolt. The static
  members, which every thread of the server shares, are the record \<open>img_db\<close>; one object is the
  record \<open>img_match\<close>. OpenCV is outside the repository: reading an image, computing its
  SURF key points and descriptors, the nearest-neighbour search, the descriptor matcher and
  the homography are arguments of the operations that call them.
\<close>

subsection \<open>State\<close>

record 'd img_db =
  size_DB :: int
  index_IMG :: "int list"
  dscCnt_IMG :: "int list"
  featureCluster :: "'d list"
  flannIndex :: "'d list option"
  minHessian :: int
  imgInfoAdd :: string
  lastIndex :: int
  imgCount :: int

record ('img, 'kp, 'd, 'f) img_match =
  matchedImgIndex :: int
  matchedLocation :: "'f list"
  srcImg :: "'img option"
  keyPoints1 :: "'kp list"
  keyPoints2 :: "'kp list"
  despSRC :: "'d list"

text \<open>What the program sees of the disk: text files, and descriptor matrices in YAML files.\<close>

record 'd disk =
  text_files :: "string \<Rightarrow> string option"
  yml_files :: "string \<Rightarrow> 'd list option"

definition init_statics :: "'d img_db" where
  "init_statics = \<lparr>size_DB = 0, index_IMG = [], dscCnt_IMG = [], featureCluster = [], flannIndex = None,
     minHessian = 1500, imgInfoAdd = [], lastIndex = 0, imgCount = 0\<rparr>"

text \<open>The constructor leaves \<open>matchedImgIndex\<close> unset (\<open>junk\<close>) and resets the shared threshold.\<close>

definition new_ImgMatch :: "int \<Rightarrow> 'd img_db \<Rightarrow> ('img, 'kp, 'd, 'f) img_match \<times> 'd img_db" where
  "new_ImgMatch junk db =
     (\<lparr>matchedImgIndex = junk, matchedLocation = [], srcImg = None, keyPoints1 = [],
       keyPoints2 = [], despSRC = []\<rparr>, db\<lparr>minHessian := 1500\<rparr>)"

subsection \<open>Matching a photograph\<close>

definition matchImg ::
  "(string \<Rightarrow> 'img option) \<Rightarrow> (int \<Rightarrow> 'img \<Rightarrow> 'kp list \<times> 'd list) \<Rightarrow>
   ('d list option \<Rightarrow> 'd list \<Rightarrow> knn_row list) \<Rightarrow> string \<Rightarrow> 'd img_db \<Rightarrow>
   ('img, 'kp, 'd, 'f) img_match \<Rightarrow> ('img, 'kp, 'd, 'f) img_match res" where
  "matchImg imread surf knnSearch srcImgAdd db im =
     (case imread srcImgAdd of
        None \<Rightarrow> Inr (im\<lparr>srcImg := None, matchedImgIndex := 0\<rparr>)
      | Some img \<Rightarrow>
          (let (kps, desp) = surf (minHessian db) img;
               im0 = im\<lparr>srcImg := Some img, matchedImgIndex := 0, keyPoints1 := kps, despSRC := desp\<rparr>
           in if desp = [] then Inr im0
              else rbind (vote_rows (index_IMG db) (knnSearch (flannIndex db) desp) []) (\<lambda>imgFreq.
                (let maxFreq = max_freq imgFreq;
                     idx = pick_image maxFreq imgFreq 0
                 in if idx = 0 then Inr im0
                    else if \<not> in_int32 (idx - 1) then Inl IntOverflow
                    else rbind (vec_at (dscCnt_IMG db) (idx - 1)) (\<lambda>cnt.
                      if below_015 maxFreq cnt then Inr im0
                      else Inr (im0\<lparr>matchedImgIndex := idx\<rparr>))))))"

definition getMatchedImgIndex :: "('img, 'kp, 'd, 'f) img_match \<Rightarrow> int" where
  "getMatchedImgIndex im = matchedImgIndex im"

definition set_minHessian :: "int \<Rightarrow> 'd img_db \<Rightarrow> 'd img_db" where
  "set_minHessian m db = (if m > 0 then db\<lparr>minHessian := m\<rparr> else db)"

definition set_dbSize :: "int \<Rightarrow> 'd img_db \<Rightarrow> 'd img_db" where
  "set_dbSize s db = (if s > 0 then db\<lparr>size_DB := s\<rparr> else db)"

text \<open>
  The bolt's \<open>matchImg\<close> decodes the image from a byte array and answers with the reply text.
  On an undecodable image it returns \<open>NULL\<close> as a \<open>std::string\<close>.
\<close>

definition matchImg_storm ::
  "(bytes \<Rightarrow> 'img option) \<Rightarrow> (int \<Rightarrow> 'img \<Rightarrow> 'kp list \<times> 'd list) \<Rightarrow>
   ('d list option \<Rightarrow> 'd list \<Rightarrow> knn_row list) \<Rightarrow> bytes \<Rightarrow> int \<Rightarrow> 'd img_db \<Rightarrow>
   ('img, 'kp, 'd, 'f) img_match \<Rightarrow> (string \<times> ('img, 'kp, 'd, 'f) img_match) res" where
  "matchImg_storm imdecode surf knnSearch img sz db im =
     rbind (read_at 0 (nat sz) img) (\<lambda>jpgbytes.
       case imdecode jpgbytes of
         None \<Rightarrow> Inl NullPointer
       | Some dec \<Rightarrow>
           (let (kps, desp) = surf (minHessian db) dec;
                im0 = im\<lparr>srcImg := Some dec, matchedImgIndex := 0, keyPoints1 := kps, despSRC := desp\<rparr>
            in if desp = [] then Inr (''0,0,0,0,0,0,0,0,0,'', im0)
               else rbind (vote_rows (index_IMG db) (knnSearch (flannIndex db) desp) []) (\<lambda>imgFreq.
                 (let maxFreq = max_freq imgFreq;
                      idx = pick_image maxFreq imgFreq 0;
                      im1 = im0\<lparr>matchedImgIndex := idx\<rparr>
                  in if idx = 0 then Inr (print_int idx @ '',0,0,0,0,0,0,0,0,'', im1)
                     else if \<not> in_int32 (idx - 1) then Inl IntOverflow
                     else rbind (vec_at (dscCnt_IMG db) (idx - 1)) (\<lambda>cnt.
                       if below_02 maxFreq cnt then Inr (''0,0,0,0,0,0,0,0,0,'', im0)
                       else Inr (print_int idx @ '',0,0,0,0,0,0,0,0,'', im1))))))"

subsection \<open>Locating the object\<close>

record DMatch =
  queryIdx :: int
  trainIdx :: int
  distance :: f32

text \<open>Single-precision arithmetic, in which nothing below depends on the rounding.\<close>

record 'f float_ops =
  f_add :: "'f \<Rightarrow> 'f \<Rightarrow> 'f"
  f_sub :: "'f \<Rightarrow> 'f \<Rightarrow> 'f"
  f_mul :: "'f \<Rightarrow> 'f \<Rightarrow> 'f"
  f_half :: "'f \<Rightarrow> 'f"
  f_sqrt :: "'f \<Rightarrow> 'f"

text \<open>
  The least distance starts at 100; three times it is exact in double precision. The loops
  index \<open>matches\<close> up to the number of descriptors of the database image.
\<close>

definition min_dist :: "DMatch list \<Rightarrow> f32" where
  "min_dist ms = foldl (\<lambda>m d. if f32_less (distance d) m then distance d else m) (Fin (100 * 2 ^ 149)) ms"

fun f32_triple :: "f32 \<Rightarrow> f32" where
  "f32_triple (Fin k) = Fin (3 * k)"
| "f32_triple x = x"

definition good_matches :: "DMatch list \<Rightarrow> DMatch list" where
  "good_matches ms = filter (\<lambda>d. f32_less (distance d) (f32_triple (min_dist ms))) ms"

definition elem_at :: "'a list \<Rightarrow> int \<Rightarrow> 'a res" where
  "elem_at xs i = (if 0 \<le> i \<and> nat i < length xs then Inr (xs ! nat i) else Inl OverRead)"

fun pair_points :: "'kp list \<Rightarrow> 'kp list \<Rightarrow> DMatch list \<Rightarrow> ('kp list \<times> 'kp list) res" where
  "pair_points kp2 kp1 [] = Inr ([], [])"
| "pair_points kp2 kp1 (m # ms) =
     rbind (elem_at kp2 (queryIdx m)) (\<lambda>obj.
       rbind (elem_at kp1 (trainIdx m)) (\<lambda>scene.
         rbind (pair_points kp2 kp1 ms) (\<lambda>(objs, scenes). Inr (obj # objs, scene # scenes))))"

definition location_of :: "'f float_ops \<Rightarrow> ('f \<times> 'f) list \<Rightarrow> 'f list" where
  "location_of fo cs =
     (case cs of
        [(x0, y0), (x1, y1), (x2, y2), (x3, y3)] \<Rightarrow>
          (let w = f_half fo (f_sub fo x1 x0); h = f_half fo (f_sub fo y3 y0)
           in [x0, y0, x1, y1, x2, y2, x3, y3, f_add fo x0 w, f_add fo y0 h,
               f_sqrt fo (f_add fo (f_mul fo w w) (f_mul fo h h))])
      | _ \<Rightarrow> [])"

definition calLocation ::
  "(string \<Rightarrow> 'img option) \<Rightarrow> (int \<Rightarrow> 'img option \<Rightarrow> 'kp list \<times> 'd list) \<Rightarrow>
   ('d list \<Rightarrow> 'd list \<Rightarrow> DMatch list) \<Rightarrow> ('kp list \<Rightarrow> 'kp list \<Rightarrow> 'h) \<Rightarrow>
   ('img option \<Rightarrow> 'h \<Rightarrow> ('f \<times> 'f) list) \<Rightarrow> 'f float_ops \<Rightarrow> 'd img_db \<Rightarrow>
   ('img, 'kp, 'd, 'f) img_match \<Rightarrow> ('f list \<times> ('img, 'kp, 'd, 'f) img_match) res" where
  "calLocation imread surf match findHomography corners fo db im =
     (if matchedImgIndex im = 0 then Inr (matchedLocation im, im)
      else
        (let mimg = imread (''/demo/img/'' @ print_int (matchedImgIndex im) @ ''.jpg'');
             (kps, despDB) = surf (minHessian db) mimg;
             im1 = im\<lparr>keyPoints2 := kps\<rparr>;
             matches = match despDB (despSRC im)
         in if length matches < length despDB then Inl OverRead
            else
              (let good = good_matches (take (length despDB) matches)
               in if length good < 4 then Inr (matchedLocation im, im1)
                  else rbind (pair_points kps (keyPoints1 im) good) (\<lambda>(obj, scene).
                    (let kept = (if 8 \<le> length (matchedLocation im) then [] else matchedLocation im);
                         loc = kept @ location_of fo (corners mimg (findHomography obj scene))
                     in Inr (loc, im1\<lparr>matchedLocation := loc\<rparr>))))))"

definition clearLocation :: "('img, 'kp, 'd, 'f) img_match \<Rightarrow> ('img, 'kp, 'd, 'f) img_match" where
  "clearLocation im = im\<lparr>matchedLocation := []\<rparr>"

text \<open>The drawing is a sequence of line segments between pairs of coordinates read with \<open>at\<close>.\<close>

definition locateDrawRect ::
  "'f list \<Rightarrow> ('img, 'kp, 'd, 'f) img_match \<Rightarrow>
   ((('f \<times> 'f) \<times> ('f \<times> 'f)) list \<times> ('img, 'kp, 'd, 'f) img_match) res" where
  "locateDrawRect loc im =
     (if matchedImgIndex im = 0 then Inr ([], im)
      else rbind (vec_at loc 0) (\<lambda>ax. rbind (vec_at loc 1) (\<lambda>ay.
        rbind (vec_at loc 2) (\<lambda>bx. rbind (vec_at loc 3) (\<lambda>by'.
        rbind (vec_at loc 4) (\<lambda>cx. rbind (vec_at loc 5) (\<lambda>cy.
        rbind (vec_at loc 6) (\<lambda>dx. rbind (vec_at loc 7) (\<lambda>dy.
          Inr ([((ax, ay), (bx, by')), ((bx, by'), (cx, cy)), ((cx, cy), (dx, dy)), ((dx, dy), (ax, ay))],
               clearLocation im))))))))))"

definition locateDrawCirle :: "'f list \<Rightarrow> ('f \<times> 'f \<times> 'f) res" where
  "locateDrawCirle loc =
     rbind (vec_at loc 8) (\<lambda>x. rbind (vec_at loc 9) (\<lambda>y. rbind (vec_at loc 10) (\<lambda>r. Inr (x, y, r))))"

end
