(* ===== verification/ImgDB.thy ===== *)
theory ImgDB
  imports ImgMatch
begin

text \<open>
  The image database of \<open>ImgMatch\<close>: training (\<open>init_DB\<close>) computes the descriptors of every
  image and writes two text tables and the descriptor matrix; the server loads them
  (\<open>init_matchImg\<close>). The info texts of the images are files of their own (\<open>getInfo\<close>). Text
  files are strings on the model's disk; writes to it succeed.
\<close>

named_theorems db_simps "training and loading the database"

abbreviation NL :: char where "NL \<equiv> CHR 0x0A"

subsection \<open>Reading text files\<close>

text \<open>\<open>while (inFile >> t)\<close>: integers between white space, up to the first that is not one.\<close>

function read_ints :: "string \<Rightarrow> int list" where
  "read_ints s =
     (let s1 = dropWhile is_space s;
          neg = (s1 \<noteq> [] \<and> hd s1 = CHR ''-'');
          s2 = (if s1 \<noteq> [] \<and> (hd s1 = CHR ''-'' \<or> hd s1 = CHR ''+'') then tl s1 else s1);
          ds = takeWhile is_digit s2;
          v = (if neg then - int (digits_val ds) else int (digits_val ds))
      in if ds = [] \<or> \<not> in_int32 v then [] else v # read_ints (dropWhile is_digit s2))"
  by pat_completeness auto
termination
proof (relation "measure length")
  fix s s1 s2 ds :: string and neg v
  assume d: "s1 = dropWhile is_space s"
    "s2 = (if s1 \<noteq> [] \<and> (hd s1 = CHR ''-'' \<or> hd s1 = CHR ''+'') then tl s1 else s1)"
    "ds = takeWhile is_digit s2" "\<not> (ds = [] \<or> \<not> in_int32 v)"
  have "length s2 \<le> length s1" using d(2) by simp
  also have "\<dots> \<le> length s" using d(1) by (simp add: length_dropWhile_le)
  finally have "length s2 \<le> length s" .
  moreover have "length s2 = length ds + length (dropWhile is_digit s2)"
    using d(3) by (metis length_append takeWhile_dropWhile_id)
  moreover have "0 < length ds" using d(4) by simp
  ultimately have "length (dropWhile is_digit s2) < length s" by linarith
  then show "(dropWhile is_digit s2, s) \<in> measure length" by simp
qed simp

declare read_ints.simps [simp del]

text \<open>\<open>while (getline(file, line))\<close>: the lines; a last newline starts no further line.\<close>

function lines_of :: "string \<Rightarrow> string list" where
  "lines_of s =
     (if s = [] then []
      else takeWhile (\<lambda>c. c \<noteq> NL) s # lines_of (tl (dropWhile (\<lambda>c. c \<noteq> NL) s)))"
  by pat_completeness auto
termination
proof (relation "measure length")
  fix s :: string
  assume "s \<noteq> []"
  then show "(tl (dropWhile (\<lambda>c. c \<noteq> NL) s), s) \<in> measure length"
    by (cases s) (auto simp: less_Suc_eq_le length_dropWhile_le intro: le_trans [OF diff_le_self])
qed simp

declare lines_of.simps [simp del]

text \<open>\<open>getInfo()\<close> and \<open>getInfo(int)\<close>: the last line of the file of the image, \<open>""\<close> without a file.\<close>

definition getInfo_index :: "'d disk \<Rightarrow> int \<Rightarrow> string" where
  "getInfo_index dk index =
     (case text_files dk (''/demo/info/'' @ print_int index @ ''.txt'') of
        None \<Rightarrow> []
      | Some s \<Rightarrow> (case lines_of s of [] \<Rightarrow> [] | ls \<Rightarrow> last ls))"

definition getInfo :: "'d disk \<Rightarrow> ('img, 'kp, 'd, 'f) img_match \<Rightarrow> string" where
  "getInfo dk im = getInfo_index dk (matchedImgIndex im)"

text \<open>\<open>getMatchedImgInfo\<close> prints the words of \<open>INFO_<n>.txt\<close>, where \<open>n\<close> is half the index, rounded up.\<close>

function words_of :: "string \<Rightarrow> string list" where
  "words_of s =
     (let s1 = dropWhile is_space s
      in if s1 = [] then []
         else takeWhile (\<lambda>c. \<not> is_space c) s1 # words_of (dropWhile (\<lambda>c. \<not> is_space c) s1))"
  by pat_completeness auto
termination
proof (relation "measure length")
  fix s s1 :: string
  assume d: "s1 = dropWhile is_space s" "s1 \<noteq> []"
  from d(2) obtain c t where s1: "s1 = c # t" by (meson neq_Nil_conv)
  have "\<not> is_space c" using d(1) s1 by (metis dropWhile_eq_Cons_conv)
  then have "length (dropWhile (\<lambda>c. \<not> is_space c) s1) \<le> length t"
    by (simp add: s1 length_dropWhile_le)
  also have "\<dots> < length s1" by (simp add: s1)
  also have "\<dots> \<le> length s" using d(1) by (simp add: length_dropWhile_le)
  finally show "(dropWhile (\<lambda>c. \<not> is_space c) s1, s) \<in> measure length" by simp
qed simp

declare words_of.simps [simp del]

definition getMatchedImgInfo :: "'d disk \<Rightarrow> 'd img_db \<Rightarrow> ('img, 'kp, 'd, 'f) img_match \<Rightarrow> string" where
  "getMatchedImgInfo dk db im =
     (let index = - ((- matchedImgIndex im) div 2)
      in ''matchedImgIndex is: '' @ print_int (matchedImgIndex im) @ [NL] @
         ''info index is: '' @ print_int index @
         (case text_files dk (imgInfoAdd db @ ''INFO_'' @ print_int index @ ''.txt'') of
            None \<Rightarrow> [] | Some s \<Rightarrow> concat (words_of s)))"

subsection \<open>Training\<close>

text \<open>The first loop, which stops at an image it cannot read (second component \<open>False\<close>).\<close>

fun scan_DB ::
  "(string \<Rightarrow> 'img option) \<Rightarrow> (int \<Rightarrow> 'img \<Rightarrow> 'kp list \<times> 'd list) \<Rightarrow> string \<Rightarrow> int list \<Rightarrow>
   'd img_db \<Rightarrow> 'd img_db \<times> bool" where
  "scan_DB imread surf add_DB [] db = (db, True)"
| "scan_DB imread surf add_DB (i # is') db =
     (case imread (add_DB @ print_int i @ ''.jpg'') of
        None \<Rightarrow> (db, False)
      | Some img \<Rightarrow>
          (let (kps, desp) = surf 2500 img
           in scan_DB imread surf add_DB is'
                (db\<lparr>featureCluster := featureCluster db @ desp,
                    index_IMG := index_IMG db @ replicate (length desp) i\<rparr>)))"

text \<open>
  The counting loop works on \<open>lastIndex\<close>, \<open>imgCount\<close> and \<open>dscCnt_IMG\<close>. Its inner condition is the
  assignment \<open>t = lastIndex + 1\<close>, which overwrites the element of \<open>index_IMG\<close> it looks at and is
  true unless the new value is 0.
\<close>

type_synonym count_state = "int \<times> int \<times> int list"

fun count_step :: "int \<Rightarrow> count_state \<Rightarrow> (int \<times> count_state) res" where
  "count_step t (li, cnt, ds) =
     (if t \<noteq> li
      then (let t' = li + 1
            in if t' \<noteq> 0
               then (if cnt \<noteq> 0 \<and> \<not> (1 \<le> cnt \<and> cnt \<le> int (length ds)) then Inl OutOfRange
                     else Inr (t', li + 1, cnt + 1, ds @ [1]))
               else Inr (t', li + 2, cnt + 2, ds @ [0, 1]))
      else rbind (vec_at ds (t - 1)) (\<lambda>c. Inr (t, li, cnt, ds[nat (t - 1) := c + 1])))"

declare count_step.simps [simp del]

fun count_loop :: "int list \<Rightarrow> count_state \<Rightarrow> (int list \<times> count_state) res" where
  "count_loop [] st = Inr ([], st)"
| "count_loop (t # ts) st =
     rbind (count_step t st) (\<lambda>(t', st'). rbind (count_loop ts st') (\<lambda>(ts', st''). Inr (t' # ts', st'')))"

definition write_ints :: "int list \<Rightarrow> string" where
  "write_ints xs = concat (map (\<lambda>t. print_int t @ [NL]) xs)"

definition init_DB ::
  "(string \<Rightarrow> 'img option) \<Rightarrow> (int \<Rightarrow> 'img \<Rightarrow> 'kp list \<times> 'd list) \<Rightarrow> int \<Rightarrow> string \<Rightarrow> string \<Rightarrow>
   string \<Rightarrow> 'd img_db \<Rightarrow> 'd disk \<Rightarrow> ('d img_db \<times> 'd disk) res" where
  "init_DB imread surf sz add_DB indexAdd clusterAdd db dk =
     (let (db1, complete) = scan_DB imread surf add_DB [1..sz] (set_dbSize sz db)
      in if \<not> complete then Inr (db1, dk)
         else rbind (count_loop (index_IMG db1) (lastIndex db1, imgCount db1, dscCnt_IMG db1))
           (\<lambda>(idx, li, cnt, ds).
             Inr (db1\<lparr>index_IMG := idx, lastIndex := li, imgCount := cnt, dscCnt_IMG := ds\<rparr>,
                  dk\<lparr>text_files := (text_files dk)(indexAdd \<mapsto> write_ints (index_IMG db1),
                                                 ''indexDscNo'' \<mapsto> write_ints ds),
                     yml_files := (yml_files dk)(clusterAdd \<mapsto> featureCluster db1)\<rparr>)))"

definition init_infoDB :: "'d disk \<Rightarrow> 'd disk" where
  "init_infoDB dk =
     dk\<lparr>text_files := (text_files dk)(
       ''INFO_0.txt'' \<mapsto> ''winlab logo'', ''INFO_1.txt'' \<mapsto> ''microware'',
       ''INFO_2.txt'' \<mapsto> ''file extinguisher'', ''INFO_3.txt'' \<mapsto> ''winlab door'',
       ''INFO_4.txt'' \<mapsto> ''winlab inner door'', ''INFO_5.txt'' \<mapsto> ''sofa'',
       ''INFO_6.txt'' \<mapsto> ''working desk'', ''INFO_7.txt'' \<mapsto> ''trash box'',
       ''INFO_8.txt'' \<mapsto> ''orbit machine'', ''INFO_9.txt'' \<mapsto> ''car'',
       ''INFO_10.txt'' \<mapsto> ''computer display'')\<rparr>"

subsection \<open>Loading\<close>

text \<open>
  \<open>dsc_path\<close> is the file of the counts: \<open>indexDscNo\<close> in the server, \<open>/demo/indexDscNo\<close> in the
  bolt. The assignment \<open>imgInfoAdd = imgInfoAdd\<close> is the parameter to itself: the static
  member stays what it was.
\<close>

definition read_table :: "'d disk \<Rightarrow> string \<Rightarrow> int list" where
  "read_table dk path = (case text_files dk path of None \<Rightarrow> [] | Some s \<Rightarrow> read_ints s)"

definition init_matchImg_at ::
  "string \<Rightarrow> string \<Rightarrow> string \<Rightarrow> string \<Rightarrow> 'd disk \<Rightarrow> 'd img_db \<Rightarrow> 'd img_db" where
  "init_matchImg_at dsc_path indexAdd clusterAdd infoAdd dk db =
     (let cluster = (case yml_files dk clusterAdd of None \<Rightarrow> [] | Some m \<Rightarrow> m)
      in db\<lparr>index_IMG := index_IMG db @ read_table dk indexAdd,
            dscCnt_IMG := dscCnt_IMG db @ read_table dk dsc_path,
            featureCluster := cluster, flannIndex := Some cluster\<rparr>)"

definition init_matchImg :: "string \<Rightarrow> string \<Rightarrow> string \<Rightarrow> 'd disk \<Rightarrow> 'd img_db \<Rightarrow> 'd img_db" where
  "init_matchImg = init_matchImg_at ''indexDscNo''"

definition init_matchImg_storm :: "string \<Rightarrow> string \<Rightarrow> string \<Rightarrow> 'd disk \<Rightarrow> 'd img_db \<Rightarrow> 'd img_db" where
  "init_matchImg_storm = init_matchImg_at ''/demo/indexDscNo''"

subsection \<open>Text tables round trip\<close>

lemma dropWhile_space_print_int: "dropWhile is_space (print_int i @ rest) = print_int i @ rest"
proof (cases "i < 0")
  case True
  have "\<not> is_space (CHR ''-'')" by (simp add: is_space_def)
  with True show ?thesis by (simp add: print_int_def)
next
  case False
  then show ?thesis by (simp add: print_int_def dropWhile_space_dec_nat)
qed

lemma is_space_NL: "is_space NL" by (simp add: is_space_def)

lemma read_ints_skip: "is_space c \<Longrightarrow> read_ints (c # s) = read_ints s"
  by (subst (1 2) read_ints.simps) simp

lemma read_ints_print:
  assumes "in_int32 i"
  shows "read_ints (print_int i @ NL # s) = i # read_ints s"
proof -
  have st: "stops_number (NL # s)" by (simp add: stops_number_def is_digit_def)
  have tw: "takeWhile is_digit (dec_nat n @ NL # s) = dec_nat n" for n
    using takeWhile_digits [OF st] .
  have dw: "dropWhile is_digit (dec_nat n @ NL # s) = NL # s" for n
    using takeWhile_dropWhile_id [of is_digit "dec_nat n @ NL # s"] tw [of n] by (metis same_append_eq)
  show ?thesis
  proof (cases "i < 0")
    case True
    then show ?thesis using assms tw dw dropWhile_space_print_int [of i "NL # s"]
      by (subst read_ints.simps) (simp add: print_int_def Let_def read_ints_skip is_space_NL)
  next
    case False
    then obtain c t where ct: "dec_nat (nat i) = c # t" by (cases "dec_nat (nat i)") auto
    then have "is_digit c" by (metis dec_nat_digit list.set_intros(1))
    then have c: "c \<noteq> CHR ''-''" "c \<noteq> CHR ''+''" by (simp_all add: is_digit_neq)
    have hd: "hd (dec_nat (nat i) @ NL # s) = c" by (simp add: ct)
    from False show ?thesis
      using assms tw dw dropWhile_space_print_int [of i "NL # s"] c hd
      by (subst read_ints.simps) (simp add: print_int_def Let_def read_ints_skip is_space_NL)
  qed
qed

lemma read_write_ints [db_simps]: "list_all in_int32 xs \<Longrightarrow> read_ints (write_ints xs) = xs"
proof (induction xs)
  case Nil
  show ?case by (subst read_ints.simps) (simp add: write_ints_def)
next
  case (Cons x xs)
  then show ?case by (simp add: write_ints_def read_ints_print)
qed

end
