(* ===== verification/Results.thy ===== *)
theory Results
  imports ImgDB
begin

text \<open>
  The result messages: the server formats them (\<open>result_child\<close> and the Storm branch of
  \<open>server_result\<close>), the client takes them apart with \<open>strtok\<close> (\<open>result_thread\<close>). A reply is
  either \<open>none\<close> or the info text of the image, its index and eight coordinates, separated by
  commas.
\<close>

subsection \<open>Formatting\<close>

abbreviation none_msg :: bytes where
  "none_msg \<equiv> ''none'' @ [NUL]"

text \<open>The reply of \<open>result_child\<close>; \<open>sendInfo\<close> has 200 bytes.\<close>

definition result_reply :: "int \<Rightarrow> string \<Rightarrow> (nat \<Rightarrow> char) \<Rightarrow> bytes res" where
  "result_reply matchedIndex info stack =
     (if matchedIndex = 0 then Inr none_msg
      else sprintf_buf
        (cstr info @ '','' @ print_int matchedIndex @ '','' @ concat (map (\<lambda>v. print_int v @ '','') (replicate 8 0)))
        (stack_array 200 stack))"

text \<open>\<open>std::stoi\<close>: no digits, or a value outside the range of \<open>int\<close>, throws.\<close>

definition stoi :: "string \<Rightarrow> int res" where
  "stoi s =
     (let s1 = dropWhile is_space s;
          s2 = (case s1 of c # t \<Rightarrow> if c = CHR ''-'' \<or> c = CHR ''+'' then t else s1 | [] \<Rightarrow> []);
          v = strtol s
      in if takeWhile is_digit s2 = [] \<or> \<not> in_int32 v then Inl BadNumber else Inr v)"

text \<open>
  The Storm branch: a datagram from the bolt, received into a cleared array of 1024 bytes,
  becomes the reply; \<open>info_of\<close> is \<open>ImgMatch::getInfo\<close>. The array is a C string only if the
  datagram left a NUL in it.
\<close>

definition storm_reply :: "bytes \<Rightarrow> (int \<Rightarrow> string) \<Rightarrow> (nat \<Rightarrow> char) \<Rightarrow> (int \<times> bytes) res" where
  "storm_reply datagram info_of stack =
     (let buf = fill datagram (zeros 1024)
      in if NUL \<notin> set buf then Inl OverRead
         else (case strtok '','' buf 0 of
                 None \<Rightarrow> Inl NullPointer
               | Some t \<Rightarrow>
                   rbind (stoi (tok t)) (\<lambda>matchedIndex.
                     if matchedIndex = 0 then Inr (0, none_msg)
                     else rbind (sprintf_buf (cstr (info_of matchedIndex) @ '','' @ cstr buf)
                                             (stack_array 1024 stack))
                            (\<lambda>reply. Inr (matchedIndex, reply)))))"

subsection \<open>Taking a reply apart\<close>

text \<open>
  What the client shows. A coordinate is \<open>atof\<close> of its field; the model keeps the field.
\<close>

record shown =
  drawResult :: int
  result_title :: string
  result_artist :: string
  result_date :: string
  matchIndex :: string
  coord :: "string list"

definition init_shown :: shown where
  "init_shown = \<lparr>drawResult = 0, result_title = [], result_artist = [], result_date = [],
     matchIndex = [], coord = replicate 8 ''0''\<rparr>"

text \<open>\<open>n\<close> calls of \<open>strtok\<close>, whose result is dereferenced each time.\<close>

fun strtoks :: "char list \<Rightarrow> nat \<Rightarrow> bytes \<Rightarrow> nat \<Rightarrow> (string list \<times> bytes \<times> nat) res" where
  "strtoks ds 0 buf pos = Inr ([], buf, pos)"
| "strtoks ds (Suc n) buf pos =
     (case strtok ds buf pos of
        None \<Rightarrow> Inl NullPointer
      | Some t \<Rightarrow> rbind (strtoks ds n (tok_buf t) (tok_next t)) (\<lambda>(ts, rest). Inr (tok t # ts, rest)))"

definition show_result :: "bytes \<Rightarrow> shown \<Rightarrow> shown res" where
  "show_result buffer ui =
     (if cstr buffer = ''none'' then Inr (ui\<lparr>drawResult := 0\<rparr>)
      else rbind (strtoks '','' 4 buffer 0) (\<lambda>(ts, buf1, p1).
        rbind (strtoks '','' 8 buf1 p1) (\<lambda>(cs, _).
          Inr (ui\<lparr>drawResult := 1, result_title := ''Title: '' @ ts ! 0,
                 result_artist := ''Artist: '' @ ts ! 1, result_date := ''Date: '' @ ts ! 2,
                 matchIndex := ts ! 3, coord := cs\<rparr>))))"

text \<open>
  One round of the loop of \<open>result_thread\<close> after a receive that returned \<open>n\<close>: with
  \<open>size_per_time\<close> requests per picture only the last reply is shown. \<open>counter\<close> is the loop's
  counter; \<open>timeQueue\<close> (in consumption mode) gives the time stamp it pops, if any.
\<close>

record result_loop =
  rl_counter :: int
  rl_stop :: bool
  rl_ui :: shown
  rl_times :: "nat list"

definition result_step :: "int \<Rightarrow> bool \<Rightarrow> int \<Rightarrow> bytes \<Rightarrow> result_loop \<Rightarrow> result_loop res" where
  "result_step size_per_time consume n msg st =
     (if n < 0 then Inl (Exit 1)
      else if n = 0 then Inr (st\<lparr>rl_stop := True\<rparr>)
      else if \<not> in_int32 (rl_counter st - 1) then Inl IntOverflow
      else if rl_counter st - 1 > 0 then Inr (st\<lparr>rl_counter := rl_counter st - 1\<rparr>)
      else
        (let st1 = st\<lparr>rl_counter := size_per_time,
               rl_times := (if consume \<and> rl_times st \<noteq> [] then tl (rl_times st) else rl_times st)\<rparr>
         in rbind (show_result (fill msg (zeros 1024)) (rl_ui st1)) (\<lambda>ui. Inr (st1\<lparr>rl_ui := ui\<rparr>))))"

subsection \<open>Lemmas\<close>

definition is_field :: "string \<Rightarrow> bool" where
  "is_field t \<longleftrightarrow> t \<noteq> [] \<and> no_char '','' t \<and> no_nul t"

definition commas :: "string list \<Rightarrow> string" where
  "commas ts = concat (map (\<lambda>t. t @ '','') ts)"

lemma commas_simps [simp]: "commas [] = []" "commas (t # ts) = t @ CHR '','' # commas ts"
  by (simp_all add: commas_def)

lemma no_nul_commas: "list_all is_field ts \<Longrightarrow> no_nul (commas ts)"
  by (induction ts) (simp_all add: is_field_def)

lemma is_field_print_int [simp]: "is_field (print_int i)"
  by (simp add: is_field_def)

text \<open>\<open>strtok\<close> takes a list of fields apart, one by one.\<close>

lemma strtoks_commas:
  assumes "list_all is_field ts"
  shows "length pre = pos \<Longrightarrow>
    strtoks '','' (length ts) (pre @ commas ts @ rest) pos =
      Inr (ts, pre @ concat (map (\<lambda>t. t @ [NUL]) ts) @ rest, pos + length (commas ts))"
  using assms
proof (induction ts arbitrary: pre pos)
  case Nil
  then show ?case by simp
next
  case (Cons t ts)
  from Cons.prems have f: "is_field t" and r: "list_all is_field ts" by simp_all
  then have t: "t \<noteq> []" "no_char '','' t" "no_nul t" "list_all is_field ts"
    unfolding is_field_def by simp_all
  have s: "strtok '','' (pre @ t @ CHR '','' # (commas ts @ rest)) pos =
      Some \<lparr>tok = t, tok_start = pos, tok_next = pos + length t + 1,
            tok_buf = pre @ t @ NUL # (commas ts @ rest)\<rparr>"
    using Cons.prems(1) t by (intro strtok_field) simp_all
  have "strtoks '','' (length ts) ((pre @ t @ [NUL]) @ commas ts @ rest) (pos + length t + 1) =
      Inr (ts, (pre @ t @ [NUL]) @ concat (map (\<lambda>t. t @ [NUL]) ts) @ rest,
           pos + length t + 1 + length (commas ts))"
    using Cons.prems(1) t(4) by (intro Cons.IH) simp_all
  with s show ?case by simp
qed

text \<open>One call more than there are fields gets the null pointer.\<close>

lemma strtoks_too_many:
  assumes "list_all is_field ts" and "length pre = pos" and "length ts < n"
  shows "strtoks '','' n (pre @ commas ts @ NUL # rest) pos = Inl NullPointer"
  using assms
proof (induction ts arbitrary: pre pos n)
  case Nil
  then obtain m where "n = Suc m" by (cases n) auto
  with Nil strtok_at_end [of pre pos "'',''" rest] show ?case by simp
next
  case (Cons t ts)
  from Cons.prems have f: "is_field t" and r: "list_all is_field ts" by simp_all
  then have t: "t \<noteq> []" "no_char '','' t" "no_nul t" "list_all is_field ts"
    unfolding is_field_def by simp_all
  from Cons.prems obtain m where m: "n = Suc m" "length ts < m" by (cases n) auto
  have s: "strtok '','' (pre @ t @ CHR '','' # (commas ts @ NUL # rest)) pos =
      Some \<lparr>tok = t, tok_start = pos, tok_next = pos + length t + 1,
            tok_buf = pre @ t @ NUL # (commas ts @ NUL # rest)\<rparr>"
    using Cons.prems(2) t by (intro strtok_field) simp_all
  have "strtoks '','' m ((pre @ t @ [NUL]) @ commas ts @ NUL # rest) (pos + length t + 1) = Inl NullPointer"
    using Cons.prems(2) t(4) m(2) by (intro Cons.IH) simp_all
  with s m(1) show ?case by simp
qed

text \<open>A delimiter in front of a field is skipped.\<close>

lemma strtok_skip:
  assumes "d \<in> set ds" and "d \<noteq> NUL" and "length pre = pos"
  shows "strtok ds (pre @ d # rest) pos = strtok ds (pre @ d # rest) (Suc pos)"
proof -
  have "cstr (drop pos (pre @ d # rest)) = d # cstr rest"
    "cstr (drop (Suc pos) (pre @ d # rest)) = cstr rest"
    using assms by (simp_all add: cstr_def)
  then show ?thesis using assms(1) by (simp add: strtok_def Let_def)
qed

lemma strtoks_skip:
  assumes "d \<in> set ds" and "d \<noteq> NUL" and "length pre = pos"
  shows "strtoks ds (Suc n) (pre @ d # rest) pos = strtoks ds (Suc n) (pre @ d # rest) (Suc pos)"
  by (simp add: strtok_skip [OF assms])

text \<open>The text of a reply, as a list of fields.\<close>

definition zero_fields :: "string list" where
  "zero_fields = replicate 8 ''0''"

lemma print_int_0: "print_int 0 = ''0''"
  by code_simp

lemma zero_coords:
  "concat (map (\<lambda>v. print_int v @ '','') (replicate 8 0)) = commas zero_fields"
  by (simp add: zero_fields_def commas_def print_int_0 map_replicate)

lemma is_field_0: "list_all is_field zero_fields"
  by (simp add: zero_fields_def is_field_def list_all_iff)

lemma length_zero_fields: "length (commas zero_fields) = 16"
  by (simp add: zero_fields_def numeral_eq_Suc)

lemma commas_append [simp]: "commas (xs @ ys) = commas xs @ commas ys"
  by (simp add: commas_def)

lemma result_reply_nonzero:
  assumes "idx \<noteq> 0"
  shows "result_reply idx info stack =
     sprintf_buf (cstr info @ CHR '','' # commas (print_int idx # zero_fields)) (stack_array 200 stack)"
  using assms unfolding result_reply_def zero_coords by simp

lemma print_int_digit: "\<exists>c s. print_int i = c # s \<and> c \<noteq> CHR ''n''"
proof -
  obtain c s where "print_int i = c # s" by (cases "print_int i") auto
  moreover from this have "is_digit c \<or> c = CHR ''-''" by (intro print_int_chars [of c i]) simp
  ultimately show ?thesis by (auto simp: is_digit_def)
qed

text \<open>Fields joined by commas, as the info texts are.\<close>

fun join :: "string list \<Rightarrow> string" where
  "join [] = []"
| "join [t] = t"
| "join (t # ts) = t @ CHR '','' # join ts"

lemma join_commas: "ts \<noteq> [] \<Longrightarrow> join ts @ CHR '','' # rest = commas ts @ rest"
  by (induction ts rule: join.induct) simp_all

lemma no_nul_join: "list_all is_field ts \<Longrightarrow> no_nul (join ts)"
  by (induction ts rule: join.induct) (simp_all add: is_field_def)

end
