(* ===== verification/MFPackager.thy ===== *)
theory MFPackager
  imports CLib
begin

text \<open>
  The image packager of the new orbit mode (\<open>MFPackager.cpp\<close>). An image travels as one message:
  a ten-byte header that starts with its size in decimal and a comma, then the image. The rest
  of the header is whatever the array held.
\<close>

subsection \<open>Operations\<close>

record mfpackager =
  mp_src_GUID :: int
  mp_dst_GUID :: int
  mp_debug :: int

definition new_MFPackager :: "int \<Rightarrow> int \<Rightarrow> int \<Rightarrow> int \<Rightarrow> mfpackager res" where
  "new_MFPackager src dst set_debug mfopen_ret =
     (if mfopen_ret \<noteq> 0 then Inl (Exit 1)
      else Inr \<lparr>mp_src_GUID = src, mp_dst_GUID = dst, mp_debug = set_debug\<rparr>)"

definition getMyGUID :: "mfpackager \<Rightarrow> int" where
  "getMyGUID p = mp_src_GUID p"

text \<open>A negative size would reach \<open>memcpy\<close> as a huge \<open>size_t\<close>.\<close>

definition sendImage :: "bytes \<Rightarrow> int \<Rightarrow> (nat \<Rightarrow> char) \<Rightarrow> int \<Rightarrow> (bytes list \<times> int) res" where
  "sendImage buf buf_size stack mfsend_ret =
     (if \<not> in_int32 (buf_size + 10) then Inl IntOverflow
      else if buf_size < 0 then Inl OverRead
      else rbind (sprintf_buf (print_int buf_size @ '','') (stack_array (nat (buf_size + 10)) stack)) (\<lambda>header.
        rbind (read_at 0 (nat buf_size) buf) (\<lambda>img.
          rbind (write_at 10 img header) (\<lambda>tmp.
            if mfsend_ret < 0 then Inr ([], -1) else Inr ([tmp], mfsend_ret)))))"

definition recvImage ::
  "bytes option \<Rightarrow> bytes \<Rightarrow> int \<Rightarrow> (nat \<Rightarrow> char) \<Rightarrow> (bytes \<times> int) res" where
  "recvImage received buf buf_size stack =
     (case received of
        None \<Rightarrow> Inr (buf, -1)
      | Some m \<Rightarrow>
          (case strtok '' ,'' (fill m (stack_array (nat buf_size) stack)) 0 of
             None \<Rightarrow> Inl NullPointer
           | Some t \<Rightarrow>
               (let img_size = strtol_int (tok t)
                in if img_size < 0 then Inl OverRead
                   else rbind (read_at 10 (nat img_size) (tok_buf t)) (\<lambda>img.
                     rbind (write_at 0 img buf) (\<lambda>buf'. Inr (buf', img_size))))))"

definition sendResult :: "bytes \<Rightarrow> int \<Rightarrow> int \<Rightarrow> (bytes list \<times> int) res" where
  "sendResult buf buf_size mfsend_ret =
     (if buf_size < 0 then Inl OverRead
      else rbind (read_at 0 (nat buf_size) buf) (\<lambda>m.
        if mfsend_ret < 0 then Inr ([], -1) else Inr ([m], mfsend_ret)))"

definition recvResult :: "bytes option \<Rightarrow> bytes \<Rightarrow> bytes \<times> int" where
  "recvResult received buf =
     (case received of
        None \<Rightarrow> (buf, -1)
      | Some m \<Rightarrow> (fill m buf, int (min (length m) (length buf))))"

subsection \<open>The image round trip\<close>

lemma sendImage_frame:
  assumes "0 \<le> n" and "n < 10 ^ 9" and "nat n \<le> length buf" and "0 \<le> ret"
  shows "\<exists>fillr. length fillr = 10 - Suc (length (print_int n)) \<and>
     sendImage buf n stack ret =
       Inr ([print_int n @ CHR '','' # fillr @ take (nat n) buf], ret)"
proof -
  define hdr where "hdr = print_int n @ '',''"
  have L: "length (print_int n) \<le> 9"
    using assms(1,2) length_dec_nat_le [of 9 "nat n"] by (simp add: print_int_nonneg nat_less_iff)
  define arr where "arr = stack_array (nat (n + 10)) stack"
  have la: "length arr = nat n + 10" using assms(1) by (simp add: arr_def nat_add_distrib)
  have "length hdr = Suc (length (print_int n))" by (simp add: hdr_def)
  moreover have "n = 0 \<Longrightarrow> length (print_int n) = 1"
    by (simp add: print_int_def dec_nat.simps)
  ultimately have lh: "length hdr < length arr" using L la assms(1) by (cases "n = 0") simp_all
  from sprintf_buf_ok [OF this]
  have p: "sprintf_buf hdr arr = Inr (hdr @ NUL # drop (Suc (length hdr)) arr)" .
  define text' where "text' = hdr @ NUL # drop (Suc (length hdr)) arr"
  have lt: "length text' = nat n + 10" using lh la by (simp add: text'_def)
  have w: "write_at 10 (take (nat n) buf) text' = Inr (take 10 text' @ take (nat n) buf)"
    using lt assms(3) by (simp add: write_at_def)
  define fillr where "fillr = take (10 - length hdr) (NUL # drop (Suc (length hdr)) arr)"
  have "length hdr \<le> 10" using L by (simp add: hdr_def)
  then have t: "take 10 text' = hdr @ fillr" by (simp add: text'_def fillr_def)
  have "length fillr = 10 - length hdr"
    using L la by (simp add: fillr_def hdr_def)
  moreover have "in_int32 (n + 10)" using assms(1,2) by (simp add: in_int32_def)
  ultimately show ?thesis
    using p w t assms
    by (intro exI [of _ fillr])
      (simp add: sendImage_def read_at_def hdr_def [symmetric] arr_def [symmetric] text'_def [symmetric],
       simp add: hdr_def)
qed

lemma recvImage_frame:
  assumes "0 \<le> n" and "n < 10 ^ 9" and "length img = nat n"
    and "length fillr = 10 - Suc (length (print_int n))" and "nat n + 10 \<le> nat sz" and "nat n \<le> length dest"
  shows "recvImage (Some (print_int n @ CHR '','' # fillr @ img)) dest sz stack =
     Inr (img @ drop (nat n) dest, n)"
proof -
  define m where "m = print_int n @ CHR '','' # fillr @ img"
  have L: "length (print_int n) \<le> 9"
    using assms(1,2) length_dec_nat_le [of 9 "nat n"] by (simp add: print_int_nonneg nat_less_iff)
  have lm: "length m = nat n + 10" using L assms(3,4) by (simp add: m_def)
  define rest where "rest = drop (length m) (stack_array (nat sz) stack)"
  have f: "fill m (stack_array (nat sz) stack) = print_int n @ CHR '','' # (fillr @ img @ rest)"
    using lm assms(5) by (simp add: fill_fits rest_def) (simp add: m_def)
  have "no_char '' ,'' (print_int n)"
    by (auto simp: no_char_def dest: print_int_chars is_digit_neq)
  then have s: "strtok '' ,'' (print_int n @ CHR '','' # (fillr @ img @ rest)) 0 =
      Some \<lparr>tok = print_int n, tok_start = 0, tok_next = length (print_int n) + 1,
            tok_buf = print_int n @ NUL # (fillr @ img @ rest)\<rparr>"
    using strtok_field [of "[]" 0 "print_int n" "'' ,''" "CHR '',''" "fillr @ img @ rest"] by simp
  have "read_at 10 (nat n) ((print_int n @ NUL # fillr) @ img @ rest) = Inr img"
    using L assms(3,4) by (intro read_at_append) simp_all
  moreover have "strtol_int (print_int n) = n"
    using assms(1,2) by (intro strtol_int_print_int_0) (simp add: in_int32_def)
  moreover have "write_at 0 img dest = Inr (img @ drop (nat n) dest)"
    using assms(3,6) by (simp add: write_at_def)
  ultimately show ?thesis
    using s assms(1) unfolding m_def [symmetric] by (simp add: recvImage_def f)
qed

text \<open>
  an image of any content packed by \<open>sendImage\<close> and unpacked by \<open>recvImage\<close> comes out unchanged,
  with its size, at the start of the caller's buffer, whatever the unused header bytes and the
  receive array held, for sizes below 10^9.
\<close>

theorem image_roundtrip:
  assumes "0 \<le> n" and "n < 10 ^ 9" and "nat n \<le> length buf" and "0 \<le> ret"
    and "nat n + 10 \<le> nat sz" and "nat n \<le> length dest"
  shows "\<exists>frame. sendImage buf n stack ret = Inr ([frame], ret) \<and>
     recvImage (Some frame) dest sz stack' = Inr (take (nat n) buf @ drop (nat n) dest, n)"
proof -
  from sendImage_frame [OF assms(1-4), of stack] obtain fillr where
    f: "length fillr = 10 - Suc (length (print_int n))"
    and s: "sendImage buf n stack ret =
       Inr ([print_int n @ CHR '','' # fillr @ take (nat n) buf], ret)" by blast
  have "length (take (nat n) buf) = nat n" using assms(3) by simp
  from recvImage_frame [OF assms(1,2) this f assms(5,6), of stack'] s
  show ?thesis by blast
qed

lemma image_roundtrip_witness:
  "\<exists>frame. sendImage ''jpeg bytes'' 4 (\<lambda>_. CHR ''7'') 0 = Inr ([frame], 0) \<and>
     recvImage (Some frame) (zeros 6) 650000 (\<lambda>_. CHR ''x'') = Inr (''jpeg'' @ zeros 2, 4)"
proof -
  have l: "nat 4 \<le> length ''jpeg bytes''" by simp
  have d: "nat 4 \<le> length (zeros 6)" by simp
  have t: "take (nat 4) ''jpeg bytes'' @ drop (nat 4) (zeros 6) = ''jpeg'' @ zeros 2"
    by (simp add: zeros_def numeral_eq_Suc)
  have "(0::int) \<le> 4" "(4::int) < 10 ^ 9" "(0::int) \<le> 0" "nat 4 + 10 \<le> nat 650000" by simp_all
  from image_roundtrip [OF this(1,2) l this(3,4) d, of "\<lambda>_. CHR ''7''" "\<lambda>_. CHR ''x''"]
  show ?thesis unfolding t .
qed

end
