(* ===== verification/ImgTransfer.thy ===== *)
theory ImgTransfer
  imports MFPackager
begin

text \<open>
  How an image crosses each network: the request header \<open>"<name>,<size>"\<close> and its parsing, the
  plain TCP byte stream (\<open>transmit_child\<close> and the receive loop of \<open>server_transmit\<close>), the blocks of
  4096 bytes of the orbit mode, and the single message of the new orbit mode. The three are
  instances of one interface, the locale \<open>image_channel\<close>.
\<close>

named_theorems transfer_simps "sending and receiving images"

subsection \<open>The interface\<close>

text \<open>
  A channel sends an image as a list of network events and receives it from them; the
  receiver may fault, or block when the events run out.
\<close>

locale image_channel =
  fixes tx :: "bytes \<Rightarrow> 'e list"
    and rx :: "int \<Rightarrow> 'e list \<Rightarrow> (bytes \<times> 'e list) option res"
    and fits :: "bytes \<Rightarrow> bool"
  assumes rx_tx: "fits img \<Longrightarrow> rx (int (length img)) (tx img @ es) = Inr (Some (img, es))"
begin

text \<open>Receiving images one after the other, with the size announced for each.\<close>

fun rx_all :: "int list \<Rightarrow> 'e list \<Rightarrow> (bytes list \<times> 'e list) option res" where
  "rx_all [] es = Inr (Some ([], es))"
| "rx_all (n # ns) es =
     rbind (rx n es) (\<lambda>r. case r of None \<Rightarrow> Inr None | Some (img, es') \<Rightarrow>
       rbind (rx_all ns es') (\<lambda>r'. case r' of None \<Rightarrow> Inr None
         | Some (imgs, es'') \<Rightarrow> Inr (Some (img # imgs, es''))))"

lemma rx_tx_all:
  "list_all fits imgs \<Longrightarrow>
     rx_all (map (\<lambda>i. int (length i)) imgs) (concat (map tx imgs) @ es) = Inr (Some (imgs, es))"
  by (induction imgs) (simp_all add: rx_tx)

lemma rx_tx_0: "fits img \<Longrightarrow> rx (int (length img)) (tx img) = Inr (Some (img, []))"
  using rx_tx [of img "[]"] by simp

end

subsection \<open>The request header\<close>

text \<open>
  The client's announcement. \<open>bufferSend\<close> has \<open>cap\<close> bytes: 1024, cleared, in TCP mode, and 4096 that
  were never initialised in orbit mode, of which 100 are sent.
\<close>

definition header_text :: "string \<Rightarrow> int \<Rightarrow> string" where
  "header_text file_name fsize = file_name @ '','' @ print_int fsize"

definition announce_name :: "int \<Rightarrow> string \<Rightarrow> int \<Rightarrow> string" where
  "announce_name size_per_time file_name fake_id =
     (if size_per_time = 1 then file_name else ''pics/'' @ print_int fake_id @ ''.jpg'')"

definition announce_tcp :: "int \<Rightarrow> string \<Rightarrow> int \<Rightarrow> int \<Rightarrow> bytes res" where
  "announce_tcp size_per_time file_name fake_id fsize =
     sprintf_buf (header_text (announce_name size_per_time file_name fake_id) fsize) (zeros 1024)"

definition announce_orbit :: "int \<Rightarrow> string \<Rightarrow> int \<Rightarrow> int \<Rightarrow> (nat \<Rightarrow> char) \<Rightarrow> bytes res" where
  "announce_orbit size_per_time file_name fake_id fsize stack =
     rbind (sprintf_buf (header_text (announce_name size_per_time file_name fake_id) fsize)
                        (stack_array 4096 stack))
           (\<lambda>buf. read_at 0 100 buf)"

text \<open>
  The server: two tokens of the cleared receive buffer, the name copied into 60 bytes. A size
  below 0 makes \<open>new char[]\<close> throw.
\<close>

definition parse_header :: "bytes \<Rightarrow> (string \<times> int) res" where
  "parse_header buffer =
     (if NUL \<notin> set buffer then Inl OverRead
      else (case strtok '','' buffer 0 of
        None \<Rightarrow> Inl NullPointer
      | Some t \<Rightarrow>
          if 60 \<le> length (tok t) then Inl BufferOverflow
          else (case strtok '','' (tok_buf t) (tok_next t) of
                  None \<Rightarrow> Inl NullPointer
                | Some t' \<Rightarrow> (let fsize = strtol_int (tok t')
                              in if fsize < 0 then Inl Abort else Inr (tok t, fsize)))))"

subsection \<open>TCP\<close>

text \<open>What one \<open>recv\<close> returns; a list of them that ends means that the next call blocks.\<close>

datatype recv_event = Chunk bytes | Closed | Failed

text \<open>
  The receive loop: \<open>img\<close> is the array of the announced size, \<open>offset\<close> what has arrived. A chunk
  of length 0 is the end of the stream.
\<close>

fun tcp_loop :: "nat \<Rightarrow> recv_event list \<Rightarrow> bytes \<Rightarrow> nat \<Rightarrow> (bytes \<times> recv_event list) option res" where
  "tcp_loop fsize [] img offset = Inr None"
| "tcp_loop fsize (Closed # es) img offset = Inr (Some (img, es))"
| "tcp_loop fsize (Failed # es) img offset = Inr (Some (img, es))"
| "tcp_loop fsize (Chunk c # es) img offset =
     (if c = [] then Inr (Some (img, es))
      else rbind (write_at offset c img) (\<lambda>img'.
        if offset + length c = fsize then Inr (Some (img', es))
        else tcp_loop fsize es img' (offset + length c)))"

definition tcp_receive ::
  "(nat \<Rightarrow> char) \<Rightarrow> int \<Rightarrow> recv_event list \<Rightarrow> (bytes \<times> recv_event list) option res" where
  "tcp_receive heap fsize es =
     (if fsize < 0 then Inl Abort
      else tcp_loop (nat fsize) es (stack_array (nat fsize) heap) 0)"

text \<open>The client reads the file in blocks of at most \<open>n\<close> bytes until nothing is left.\<close>

function file_blocks :: "nat \<Rightarrow> bytes \<Rightarrow> bytes list" where
  "file_blocks n img =
     (if n = 0 \<or> img = [] then [] else take n img # file_blocks n (drop n img))"
  by pat_completeness auto
termination by (relation "measure (\<lambda>(n, img). length img)") auto

declare file_blocks.simps [simp del]

definition tcp_send :: "bytes \<Rightarrow> recv_event list" where
  "tcp_send img = map Chunk (file_blocks 1024 img)"

subsection \<open>Orbit\<close>

text \<open>
  The client sends every block in a message of 4096 bytes, the last one filled up with zeros.
  The server's buffer is cleared, then filled by \<open>MsgD.recv\<close>; a failed receive posts the result
  thread's semaphore (\<open>wake\<close>), and, \<open>errorSocket\<close> doing nothing in this mode, goes on with the
  cleared buffer. The result counts these posts.
\<close>

definition pad_block :: "bytes \<Rightarrow> bytes" where
  "pad_block b = fill b (zeros 4096)"

definition orbit_send :: "bytes \<Rightarrow> recv_event list" where
  "orbit_send img = map (\<lambda>b. Chunk (pad_block b)) (file_blocks 4096 img)"

fun event_bytes :: "recv_event \<Rightarrow> bytes" where
  "event_bytes (Chunk c) = c"
| "event_bytes _ = []"

fun orbit_loop ::
  "nat \<Rightarrow> recv_event list \<Rightarrow> bytes \<Rightarrow> nat \<Rightarrow> nat \<Rightarrow> (bytes \<times> nat \<times> recv_event list) option res" where
  "orbit_loop fsize [] img received wakes = Inr None"
| "orbit_loop fsize (e # es) img received wakes =
     (let buffer = fill (event_bytes e) (zeros 4096);
          wakes' = (if event_bytes e = [] then Suc wakes else wakes)
      in if fsize \<le> received + 4096
         then rbind (write_at received (take (fsize - received) buffer) img)
                (\<lambda>img'. Inr (Some (img', wakes', es)))
         else rbind (write_at received buffer img)
                (\<lambda>img'. orbit_loop fsize es img' (received + 4096) wakes'))"

definition orbit_receive ::
  "(nat \<Rightarrow> char) \<Rightarrow> int \<Rightarrow> recv_event list \<Rightarrow> (bytes \<times> nat \<times> recv_event list) option res" where
  "orbit_receive heap fsize es =
     (if fsize < 0 then Inl Abort
      else orbit_loop (nat fsize) es (stack_array (nat fsize) heap) 0 0)"

subsection \<open>New orbit\<close>

text \<open>One message; the server's array has 650000 bytes and the size comes out of the message.\<close>

definition mf_send :: "(nat \<Rightarrow> char) \<Rightarrow> bytes \<Rightarrow> bytes option list" where
  "mf_send stack img =
     (case sendImage img (int (length img)) stack 0 of Inl _ \<Rightarrow> [] | Inr (ms, _) \<Rightarrow> map Some ms)"

definition mf_receive ::
  "(nat \<Rightarrow> char) \<Rightarrow> (nat \<Rightarrow> char) \<Rightarrow> bytes option list \<Rightarrow> (bytes \<times> bytes option list) option res" where
  "mf_receive heap stack ms =
     (case ms of
        [] \<Rightarrow> Inr None
      | m # ms' \<Rightarrow>
          rbind (recvImage m (stack_array 650000 heap) 650000 stack) (\<lambda>(img, n).
            if n < 0 then Inl OverRead
            else rbind (read_at 0 (nat n) img) (\<lambda>file. Inr (Some (file, ms')))))"

subsection \<open>The blocks of a file\<close>

lemma concat_file_blocks: "0 < n \<Longrightarrow> concat (file_blocks n img) = img"
proof (induction n img rule: file_blocks.induct)
  case (1 n img)
  then show ?case by (subst file_blocks.simps) simp
qed

lemma file_blocks_bounds: "b \<in> set (file_blocks n img) \<Longrightarrow> b \<noteq> [] \<and> length b \<le> n"
proof (induction n img rule: file_blocks.induct)
  case (1 n img)
  then show ?case by (subst (asm) (2) file_blocks.simps) (auto split: if_splits)
qed

lemma file_blocks_Cons:
  "img \<noteq> [] \<Longrightarrow> 0 < n \<Longrightarrow> file_blocks n img = take n img # file_blocks n (drop n img)"
  by (subst file_blocks.simps) simp

lemma file_blocks_Nil [simp]: "file_blocks n [] = []"
  by (subst file_blocks.simps) simp

subsection \<open>The TCP receive loop\<close>

lemma tcp_loop_chunks:
  assumes "list_all (\<lambda>c. c \<noteq> []) cs" and "cs \<noteq> []"
  shows "length got = offset \<Longrightarrow> length rest = length (concat cs) \<Longrightarrow>
     tcp_loop (offset + length (concat cs)) (map Chunk cs @ es) (got @ rest) offset =
       Inr (Some (got @ concat cs, es))"
  using assms
proof (induction cs arbitrary: got rest offset)
  case Nil
  then show ?case by simp
next
  case (Cons c cs)
  have w: "write_at offset c (got @ rest) = Inr (got @ c @ drop (length c) rest)"
    using Cons.prems(1,2) by (simp add: write_at_def)
  show ?case
  proof (cases "cs = []")
    case True
    with w Cons.prems show ?thesis by simp
  next
    case False
    with Cons.prems(3) have ne: "concat cs \<noteq> []" by (cases cs) auto
    have "tcp_loop (offset + length c + length (concat cs)) (map Chunk cs @ es)
        ((got @ c) @ drop (length c) rest) (offset + length c) = Inr (Some ((got @ c) @ concat cs, es))"
      using Cons.prems False by (intro Cons.IH) simp_all
    with w Cons.prems(3) ne show ?thesis by (auto simp: add.assoc)
  qed
qed

lemma tcp_receive_chunks [transfer_simps]:
  assumes "list_all (\<lambda>c. c \<noteq> []) cs" and "concat cs = img" and "img \<noteq> []"
  shows "tcp_receive heap (int (length img)) (map Chunk cs @ es) = Inr (Some (img, es))"
proof -
  have "cs \<noteq> []" using assms(2,3) by auto
  from tcp_loop_chunks [OF assms(1) this, of "[]" 0 "stack_array (length img) heap" es] assms(2)
  show ?thesis by (simp add: tcp_receive_def)
qed

lemma tcp_channel: "img \<noteq> [] \<Longrightarrow> tcp_receive heap (int (length img)) (tcp_send img @ es) = Inr (Some (img, es))"
  unfolding tcp_send_def
  by (rule tcp_receive_chunks) (auto simp: concat_file_blocks list_all_iff dest: file_blocks_bounds)

subsection \<open>The orbit loop\<close>

lemma orbit_loop_blocks:
  "length got = received \<Longrightarrow> length rest = length img \<Longrightarrow> img \<noteq> [] \<Longrightarrow>
     orbit_loop (received + length img) (orbit_send img @ es) (got @ rest) received wakes =
       Inr (Some (got @ img, wakes, es))"
proof (induction img arbitrary: got rest received rule: length_induct)
  case (1 img)
  have os: "orbit_send img = Chunk (pad_block (take 4096 img)) # orbit_send (drop 4096 img)"
    using "1.prems"(3) by (simp add: orbit_send_def file_blocks_Cons)
  have pn: "pad_block (take 4096 img) \<noteq> []"
  proof -
    have "length (pad_block (take 4096 img)) = 4096" by (simp add: pad_block_def)
    then show ?thesis by auto
  qed
  have idem: "fill (pad_block b) (zeros 4096) = pad_block b" if "length b \<le> 4096" for b
    using that by (simp add: pad_block_def fill_def)
  then have buf: "fill (pad_block (take 4096 img)) (zeros 4096) = pad_block (take 4096 img)" by simp
  show ?case
  proof (cases "length img \<le> 4096")
    case True
    have "take (length img) (pad_block img) = img" using True by (simp add: pad_block_def fill_def)
    moreover have "write_at received img (got @ rest) = Inr (got @ img)"
      using "1.prems" by (simp add: write_at_def)
    moreover have "orbit_send [] = []" by (simp add: orbit_send_def)
    ultimately show ?thesis using True pn buf by (simp add: os Let_def)
  next
    case False
    then have b: "pad_block (take 4096 img) = take 4096 img" by (simp add: pad_block_def fill_def)
    have w: "write_at received (take 4096 img) (got @ rest) =
        Inr ((got @ take 4096 img) @ drop 4096 rest)"
      using "1.prems" False by (simp add: write_at_def)
    have "orbit_loop (received + 4096 + length (drop 4096 img)) (orbit_send (drop 4096 img) @ es)
        ((got @ take 4096 img) @ drop 4096 rest) (received + 4096) wakes =
        Inr (Some ((got @ take 4096 img) @ drop 4096 img, wakes, es))"
      using "1.prems" False by (intro "1.IH" [rule_format]) simp_all
    with False pn buf b w show ?thesis by (simp add: os Let_def)
  qed
qed

lemma orbit_channel [transfer_simps]:
  "img \<noteq> [] \<Longrightarrow>
     orbit_receive heap (int (length img)) (orbit_send img @ es) = Inr (Some (img, 0, es))"
  using orbit_loop_blocks [of "[]" 0 "stack_array (length img) heap" img es 0]
  by (simp add: orbit_receive_def)

text \<open>The orbit receive without the count of wake-ups.\<close>

definition orbit_rx :: "(nat \<Rightarrow> char) \<Rightarrow> int \<Rightarrow> recv_event list \<Rightarrow> (bytes \<times> recv_event list) option res" where
  "orbit_rx heap fsize es =
     rbind (orbit_receive heap fsize es) (\<lambda>r. Inr (map_option (\<lambda>(img, w, es'). (img, es')) r))"

subsection \<open>The new orbit message\<close>

lemma mf_channel [transfer_simps]:
  assumes "length img \<le> 649990"
  shows "mf_receive heap stack (mf_send stack' img @ es) = Inr (Some (img, es))"
proof -
  have n: "0 \<le> int (length img)" "int (length img) < 10 ^ 9" "nat (int (length img)) \<le> length img"
    using assms by simp_all
  have z: "(0::int) \<le> 0" by simp
  from sendImage_frame [OF n z, of stack'] obtain fillr where
    f: "length fillr = 10 - Suc (length (print_int (int (length img))))"
    and s: "sendImage img (int (length img)) stack' 0 =
       Inr ([print_int (int (length img)) @ CHR '','' # fillr @ img], 0)" by auto
  have i: "length img = nat (int (length img))" by simp
  have c: "nat (int (length img)) + 10 \<le> nat 650000" "nat (int (length img)) \<le> length (stack_array 650000 heap)"
    using assms by simp_all
  from recvImage_frame [OF n(1,2) i f c] s show ?thesis
    by (simp add: mf_send_def mf_receive_def read_at_def)
qed

subsection \<open>Interpretations\<close>

interpretation tcp: image_channel tcp_send "tcp_receive heap" "\<lambda>img. img \<noteq> []" for heap
  by unfold_locales (rule tcp_channel)

interpretation orb: image_channel orbit_send "orbit_rx heap" "\<lambda>img. img \<noteq> []" for heap
  by unfold_locales (simp add: orbit_rx_def orbit_channel)

interpretation mfc: image_channel "mf_send stack'" "\<lambda>_. mf_receive heap stack" "\<lambda>img. length img \<le> 649990"
  for heap stack stack'
  by unfold_locales (rule mf_channel)

end
