(* ===== verification/Metrics.thy ===== *)
theory Metrics
  imports Prelude Complex_Main
begin

text \<open>
  The load metric of the server (\<open>Metrics.cpp\<close>): two counters and the load they give. The
  counters are 32-bit integers whose overflow faults. \<open>get_metrics\<close> returns a \<open>double\<close>; the
  model has the exact quotient, of which the \<open>double\<close> is the nearest value.
\<close>

record metrics =
  request_submitted :: int
  request_finished :: int

definition max_num_of_requests :: int where "max_num_of_requests = 100"

definition new_Metrics :: metrics where
  "new_Metrics = \<lparr>request_submitted = 0, request_finished = 0\<rparr>"

definition submit_request :: "metrics \<Rightarrow> metrics res" where
  "submit_request m = rbind (inc32 (request_submitted m)) (\<lambda>n. Inr (m\<lparr>request_submitted := n\<rparr>))"

definition finish_request :: "metrics \<Rightarrow> metrics res" where
  "finish_request m = rbind (inc32 (request_finished m)) (\<lambda>n. Inr (m\<lparr>request_finished := n\<rparr>))"

definition get_num_ongoing :: "metrics \<Rightarrow> int" where
  "get_num_ongoing m = request_submitted m - request_finished m"

definition get_metrics :: "metrics \<Rightarrow> rat" where
  "get_metrics m =
     (if request_submitted m = 0 then 0
      else let curNum = get_num_ongoing m
           in if curNum \<ge> max_num_of_requests then 1
              else of_int curNum / of_int max_num_of_requests)"

text \<open>
  as long as no more requests have finished than were submitted, the load is between 0 and 1;
  it is 1 exactly from 100 requests in progress on, and below that it is the number in progress
  over 100.
\<close>

theorem get_metrics_load:
  assumes "0 \<le> request_finished m" and "request_finished m \<le> request_submitted m"
  shows "0 \<le> get_metrics m \<and> get_metrics m \<le> 1 \<and>
     (get_metrics m = 1 \<longleftrightarrow> 100 \<le> get_num_ongoing m) \<and>
     (get_num_ongoing m < 100 \<longrightarrow> get_metrics m = of_int (get_num_ongoing m) / 100)"
  using assms
  by (auto simp: get_metrics_def get_num_ongoing_def max_num_of_requests_def Let_def
      divide_le_eq_1 of_int_le_1_iff)

lemma get_metrics_load_witness:
  "get_metrics \<lparr>request_submitted = 70, request_finished = 45\<rparr> = 25 / 100"
  using get_metrics_load [of "\<lparr>request_submitted = 70, request_finished = 45\<rparr>"]
  by (simp add: get_num_ongoing_def)

end
