(* ===== verification/Kafka.thy ===== *)
theory Kafka
  imports Prelude "HOL-Library.Word"
begin

text \<open>
  The Kafka producer of the server (\<open>KafkaProducer.cpp\<close>, \<open>kafka.h\<close>). The broker library is
  outside the repository: whether \<open>produce\<close> accepts a message and which events a \<open>poll\<close>
  delivers are arguments. The state is the flag \<open>run\<close> and the queue of messages the library has
  accepted and not yet delivered (\<open>outq_len\<close> is its length).
\<close>

named_theorems kafka_simps "the Kafka producer"

subsection \<open>Producer\<close>

record kafka =
  k_run :: bool
  k_outq :: "bytes list"

text \<open>The events \<open>event_cb\<close> distinguishes; an error says whether all brokers are down.\<close>

datatype kafka_event = EvError bool | EvStats | EvLog | EvOther

fun event_cb :: "kafka_event \<Rightarrow> bool \<Rightarrow> bool" where
  "event_cb (EvError all_brokers_down) run = (if all_brokers_down then False else run)"
| "event_cb EvStats run = run"
| "event_cb EvLog run = run"
| "event_cb EvOther run = run"

text \<open>A \<open>poll\<close> that delivers \<open>n\<close> of the accepted messages and calls back for the events.\<close>

definition poll :: "nat \<Rightarrow> kafka_event list \<Rightarrow> kafka \<Rightarrow> kafka" where
  "poll n evs k = k\<lparr>k_outq := drop n (k_outq k), k_run := fold event_cb evs (k_run k)\<rparr>"

text \<open>The constructor; \<open>run\<close> is true from the start of the program.\<close>

definition new_KafkaProducer :: "bool \<Rightarrow> bool \<Rightarrow> kafka res" where
  "new_KafkaProducer producer_ok topic_ok =
     (if \<not> producer_ok then Inl (Exit 1)
      else if \<not> topic_ok then Inl (Exit 1)
      else Inr \<lparr>k_run = True, k_outq = []\<rparr>)"

definition kafka_send ::
  "bool \<Rightarrow> nat \<Rightarrow> kafka_event list \<Rightarrow> bytes \<Rightarrow> int \<Rightarrow> kafka \<Rightarrow> kafka res" where
  "kafka_send produce_ok n evs message sz k =
     (if \<not> k_run k then Inr k
      else if sz < 0 then Inl OverRead
      else rbind (read_at 0 (nat sz) message) (\<lambda>payload.
        Inr (poll n evs (if produce_ok then k\<lparr>k_outq := k_outq k @ [payload]\<rparr> else k))))"

definition sendString :: "bool \<Rightarrow> nat \<Rightarrow> kafka_event list \<Rightarrow> string \<Rightarrow> kafka \<Rightarrow> kafka" where
  "sendString produce_ok n evs input k =
     (if \<not> k_run k then k
      else poll n evs (if produce_ok then k\<lparr>k_outq := k_outq k @ [input]\<rparr> else k))"

definition sigterm :: "kafka \<Rightarrow> kafka" where
  "sigterm k = k\<lparr>k_run := False\<rparr>"

text \<open>
  The destructor waits until the queue is empty or \<open>run\<close> falls; \<open>polls\<close> are the outcomes of
  the polls of its loop, and when they do not suffice it is still waiting (\<open>None\<close>).
\<close>

fun drain :: "(nat \<times> kafka_event list) list \<Rightarrow> kafka \<Rightarrow> kafka option" where
  "drain [] k = (if k_run k \<and> k_outq k \<noteq> [] then None else Some k)"
| "drain ((n, evs) # ps) k =
     (if k_run k \<and> k_outq k \<noteq> [] then drain ps (poll n evs k) else Some k)"

definition delete_KafkaProducer :: "(nat \<times> kafka_event list) list \<Rightarrow> kafka \<Rightarrow> kafka option" where
  "delete_KafkaProducer polls k = drain polls (k\<lparr>k_run := True\<rparr>)"

subsection \<open>Consumer callback and partitioner\<close>

datatype consume_err = TimedOut | NoError | PartitionEof | UnknownTopic | UnknownPartition | OtherErr

definition msg_consume :: "bool \<Rightarrow> consume_err \<Rightarrow> bool \<Rightarrow> bool" where
  "msg_consume exit_eof e run =
     (case e of
        TimedOut \<Rightarrow> run
      | NoError \<Rightarrow> run
      | PartitionEof \<Rightarrow> if exit_eof then False else run
      | UnknownTopic \<Rightarrow> False
      | UnknownPartition \<Rightarrow> False
      | OtherErr \<Rightarrow> False)"

text \<open>\<open>char\<close> is signed, so a byte above 127 is subtracted.\<close>

definition schar :: "char \<Rightarrow> int" where
  "schar c = (if (of_char c :: int) < 128 then of_char c else of_char c - 256)"

definition djb_hash :: "string \<Rightarrow> 32 word" where
  "djb_hash str = foldl (\<lambda>hash c. (push_bit 5 hash + hash) + word_of_int (schar c)) 5381 str"

text \<open>\<open>partition_cnt\<close> converts to unsigned for the remainder, and the result back to a 32-bit integer.\<close>

definition partitioner_cb :: "string \<Rightarrow> 32 word \<Rightarrow> 32 word" where
  "partitioner_cb key partition_cnt = djb_hash key mod partition_cnt"

subsection \<open>Lemmas\<close>

lemma fold_event_down: "\<not> run \<Longrightarrow> \<not> fold event_cb evs run"
proof (induction evs arbitrary: run)
  case (Cons e evs)
  have "\<not> event_cb e run" using Cons.prems by (cases e) simp_all
  with Cons.IH show ?case by simp
qed simp

lemma fold_event_up: "fold event_cb evs run \<longleftrightarrow> run \<and> EvError True \<notin> set evs"
proof (induction evs arbitrary: run)
  case (Cons e evs)
  then show ?case by (cases e) auto
qed simp

lemma poll_run [kafka_simps]: "k_run (poll n evs k) \<longleftrightarrow> k_run k \<and> EvError True \<notin> set evs"
  by (simp add: poll_def fold_event_up)

lemma poll_outq [kafka_simps]: "k_outq (poll n evs k) = drop n (k_outq k)"
  by (simp add: poll_def)

text \<open>A sequence of sends, with the outcome of each.\<close>

fun kafka_sends :: "(bool \<times> nat \<times> kafka_event list \<times> bytes) list \<Rightarrow> kafka \<Rightarrow> kafka res" where
  "kafka_sends [] k = Inr k"
| "kafka_sends ((ok, n, evs, m) # ms) k =
     rbind (kafka_send ok n evs m (int (length m)) k) (kafka_sends ms)"

lemma kafka_sends_down: "\<not> k_run k \<Longrightarrow> kafka_sends ms k = Inr k"
  by (induction ms k rule: kafka_sends.induct) (simp_all add: kafka_send_def)

text \<open>
  once the library has reported that all brokers are down, every later image is dropped without an error,
  and only the destructor sets the flag again.
\<close>

theorem brokers_down_drops_images:
  assumes "k_run k" and "kafka_send ok n evs m (int (length m)) k = Inr k'" and "EvError True \<in> set evs"
  shows "kafka_sends ms k' = Inr k' \<and> (\<exists>k''. delete_KafkaProducer [(length (k_outq k'), [])] k' = Some k'')"
proof -
  have "\<not> k_run k'"
    using assms by (auto simp: kafka_send_def res_simps kafka_simps)
  then show ?thesis
    by (auto simp: kafka_sends_down delete_KafkaProducer_def kafka_simps)
qed

lemma brokers_down_drops_images_witness:
  "kafka_sends [(True, 0, [], ''img2''), (True, 0, [], ''img3'')] \<lparr>k_run = False, k_outq = [''img1'']\<rparr> =
     Inr \<lparr>k_run = False, k_outq = [''img1'']\<rparr>"
  using brokers_down_drops_images [of "\<lparr>k_run = True, k_outq = []\<rparr>" True 0 "[EvError True]" "''img1''"
      "\<lparr>k_run = False, k_outq = [''img1'']\<rparr>" "[(True, 0, [], ''img2''), (True, 0, [], ''img3'')]"]
  by (simp add: kafka_send_def read_at_def poll_def)



subsection \<open>The hash\<close>

text \<open>The reference: the bytes as digits in base 33, after the seed.\<close>

fun poly33 :: "int \<Rightarrow> string \<Rightarrow> int" where
  "poly33 h [] = h"
| "poly33 h (c # s) = poly33 (33 * h + schar c) s"

lemma djb_fold: "foldl (\<lambda>hash c. (push_bit 5 hash + hash) + word_of_int (schar c)) (word_of_int h :: 32 word) s =
   word_of_int (poly33 h s)"
proof (induction s arbitrary: h)
  case (Cons c s)
  have "push_bit 5 (word_of_int h) + word_of_int h + word_of_int (schar c) =
      (word_of_int (33 * h + schar c) :: 32 word)"
    by (simp add: push_bit_eq_mult algebra_simps)
  with Cons [of "33 * h + schar c"] show ?case by simp
qed simp

text \<open>
  \<open>djb_hash\<close> is the base-33 polynomial of the signed bytes after the seed 5381, modulo 2^32, so every shift
  and addition may wrap; and the partition it chooses is below the number of partitions whenever
  there is one.
\<close>

theorem partitioner_polynomial:
  assumes "0 < partition_cnt"
  shows "uint (djb_hash key) = poly33 5381 key mod 2 ^ 32 \<and> partitioner_cb key partition_cnt < partition_cnt"
proof -
  have "djb_hash key = word_of_int (poly33 5381 key)"
    using djb_fold [of 5381 key] by (simp add: djb_hash_def)
  then have "uint (djb_hash key) = poly33 5381 key mod 2 ^ 32"
    by (simp add: uint_word_of_int)
  moreover have "partitioner_cb key partition_cnt < partition_cnt"
    using assms by (simp add: partitioner_cb_def word_mod_less_divisor)
  ultimately show ?thesis ..
qed

lemma partitioner_polynomial_witness:
  "uint (djb_hash ''ab'') = 5863208 \<and> partitioner_cb ''ab'' 7 < 7"
  using partitioner_polynomial [of 7 "''ab''"] by (simp add: schar_def)

end
