(* ===== verification/Spout.thy ===== *)
theory Spout
  imports CLib
begin

text \<open>
  The way to the Storm cluster: the server asks the spout finder for the spout's address with a
  UDP datagram (\<open>server_run\<close>), then passes every image on over a TCP connection
  (\<open>server_transmit\<close>); \<open>starter.cpp\<close> is a test program that does both once. Results of the
  socket calls are arguments; sockets and host entries are outside the model.
\<close>

named_theorems spout_simps "talking to the spout"

subsection \<open>Finding the spout\<close>

text \<open>
  The answer to \<open>where\<close>; \<open>None\<close> is a failed receive. \<open>NotReady\<close>: the finder knows no spout.
  After a receive error, or an empty datagram, the address stays what it was.
\<close>

datatype spout_answer = NotReady | SpoutAt string

definition spout_query :: bytes where
  "spout_query = ''where''"

definition find_spout :: "string \<Rightarrow> bytes option \<Rightarrow> spout_answer res" where
  "find_spout old received =
     (case received of
        None \<Rightarrow> Inr (SpoutAt old)
      | Some m \<Rightarrow>
          if m = [] then Inr (SpoutAt old)
          else (let buf = fill m (zeros 1024)
                in if NUL \<notin> set buf then Inl OverRead
                   else if cstr buf = ''none'' then Inr NotReady
                   else Inr (SpoutAt (cstr buf))))"

subsection \<open>Passing an image on\<close>

text \<open>
  What the calls return: whether a socket could be opened and the host found, and whether the
  two writes and the first read succeed. \<open>connect\<close> is repeated until it succeeds.
\<close>

record spout_env =
  e_socket :: bool
  e_host :: bool
  e_write_size :: bool
  e_read_reply :: bool
  e_write_img :: bool

text \<open>The message that announces the size: 100 bytes, cleared, with the size in decimal.\<close>

definition size_message :: "int \<Rightarrow> bytes res" where
  "size_message n = sprintf_buf (print_int n) (zeros 100)"

text \<open>
  One image over one connection. The result is what the spout receives and whether the calling
  thread goes on; an unknown host ends the process.
\<close>

definition spout_transfer :: "spout_env \<Rightarrow> bytes \<Rightarrow> int \<Rightarrow> (bytes list \<times> bool) res" where
  "spout_transfer e img n =
     (if \<not> e_socket e then Inr ([], False)
      else if \<not> e_host e then Inl (Exit 0)
      else rbind (size_message n) (\<lambda>msg.
        if \<not> e_write_size e then Inr ([], False)
        else if \<not> e_read_reply e then Inr ([msg], False)
        else if n < 0 then Inl OverRead
        else rbind (read_at 0 (nat n) img) (\<lambda>body.
          if \<not> e_write_img e then Inr ([msg], False) else Inr ([msg, body], True))))"

subsection \<open>The test program\<close>

text \<open>
  \<open>starter.cpp\<close>: what it sends to the spout, the text of the result it prints (\<open>None\<close>: a receive
  error) and its exit status. \<open>file\<close> is the sample image, if \<open>stat\<close> finds it, and \<open>opens\<close> tells
  whether \<open>fopen\<close>, after the size was announced, can open it; \<open>bind1\<close> and \<open>bind2\<close> are the two binds of its UDP port.
\<close>

record starter_result =
  st_sent :: "bytes list"
  st_printed :: "string option"
  st_status :: int

definition starter_fails :: "bytes list \<Rightarrow> int \<Rightarrow> starter_result res" where
  "starter_fails sent status = Inr \<lparr>st_sent = sent, st_printed = None, st_status = status\<rparr>"

text \<open>Announcing and sending the image: the file is opened only after the spout has answered.\<close>

definition starter_send :: "spout_env \<Rightarrow> bool \<Rightarrow> bytes \<Rightarrow> (bytes list \<times> bool) res" where
  "starter_send e opens img =
     spout_transfer (e\<lparr>e_write_img := opens \<and> e_write_img e\<rparr>) img (int (length img))"

text \<open>The result, received on the UDP port the program had bound and closed before.\<close>

definition starter_receive :: "bytes list \<Rightarrow> bool \<Rightarrow> bytes option \<Rightarrow> starter_result res" where
  "starter_receive sent bind2 result =
     (if \<not> bind2 then starter_fails sent 0
      else (case result of
        None \<Rightarrow> starter_fails sent 0
      | Some m \<Rightarrow>
          if m = [] then starter_fails sent 0
          else (let buf = fill m (zeros 1024)
                in if NUL \<notin> set buf then Inl OverRead
                   else Inr \<lparr>st_sent = sent, st_printed = Some (cstr buf), st_status = 0\<rparr>)))"

definition starter ::
  "bool \<Rightarrow> bytes option \<Rightarrow> spout_env \<Rightarrow> bytes option \<Rightarrow> bool \<Rightarrow> bool \<Rightarrow> bytes option \<Rightarrow> starter_result res" where
  "starter bind1 received e file opens bind2 result =
     (if \<not> bind1 then starter_fails [] 0
      else rbind (find_spout [] received) (\<lambda>a. case a of
        NotReady \<Rightarrow> starter_fails [] 0
      | SpoutAt ip \<Rightarrow>
          if \<not> e_socket e then starter_fails [] (-1)
          else if \<not> e_host e then Inl (Exit 0)
          else (case file of
            None \<Rightarrow> Inl (Exit 1)
          | Some img \<Rightarrow>
              rbind (starter_send e opens img) (\<lambda>(sent, ok).
                if \<not> ok then starter_fails sent (-1) else starter_receive sent bind2 result))))"

subsection \<open>Lemmas\<close>

lemma size_message_ok [spout_simps]:
  assumes "in_int32 n"
  shows "\<exists>m. size_message n = Inr m \<and> length m = 100 \<and> strtol_int (cstr m) = n"
proof -
  have "nat \<bar>n\<bar> < 10 ^ 10" using assms by (simp add: in_int32_def nat_less_iff abs_less_iff)
  then have "length (dec_nat (nat \<bar>n\<bar>)) \<le> 10" by (intro length_dec_nat_le) simp_all
  then have l: "length (print_int n) < 100" by (cases "n < 0") (simp_all add: print_int_def)
  then have m: "size_message n = Inr (print_int n @ NUL # drop (Suc (length (print_int n))) (zeros 100))"
    by (simp add: size_message_def sprintf_buf_ok)
  have "strtol_int (cstr (print_int n @ NUL # x)) = n" for x
    using assms by (simp add: strtol_int_print_int_0)
  with m l show ?thesis by simp
qed

text \<open>
  when every call succeeds, the spout receives exactly two messages, a decimal that \<open>strtol\<close> reads back as the
  size, in 100 bytes, and then the image itself; otherwise it never receives an image, and the
  calling thread ends.
\<close>

theorem spout_receives_image:
  assumes "in_int32 (int (length img))"
  shows "(e_socket e \<and> e_host e \<and> e_write_size e \<and> e_read_reply e \<and> e_write_img e \<longrightarrow>
      (\<exists>m. spout_transfer e img (int (length img)) = Inr ([m, img], True) \<and> length m = 100 \<and>
           strtol_int (cstr m) = int (length img))) \<and>
     (\<forall>sent. spout_transfer e img (int (length img)) = Inr (sent, False) \<longrightarrow> length sent \<le> 1)"
proof -
  from size_message_ok [OF assms] obtain m where
    "size_message (int (length img)) = Inr m" "length m = 100" "strtol_int (cstr m) = int (length img)"
    by blast
  then show ?thesis by (auto simp: spout_transfer_def read_at_def)
qed

lemma spout_receives_image_witness:
  "\<exists>m. spout_transfer \<lparr>e_socket = True, e_host = True, e_write_size = True,
       e_read_reply = True, e_write_img = True\<rparr> ''jpg'' 3 = Inr ([m, ''jpg''], True) \<and> strtol_int (cstr m) = 3"
proof -
  have "in_int32 (int (length ''jpg''))" by (simp add: in_int32_def)
  from spout_receives_image [OF this, of "\<lparr>e_socket = True, e_host = True, e_write_size = True,
       e_read_reply = True, e_write_img = True\<rparr>"] show ?thesis by auto
qed

lemma find_spout_name:
  assumes "no_nul host" and "host \<noteq> []" and "length host < 1024"
  shows "find_spout old (Some host) = Inr (if host = ''none'' then NotReady else SpoutAt host)"
proof -
  have "1024 - length host = Suc (1023 - length host)" using assms(3) by simp
  then have f: "fill host (zeros 1024) = host @ NUL # zeros (1023 - length host)"
    using assms(3) by (simp add: fill_fits zeros_def)
  have c: "cstr (fill host (zeros 1024)) = host" and n: "NUL \<in> set (fill host (zeros 1024))"
    unfolding f using assms(1) by simp_all
  show ?thesis unfolding find_spout_def Let_def option.case c using n assms(2) by auto
qed

text \<open>
  the test program, told the spout's host name, sends its sample image and prints the bolt's result text; told
  \<open>none\<close>, it sends nothing and ends with status 0.
\<close>

theorem starter_prints_result:
  assumes "no_nul host" and "host \<noteq> []" and "length host < 1024"
    and "e_socket e" and "e_host e" and "e_write_size e" and "e_read_reply e" and "e_write_img e"
    and "in_int32 (int (length img))" and "no_nul txt" and "txt \<noteq> []" and "length txt < 1024"
  shows "if host = ''none'' then starter True (Some host) e (Some img) True True (Some txt) = starter_fails [] 0
     else \<exists>m. starter True (Some host) e (Some img) True True (Some txt) =
       Inr \<lparr>st_sent = [m, img], st_printed = Some txt, st_status = 0\<rparr>"
proof -
  note f = find_spout_name [OF assms(1-3), of "[]"]
  from size_message_ok [OF assms(9)] obtain m where "size_message (int (length img)) = Inr m" by blast
  then have t: "spout_transfer (e\<lparr>e_write_img := True\<rparr>) img (int (length img)) = Inr ([m, img], True)"
    using assms(4-8) by (simp add: spout_transfer_def read_at_def)
  have "1024 - length txt = Suc (1023 - length txt)" using assms(12) by simp
  then have g: "fill txt (zeros 1024) = txt @ NUL # zeros (1023 - length txt)"
    using assms(12) by (simp add: fill_fits zeros_def)
  show ?thesis
    using f t g assms(4,5,8,11)
    by (cases "host = ''none''") (simp_all add: starter_def starter_send_def starter_receive_def cstr_NUL [OF assms(10)])
qed

lemma starter_prints_result_witness:
  "\<exists>m. starter True (Some ''10.0.0.1'') \<lparr>e_socket = True, e_host = True, e_write_size = True,
       e_read_reply = True, e_write_img = True\<rparr> (Some ''jpg'') True True (Some ''7,0,'') =
     Inr \<lparr>st_sent = [m, ''jpg''], st_printed = Some ''7,0,'', st_status = 0\<rparr>"
  using starter_prints_result [of "''10.0.0.1''" "\<lparr>e_socket = True, e_host = True, e_write_size = True,
       e_read_reply = True, e_write_img = True\<rparr>" "''jpg''" "''7,0,''"]
  by (simp add: in_int32_def)

end
