(* ===== verification/Server.thy ===== *)
theory Server
  imports ImgDB Results ImgTransfer Metrics Kafka Spout
begin

text \<open>
  The server's threads (\<open>server-OpenCV.cpp\<close>), cut at the points where they block. Its global
  variables and the heap objects they point to are the record \<open>server\<close>: an address is a
  number, a queue or semaphore that was deleted is undefined at its address, and using it is a
  fault. A reply appended to \<open>sv_out\<close> is one that left through the mode's network (\<open>write\<close>,
  \<open>MsgDistributor::send\<close> or \<open>MFPackager::sendResult\<close>).
\<close>

named_theorems server_simps "the operations of the server's threads"

subsection \<open>State\<close>

record config =
  tcp :: bool
  orbit :: bool
  mf :: bool
  storm :: bool
  use_kafka :: bool

record 'd server =
  process_sem :: nat
  sv_metrics :: metrics
  queue_map :: "string \<Rightarrow> nat option"
  sem_map :: "string \<Rightarrow> nat option"
  user_map :: "string \<Rightarrow> nat option"
  queues :: "nat \<Rightarrow> string list option"
  sems :: "nat \<Rightarrow> nat option"
  next_addr :: nat
  slots :: "nat \<Rightarrow> (int \<times> string) option"
  pics :: "string \<Rightarrow> bytes option"
  sv_out :: "(int \<times> bytes) list"
  sv_storm :: "bytes list"
  producer :: "kafka option"
  spout_ip :: string
  sv_db :: "'d img_db"
  sv_disk :: "'d disk"

definition init_server :: "nat \<Rightarrow> 'd img_db \<Rightarrow> 'd disk \<Rightarrow> 'd server" where
  "init_server max_image db dk =
     \<lparr>process_sem = max_image, sv_metrics = new_Metrics, queue_map = (\<lambda>_. None), sem_map = (\<lambda>_. None),
      user_map = (\<lambda>_. None), queues = (\<lambda>_. None), sems = (\<lambda>_. None), next_addr = 0,
      slots = (\<lambda>_. None), pics = (\<lambda>_. None), sv_out = [], sv_storm = [], producer = None, spout_ip = [], sv_db = db, sv_disk = dk\<rparr>"

definition reply :: "int \<Rightarrow> bytes \<Rightarrow> 'd server \<Rightarrow> 'd server" where
  "reply sock msg st = st\<lparr>sv_out := sv_out st @ [(sock, msg)]\<rparr>"

subsection \<open>Semaphores and queues on the heap\<close>

definition sem_post_at :: "nat \<Rightarrow> 'd server \<Rightarrow> 'd server res" where
  "sem_post_at s st =
     (case sems st s of None \<Rightarrow> Inl NullPointer | Some n \<Rightarrow> Inr (st\<lparr>sems := (sems st)(s \<mapsto> Suc n)\<rparr>))"

text \<open>\<open>Inr None\<close>: the semaphore is at 0 and the thread blocks.\<close>

definition sem_wait_at :: "nat \<Rightarrow> 'd server \<Rightarrow> 'd server option res" where
  "sem_wait_at s st =
     (case sems st s of
        None \<Rightarrow> Inl NullPointer
      | Some 0 \<Rightarrow> Inr None
      | Some (Suc n) \<Rightarrow> Inr (Some (st\<lparr>sems := (sems st)(s \<mapsto> n)\<rparr>)))"

definition push_image :: "nat \<Rightarrow> string \<Rightarrow> 'd server \<Rightarrow> 'd server res" where
  "push_image a name st =
     (case queues st a of None \<Rightarrow> Inl NullPointer
      | Some q \<Rightarrow> Inr (st\<lparr>queues := (queues st)(a \<mapsto> q @ [name])\<rparr>))"

definition pop_image :: "nat \<Rightarrow> 'd server \<Rightarrow> (string \<times> 'd server) res" where
  "pop_image a st =
     (case queues st a of
        None \<Rightarrow> Inl NullPointer
      | Some [] \<Rightarrow> Inl EmptyContainer
      | Some (x # q) \<Rightarrow> Inr (x, st\<lparr>queues := (queues st)(a \<mapsto> q)\<rparr>))"

subsection \<open>serverThread: logging in\<close>

datatype login = Rejected | DoTransmit string | DoResult string | Unknown | LoginClosed

text \<open>\<open>None\<close> is a failed read.\<close>

definition login_header :: "bytes \<Rightarrow> (string \<times> string) res" where
  "login_header buffer =
     (if NUL \<notin> set buffer then Inl OverRead
      else (case strtok '','' buffer 0 of
              None \<Rightarrow> Inl NullPointer
            | Some t \<Rightarrow> (case strtok '','' (tok_buf t) (tok_next t) of
                 None \<Rightarrow> Inl NullPointer
               | Some t' \<Rightarrow> Inr (tok t, tok t'))))"

definition login_dispatch :: "string \<Rightarrow> string \<Rightarrow> login" where
  "login_dispatch threadType userID =
     (if threadType = ''transmit'' then DoTransmit userID
      else if threadType = ''result'' then DoResult userID
      else Unknown)"

definition serverThread :: "config \<Rightarrow> bytes option \<Rightarrow> int \<Rightarrow> 'd server \<Rightarrow> (login \<times> 'd server) res" where
  "serverThread cfg received sock st =
     (if tcp cfg \<and> received = None then Inr (LoginClosed, st)
      else rbind (login_header (fill (case received of None \<Rightarrow> [] | Some m \<Rightarrow> m) (zeros 100)))
        (\<lambda>(threadType, userID).
          case user_map st userID of
            None \<Rightarrow> Inr (login_dispatch threadType userID, st\<lparr>user_map := (user_map st)(userID \<mapsto> 1)\<rparr>)
          | Some n \<Rightarrow>
              if n = 1
              then Inr (login_dispatch threadType userID, st\<lparr>user_map := (user_map st)(userID \<mapsto> 2)\<rparr>)
              else Inr (Rejected, reply sock (''failed'' @ [NUL]) st)))"

text \<open>\<open>mfThread\<close> logs both of its threads in under the name \<open>mf\<close>, with socket 0.\<close>

definition mfThread :: "int \<Rightarrow> 'd server \<Rightarrow> login \<times> 'd server" where
  "mfThread type st =
     (let st' = st\<lparr>user_map := (user_map st)(''mf'' \<mapsto> 2)\<rparr>
      in (if type = 0 then DoResult ''mf'' else if type = 1 then DoTransmit ''mf'' else LoginClosed, st'))"

subsection \<open>server_result\<close>

abbreviation ok_msg :: bytes where
  "ok_msg \<equiv> ''ok'' @ [NUL]"

text \<open>
  Up to the loop: a semaphore on the heap, entered into \<open>sem_map\<close>, and the answer to the client,
  whose failure ends the process. Returns the address of the semaphore.
\<close>

definition server_result_init ::
  "config \<Rightarrow> int \<Rightarrow> string \<Rightarrow> bool \<Rightarrow> 'd server \<Rightarrow> (nat \<times> 'd server) res" where
  "server_result_init cfg sock userID write_ok st =
     (let s = next_addr st;
          st1 = st\<lparr>sems := (sems st)(s \<mapsto> 0), next_addr := Suc s, sem_map := (sem_map st)(userID \<mapsto> s)\<rparr>
      in if tcp cfg \<and> \<not> write_ok then Inl (Exit 1)
         else Inr (s, if tcp cfg \<or> orbit cfg then reply sock ok_msg st1 else st1))"

datatype wake = ClientGone | ImageReady nat

text \<open>
  One wait. The address of the queue is looked up the first time; an empty queue after the
  semaphore means that the client is gone: the user is logged out, semaphore and queue are
  deleted, and the thread returns, so that its stack frame with \<open>trans_info\<close> is gone too.
\<close>

definition result_wait ::
  "string \<Rightarrow> nat \<Rightarrow> nat option \<Rightarrow> 'd server \<Rightarrow> (wake \<times> 'd server) option res" where
  "result_wait userID sem_match imgQueue st =
     rbind (sem_wait_at sem_match st) (\<lambda>r. case r of
       None \<Rightarrow> Inr None
     | Some st1 \<Rightarrow>
         (case (case imgQueue of Some a \<Rightarrow> Some a | None \<Rightarrow> queue_map st1 userID) of
            None \<Rightarrow> Inl NullPointer
          | Some a \<Rightarrow>
              (case queues st1 a of
                 None \<Rightarrow> Inl NullPointer
               | Some [] \<Rightarrow>
                   Inr (Some (ClientGone,
                     st1\<lparr>sem_map := (sem_map st1)(userID := None),
                         queue_map := (queue_map st1)(userID := None),
                         user_map := (user_map st1)(userID := None),
                         sems := (sems st1)(sem_match := None), queues := (queues st1)(a := None),
                         slots := (slots st1)(sem_match := None)\<rparr>))
               | Some (_ # _) \<Rightarrow> Inr (Some (ImageReady a, st1)))))"

text \<open>
  The hand-over to \<open>result_child\<close>: a permit of \<open>process_sem\<close>, the front of the queue, and the
  loop-local \<open>trans_info\<close>, whose address the new thread gets. It is the same variable in every
  round, so the model gives each result thread one slot (the address of its semaphore).
\<close>

definition result_dispatch :: "int \<Rightarrow> nat \<Rightarrow> nat \<Rightarrow> 'd server \<Rightarrow> 'd server option res" where
  "result_dispatch sock slot a st =
     (if process_sem st = 0 then Inr None
      else rbind (pop_image a (st\<lparr>process_sem := process_sem st - 1\<rparr>)) (\<lambda>(name, st1).
        if 100 \<le> length name then Inl BufferOverflow
        else Inr (Some (st1\<lparr>slots := (slots st1)(slot \<mapsto> (sock, name))\<rparr>))))"

text \<open>
  With Storm, results come as datagrams on a port that only one socket can be bound to. When
  \<open>bind\<close> fails the thread deletes its semaphore, which stays in \<open>sem_map\<close>, and ends (False).
\<close>

definition server_result_bind :: "config \<Rightarrow> bool \<Rightarrow> nat \<Rightarrow> 'd server \<Rightarrow> bool \<times> 'd server" where
  "server_result_bind cfg bind_ok sem_match st =
     (if storm cfg \<and> \<not> bind_ok then (False, st\<lparr>sems := (sems st)(sem_match := None)\<rparr>) else (True, st))"

text \<open>The Storm branch: the result comes as a datagram (\<open>None\<close>: receive error). False: the thread ended.\<close>

definition result_storm ::
  "config \<Rightarrow> int \<Rightarrow> nat \<Rightarrow> bytes option \<Rightarrow> bool \<Rightarrow> (nat \<Rightarrow> char) \<Rightarrow> 'd server \<Rightarrow> (bool \<times> 'd server) res" where
  "result_storm cfg sock a datagram write_ok stack st =
     rbind (pop_image a st) (\<lambda>(name, st1).
       case datagram of
         None \<Rightarrow> rbind (finish_request (sv_metrics st1)) (\<lambda>m. Inr (True, st1\<lparr>sv_metrics := m\<rparr>))
       | Some d \<Rightarrow>
           rbind (storm_reply d (getInfo_index (sv_disk st1)) stack) (\<lambda>(idx, msg).
             if tcp cfg \<and> \<not> write_ok then Inr (False, st1)
             else rbind (finish_request (sv_metrics st1)) (\<lambda>m.
               Inr (True, reply sock msg (st1\<lparr>sv_metrics := m\<rparr>)))))"

subsection \<open>result_child\<close>

text \<open>OpenCV as \<open>result_child\<close> uses it; images are decoded from the files the server wrote.\<close>

record ('img, 'kp, 'd) vision =
  v_decode :: "bytes \<Rightarrow> 'img option"
  v_surf :: "int \<Rightarrow> 'img \<Rightarrow> 'kp list \<times> 'd list"
  v_knn :: "'d list option \<Rightarrow> 'd list \<Rightarrow> knn_row list"

definition imread_pics :: "('img, 'kp, 'd) vision \<Rightarrow> 'd server \<Rightarrow> string \<Rightarrow> 'img option" where
  "imread_pics v st path = (case pics st path of None \<Rightarrow> None | Some b \<Rightarrow> v_decode v b)"

text \<open>
  The whole thread. A failed \<open>write\<close> in TCP mode ends it in \<open>errorSocket\<close>, before the metrics
  are updated and before the permit is given back.
\<close>

definition result_child ::
  "('img, 'kp, 'd) vision \<Rightarrow> config \<Rightarrow> nat \<Rightarrow> bool \<Rightarrow> (nat \<Rightarrow> char) \<Rightarrow> 'd server \<Rightarrow> 'd server res" where
  "result_child v cfg slot write_ok stack st =
     (case slots st slot of
        None \<Rightarrow> Inl NullPointer
      | Some (sock, file_name) \<Rightarrow>
          (let (imgM, db) = new_ImgMatch 0 (sv_db st) :: ('img, 'kp, 'd, unit) img_match \<times> 'd img_db
           in rbind (matchImg (imread_pics v st) (v_surf v) (v_knn v) file_name db imgM) (\<lambda>imgM'.
             rbind (result_reply (getMatchedImgIndex imgM') (getInfo (sv_disk st) imgM') stack) (\<lambda>msg.
               if tcp cfg \<and> \<not> write_ok then Inr (st\<lparr>sv_db := db\<rparr>)
               else rbind (finish_request (sv_metrics st)) (\<lambda>m.
                 Inr ((reply sock msg st)\<lparr>sv_db := db, sv_metrics := m,
                                         process_sem := Suc (process_sem st)\<rparr>))))))"

subsection \<open>server_transmit\<close>

text \<open>Up to the loop. \<open>None\<close>: the answer could not be written and the thread ended.\<close>

definition server_transmit_init ::
  "config \<Rightarrow> int \<Rightarrow> string \<Rightarrow> bool \<Rightarrow> 'd server \<Rightarrow> nat option \<times> 'd server" where
  "server_transmit_init cfg sock userID write_ok st =
     (let a = next_addr st;
          st1 = st\<lparr>queues := (queues st)(a \<mapsto> []), next_addr := Suc a, queue_map := (queue_map st)(userID \<mapsto> a)\<rparr>
      in if tcp cfg \<and> \<not> write_ok then (None, st1)
         else (Some a, if tcp cfg \<or> orbit cfg then reply sock ok_msg st1 else st1))"

text \<open>The client is gone: the result thread is woken through a pointer that may still be null.\<close>

definition transmit_disconnect :: "nat option \<Rightarrow> 'd server \<Rightarrow> 'd server res" where
  "transmit_disconnect sem_match st =
     (case sem_match of None \<Rightarrow> Inl NullPointer | Some s \<Rightarrow> sem_post_at s st)"

text \<open>
  With Storm the image is passed on: to the Kafka producer, or to the spout over a connection of
  its own. \<open>sv_storm\<close> is what the spout has received. False: the thread returned.
\<close>

record storm_env =
  s_spout :: spout_env
  s_produced :: bool
  s_delivered :: nat
  s_events :: "kafka_event list"

definition transmit_pass :: "config \<Rightarrow> storm_env \<Rightarrow> bytes \<Rightarrow> 'd server \<Rightarrow> (bool \<times> 'd server) res" where
  "transmit_pass cfg e img st =
     (if use_kafka cfg
      then (case producer st of
              None \<Rightarrow> Inl NullPointer
            | Some k \<Rightarrow>
                rbind (kafka_send (s_produced e) (s_delivered e) (s_events e) img (int (length img)) k)
                  (\<lambda>k'. Inr (True, st\<lparr>producer := Some k'\<rparr>)))
      else rbind (spout_transfer (s_spout e) img (int (length img))) (\<lambda>(sent, ok).
             Inr (ok, st\<lparr>sv_storm := sv_storm st @ sent\<rparr>)))"

text \<open>
  An image has arrived. Without Storm it is written to the file the client named; if that file
  cannot be opened the loop ends and the queue is deleted (False). With Storm it is passed on; when
  that fails the thread returns and leaves the queue. Then the name is queued.
\<close>

definition transmit_image ::
  "config \<Rightarrow> nat \<Rightarrow> string \<Rightarrow> bytes \<Rightarrow> bool \<Rightarrow> storm_env \<Rightarrow> 'd server \<Rightarrow> (bool \<times> 'd server) res" where
  "transmit_image cfg a name img fopen_ok e st =
     rbind (submit_request (sv_metrics st)) (\<lambda>m.
       (let st1 = st\<lparr>sv_metrics := m\<rparr>
        in if \<not> storm cfg
           then if \<not> fopen_ok then Inr (False, st1\<lparr>queues := (queues st1)(a := None)\<rparr>)
                else rbind (push_image a name (st1\<lparr>pics := (pics st1)(name \<mapsto> img)\<rparr>)) (\<lambda>st2. Inr (True, st2))
           else rbind (transmit_pass cfg e img st1) (\<lambda>(ok, st2).
                if \<not> ok then Inr (False, st2)
                else rbind (push_image a name st2) (\<lambda>st3. Inr (True, st3)))))"

text \<open>The semaphore is looked up the first time, in a loop that waits until it is there.\<close>

definition transmit_signal :: "string \<Rightarrow> nat option \<Rightarrow> 'd server \<Rightarrow> (nat \<times> 'd server) option res" where
  "transmit_signal userID sem_match st =
     (case (case sem_match of Some s \<Rightarrow> Some s | None \<Rightarrow> sem_map st userID) of
        None \<Rightarrow> Inr None
      | Some s \<Rightarrow> rbind (sem_post_at s st) (\<lambda>st'. Inr (Some (s, st'))))"

text \<open>One request in TCP mode, from the announcement to the complete image.\<close>

definition transmit_receive_tcp ::
  "(nat \<Rightarrow> char) \<Rightarrow> bytes \<Rightarrow> recv_event list \<Rightarrow> (string \<times> bytes \<times> recv_event list) option res" where
  "transmit_receive_tcp heap announcement es =
     rbind (parse_header (fill announcement (zeros 1024))) (\<lambda>(name, fsize).
       rbind (tcp_receive heap fsize es) (\<lambda>r.
         Inr (map_option (\<lambda>(img, es'). (name, img, es')) r)))"

text \<open>One request in orbit mode; the wake-ups of failed receives need the semaphore.\<close>

definition transmit_receive_orbit ::
  "(nat \<Rightarrow> char) \<Rightarrow> bytes \<Rightarrow> recv_event list \<Rightarrow> (string \<times> bytes \<times> nat \<times> recv_event list) option res" where
  "transmit_receive_orbit heap announcement es =
     rbind (parse_header (fill (take 100 announcement) (zeros 4096))) (\<lambda>(name, fsize).
       rbind (orbit_receive heap fsize es) (\<lambda>r.
         Inr (map_option (\<lambda>(img, wakes, es'). (name, img, wakes, es')) r)))"

text \<open>One request in new orbit mode; the server numbers the files itself.\<close>

definition transmit_receive_mf ::
  "(nat \<Rightarrow> char) \<Rightarrow> (nat \<Rightarrow> char) \<Rightarrow> int \<Rightarrow> bytes option list \<Rightarrow>
     (string \<times> int \<times> bytes \<times> bytes option list) option res" where
  "transmit_receive_mf heap stack fake_index ms =
     rbind (mf_receive heap stack ms) (\<lambda>r.
       Inr (map_option (\<lambda>(img, ms'). (''pics/'' @ print_int fake_index @ ''.jpg'', fake_index + 1, img, ms')) r))"

end
