(* ===== verification/Startup.thy ===== *)
theory Startup
  imports MsgDistributor Server
begin

text \<open>
  How the server process starts and ends: \<open>main\<close>, \<open>server_run\<close>, \<open>server_main\<close> and
  \<open>signal_handler\<close> of \<open>server-OpenCV.cpp\<close>. What \<open>getopt_long_only\<close> returns is a list of
  options; the system calls' results are the record \<open>boot_env\<close>. A process that is set up is the
  record \<open>process\<close>: its modes, the network objects and the shared state of its threads.
\<close>

named_theorems boot_simps "parsing options and starting the server"

subsection \<open>Options\<close>

text \<open>An option with its index in \<open>long_options\<close> and its argument, or the answer \<open>'?'\<close>.\<close>

datatype opt = Opt nat string | Unrecognised

record server_args =
  sa_cfg :: config
  sa_debug :: int
  sa_src_GUID :: int
  sa_dst_GUID :: int
  sa_train :: bool
  sa_max_image :: int

definition default_args :: server_args where
  "default_args =
     \<lparr>sa_cfg = \<lparr>tcp = True, orbit = False, mf = False, storm = False, use_kafka = False\<rparr>,
      sa_debug = 0, sa_src_GUID = -1, sa_dst_GUID = -1, sa_train = False, sa_max_image = 5\<rparr>"

text \<open>\<open>None\<close>: help or version was printed and \<open>main\<close> returns 0.\<close>

definition server_option :: "nat \<Rightarrow> string \<Rightarrow> server_args \<Rightarrow> server_args option" where
  "server_option option_index optarg sa =
     (if option_index \<in> {0, 1, 2, 3} then None
      else if option_index = 4 then Some (sa\<lparr>sa_cfg := (sa_cfg sa)\<lparr>orbit := True, tcp := False\<rparr>\<rparr>)
      else if option_index = 5 then Some (sa\<lparr>sa_debug := 1\<rparr>)
      else if option_index = 6 then Some (sa\<lparr>sa_src_GUID := strtol_int optarg\<rparr>)
      else if option_index = 7 then Some (sa\<lparr>sa_dst_GUID := strtol_int optarg\<rparr>)
      else if option_index = 8 then Some (sa\<lparr>sa_cfg := (sa_cfg sa)\<lparr>storm := True\<rparr>\<rparr>)
      else if option_index = 9 then Some (sa\<lparr>sa_train := True\<rparr>)
      else if option_index = 10 then Some (sa\<lparr>sa_max_image := strtol_int optarg\<rparr>)
      else if option_index = 11 then Some (sa\<lparr>sa_cfg := (sa_cfg sa)\<lparr>use_kafka := True\<rparr>\<rparr>)
      else if option_index = 12 then Some (sa\<lparr>sa_cfg := (sa_cfg sa)\<lparr>mf := True, tcp := False\<rparr>\<rparr>)
      else None)"

fun server_options :: "opt list \<Rightarrow> server_args \<Rightarrow> server_args option" where
  "server_options [] sa = Some sa"
| "server_options (Unrecognised # opts) sa = None"
| "server_options (Opt i a # opts) sa =
     (case server_option i a sa of None \<Rightarrow> None | Some o' \<Rightarrow> server_options opts o')"

subsection \<open>server_main\<close>

text \<open>
  \<open>b_signal\<close>, \<open>b_mutex\<close>: the handler could be registered, the locks initialised. \<open>b_mfopen\<close> and
  \<open>b_md_mutex\<close> go to the network objects. \<open>b_udp\<close>, \<open>b_answer\<close>: the bind and the datagram of the
  spout finder. \<open>b_producer\<close>, \<open>b_topic\<close>: the Kafka library. \<open>b_listen\<close>: socket, bind and listen.
\<close>

record boot_env =
  b_signal :: bool
  b_mutex :: bool
  b_mfopen :: int
  b_md_mutex :: bool
  b_udp :: bool
  b_answer :: "bytes option"
  b_producer :: bool
  b_topic :: bool
  b_listen :: bool

datatype thread_start = ServerThread int | MfThread int

text \<open>\<open>accepts\<close> are the sockets \<open>accept\<close> returned; a negative one is ignored and the loop goes on.\<close>

definition server_main :: "config \<Rightarrow> boot_env \<Rightarrow> int list \<Rightarrow> thread_start list res" where
  "server_main cfg e accepts =
     (if tcp cfg
      then if \<not> b_listen e then Inl (Exit 1)
           else Inr (map ServerThread (filter (\<lambda>k. \<not> k < 0) accepts))
      else if orbit cfg then Inr (map ServerThread (filter (\<lambda>k. \<not> k < 0) accepts))
      else if mf cfg then Inr [MfThread 0, MfThread 1]
      else Inr [])"

text \<open>The logins of the threads, one after the other; \<open>header\<close> is what is read on a socket.\<close>

fun run_logins ::
  "config \<Rightarrow> (int \<Rightarrow> bytes option) \<Rightarrow> thread_start list \<Rightarrow> 'd server \<Rightarrow> (login list \<times> 'd server) res" where
  "run_logins cfg header [] st = Inr ([], st)"
| "run_logins cfg header (ServerThread k # ts) st =
     rbind (serverThread cfg (header k) k st) (\<lambda>(l, st1).
       rbind (run_logins cfg header ts st1) (\<lambda>(ls, st2). Inr (l # ls, st2)))"
| "run_logins cfg header (MfThread type # ts) st =
     (let (l, st1) = mfThread type st
      in rbind (run_logins cfg header ts st1) (\<lambda>(ls, st2). Inr (l # ls, st2)))"

subsection \<open>server_run\<close>

text \<open>Up to \<open>server_main\<close>; \<open>None\<close>: it returned early and the process ends with status 0.\<close>

definition server_run :: "config \<Rightarrow> boot_env \<Rightarrow> 'd server \<Rightarrow> 'd server option res" where
  "server_run cfg e st =
     rbind (if use_kafka cfg
            then rbind (new_KafkaProducer (b_producer e) (b_topic e)) (\<lambda>k. Inr (st\<lparr>producer := Some k\<rparr>))
            else Inr st) (\<lambda>st1.
       if storm cfg \<and> \<not> use_kafka cfg
       then if \<not> b_udp e then Inr None
            else rbind (find_spout (spout_ip st1) (b_answer e)) (\<lambda>r. case r of
                   NotReady \<Rightarrow> Inr None
                 | SpoutAt ip \<Rightarrow> Inr (Some (st1\<lparr>spout_ip := ip\<rparr>)))
       else if \<not> storm cfg
       then Inr (Some (st1\<lparr>sv_db := init_matchImg ''./indexImgTable'' ''ImgIndex.yml'' ''/demo/info/''
                                     (sv_disk st1) (sv_db st1)\<rparr>))
       else Inr (Some st1))"

subsection \<open>main\<close>

text \<open>
  \<open>sem_init\<close> refuses a value above \<open>SEM_VALUE_MAX\<close>, to which a negative \<open>int\<close> converts; the
  program reports that and goes on with the semaphore as it is, a zeroed global.
\<close>

definition init_permits :: "int \<Rightarrow> nat" where
  "init_permits max_image = (if max_image < 0 then 0 else nat max_image)"

record 'd process =
  p_cfg :: config
  p_msgd :: msgd
  p_pack :: "mfpackager option"
  p_listener :: bool
  p_server :: "'d server"

datatype 'd boot = Returned int | Trained "'d disk" | Started "'d process"

text \<open>The network object of the mode, in \<open>orbit\<close> even when \<open>mf\<close> is also set.\<close>

definition init_network :: "server_args \<Rightarrow> boot_env \<Rightarrow> (msgd \<times> mfpackager option) res" where
  "init_network sa e =
     (if \<not> orbit (sa_cfg sa) \<and> \<not> mf (sa_cfg sa) then Inr (new_msgd, None)
      else if sa_src_GUID sa = -1 \<or> sa_dst_GUID sa = -1 then Inl (Exit 1)
      else if orbit (sa_cfg sa)
      then rbind (init (sa_src_GUID sa) (sa_dst_GUID sa) (sa_debug sa) (b_mfopen e) (b_md_mutex e) new_msgd)
             (\<lambda>(md, _). Inr (md, None))
      else rbind (new_MFPackager (sa_src_GUID sa) (sa_dst_GUID sa) (sa_debug sa) (b_mfopen e))
             (\<lambda>p. Inr (new_msgd, Some p)))"

definition server_boot ::
  "(string \<Rightarrow> 'img option) \<Rightarrow> (int \<Rightarrow> 'img \<Rightarrow> 'kp list \<times> 'd list) \<Rightarrow> boot_env \<Rightarrow> opt list \<Rightarrow>
   'd disk \<Rightarrow> 'd boot res" where
  "server_boot imread surf e opts dk =
     (case server_options opts default_args of
        None \<Rightarrow> Inr (Returned 0)
      | Some sa \<Rightarrow>
          if tcp (sa_cfg sa) \<and> \<not> b_signal e then Inl (Exit 1)
          else if \<not> b_mutex e then Inr (Returned 1)
          else rbind (init_network sa e) (\<lambda>(md, pack).
            if sa_train sa
            then rbind (init_DB imread surf 100 ''/demo/img/'' ''./indexImgTable'' ''ImgIndex.yml'' init_statics dk)
                   (\<lambda>(db, dk'). Inr (Trained dk'))
            else rbind (server_run (sa_cfg sa) e (init_server (init_permits (sa_max_image sa)) init_statics dk))
                   (\<lambda>r. case r of
                      None \<Rightarrow> Inr (Returned 0)
                    | Some st \<Rightarrow> Inr (Started \<lparr>p_cfg = sa_cfg sa, p_msgd = md, p_pack = pack,
                                               p_listener = orbit (sa_cfg sa), p_server = st\<rparr>))))"

subsection \<open>signal_handler\<close>

text \<open>
  The handler deletes the Kafka producer first, which waits for its queue (\<open>None\<close>: it is still
  waiting after the given polls), and ends the process with status 0.
\<close>

definition signal_handler ::
  "config \<Rightarrow> (nat \<times> kafka_event list) list \<Rightarrow> 'd server \<Rightarrow> unit option res" where
  "signal_handler cfg polls st =
     (if use_kafka cfg
      then (case producer st of
              None \<Rightarrow> Inl (Exit 0)
            | Some k \<Rightarrow> (case delete_KafkaProducer polls k of None \<Rightarrow> Inr None | Some _ \<Rightarrow> Inl (Exit 0)))
      else Inl (Exit 0))"

end
