(* ===== verification/Client.thy ===== *)
theory Client
  imports Startup
begin

text \<open>
  The client (\<open>client-OpenCV.cpp\<close>). Its globals are the record \<open>client\<close>; each thread is cut into
  the steps between two waits. Drawing, the camera and the JPEG encoder are outside the model:
  a frame is known only as empty or not, and the files of the client's disk are arguments.
\<close>

named_theorems client_simps "the operations of the client's threads"

subsection \<open>Globals and options\<close>

record client =
  cl_tcp :: bool
  cl_orbit :: bool
  cl_mf :: bool
  cl_sb :: bool
  cl_test :: bool
  cl_consume :: bool
  cl_debug :: int
  cl_size_per_time :: int
  cl_fake_id :: int
  cl_delay_time :: int
  cl_userID :: string
  cl_src_GUID :: int
  cl_dst_GUID :: int
  cl_global_dst_GUID :: int
  cl_id_set :: "int list"
  cl_timeQueue :: "nat list"
  cl_stopped :: bool

definition init_client :: client where
  "init_client =
     \<lparr>cl_tcp = True, cl_orbit = False, cl_mf = False, cl_sb = False, cl_test = False, cl_consume = False,
      cl_debug = 0, cl_size_per_time = 1, cl_fake_id = 0, cl_delay_time = 0, cl_userID = ''default'',
      cl_src_GUID = -1, cl_dst_GUID = -1, cl_global_dst_GUID = 0, cl_id_set = [], cl_timeQueue = [],
      cl_stopped = False\<rparr>"

definition client_option :: "nat \<Rightarrow> string \<Rightarrow> client \<Rightarrow> client option" where
  "client_option option_index optarg c =
     (if option_index \<in> {0, 1, 2, 3} then None
      else if option_index = 4 then Some (c\<lparr>cl_userID := cstr optarg\<rparr>)
      else if option_index = 5 then Some (c\<lparr>cl_orbit := True, cl_tcp := False\<rparr>)
      else if option_index = 6 then Some (c\<lparr>cl_debug := 1\<rparr>)
      else if option_index = 7 then Some (c\<lparr>cl_src_GUID := strtol_int optarg\<rparr>)
      else if option_index = 8
      then Some (c\<lparr>cl_dst_GUID := strtol_int optarg, cl_global_dst_GUID := strtol_int optarg\<rparr>)
      else if option_index = 9 then Some (c\<lparr>cl_delay_time := strtol_int optarg, cl_test := True\<rparr>)
      else if option_index = 10 then Some (c\<lparr>cl_sb := True\<rparr>)
      else if option_index = 11 then Some (c\<lparr>cl_consume := True\<rparr>)
      else if option_index = 12 then Some (c\<lparr>cl_size_per_time := strtol_int optarg\<rparr>)
      else if option_index = 13 then Some (c\<lparr>cl_mf := True, cl_tcp := False\<rparr>)
      else None)"

fun client_options :: "opt list \<Rightarrow> client \<Rightarrow> client option" where
  "client_options [] c = Some c"
| "client_options (Unrecognised # opts) c = None"
| "client_options (Opt i a # opts) c =
     (case client_option i a c of None \<Rightarrow> None | Some c' \<Rightarrow> client_options opts c')"

datatype client_thread = ResultThread | DisplayThread | ListenThread | TestThread

definition client_run :: "client \<Rightarrow> client_thread list" where
  "client_run c =
     [ResultThread, DisplayThread] @ (if cl_orbit c then [ListenThread] else []) @
     (if cl_test c then [TestThread] else [])"

datatype client_boot = ClientReturned int | ClientRuns client msgd "mfpackager option" "client_thread list"

definition client_main :: "int \<Rightarrow> bool \<Rightarrow> opt list \<Rightarrow> client_boot res" where
  "client_main mfopen_ret mutex_ok opts =
     (case client_options opts init_client of
        None \<Rightarrow> Inr (ClientReturned 0)
      | Some c \<Rightarrow>
          if \<not> cl_orbit c \<and> \<not> cl_mf c then Inr (ClientRuns c new_msgd None (client_run c))
          else if cl_src_GUID c = -1 \<or> cl_dst_GUID c = -1 then Inl (Exit 1)
          else if cl_orbit c
          then rbind (init (cl_src_GUID c) (cl_dst_GUID c) (cl_debug c) mfopen_ret mutex_ok new_msgd)
                 (\<lambda>(md, _). Inr (ClientRuns c md None (client_run c)))
          else rbind (new_MFPackager (cl_src_GUID c) (cl_dst_GUID c) (cl_debug c) mfopen_ret)
                 (\<lambda>p. Inr (ClientRuns c new_msgd (Some p) (client_run c))))"

subsection \<open>Logging in\<close>

text \<open>
  The header both threads send first, printed into 100 bytes that were never initialised. The
  answer is read into 10 such bytes and compared with \<open>failed\<close>: seven bytes decide. \<open>None\<close> is a
  failed read.
\<close>

definition client_header :: "string \<Rightarrow> string \<Rightarrow> (nat \<Rightarrow> char) \<Rightarrow> bytes res" where
  "client_header kind userID stack = sprintf_buf (kind @ '','' @ userID) (stack_array 100 stack)"

definition client_login :: "(nat \<Rightarrow> char) \<Rightarrow> bytes option \<Rightarrow> unit res" where
  "client_login stack received =
     (case received of
        None \<Rightarrow> Inl (Exit 1)
      | Some m \<Rightarrow>
          if take 7 (fill m (stack_array 10 stack)) = ''failed'' @ [NUL] then Inl (Exit 1) else Inr ())"

text \<open>In orbit mode the socket is new and joins the set the program closes when it ends.\<close>

definition orbit_connected :: "int \<Rightarrow> client \<Rightarrow> client" where
  "orbit_connected sockfd c = c\<lparr>cl_id_set := List.insert sockfd (cl_id_set c)\<rparr>"

text \<open>
  What connecting meets: \<open>socket\<close>, the host entry and \<open>connect\<close>, or the socket of \<open>MsgD.connect\<close>; then
  whether the header was sent, and the answer.
\<close>

record login_env =
  le_socket :: bool
  le_host :: bool
  le_connect :: bool
  le_sock :: int
  le_sent :: bool
  le_reply :: "bytes option"
  le_stack :: "nat \<Rightarrow> char"
  le_stack2 :: "nat \<Rightarrow> char"

definition login_exchange :: "bytes \<Rightarrow> login_env \<Rightarrow> bytes res" where
  "login_exchange header e =
     (if \<not> le_sent e then Inl (Exit 1) else rbind (client_login (le_stack2 e) (le_reply e)) (\<lambda>_. Inr header))"

text \<open>Connecting over TCP. In debug mode the host's name is printed before the host is checked.\<close>

definition connect_tcp :: "client \<Rightarrow> login_env \<Rightarrow> unit res" where
  "connect_tcp c e =
     (if \<not> le_socket e then Inl (Exit 1)
      else if \<not> le_host e then (if cl_debug c \<noteq> 0 then Inl NullPointer else Inl (Exit 0))
      else if \<not> le_connect e then Inl (Exit 0)
      else Inr ())"

text \<open>The two threads up to their loops; the header that was sent, if any.\<close>

definition result_login :: "client \<Rightarrow> login_env \<Rightarrow> (bytes option \<times> client) res" where
  "result_login c e =
     rbind (client_header ''result'' (cl_userID c) (le_stack e)) (\<lambda>header.
       if cl_tcp c
       then rbind (connect_tcp c e) (\<lambda>_. rbind (login_exchange header e) (\<lambda>h. Inr (Some h, c)))
       else if cl_orbit c
       then rbind (login_exchange header e) (\<lambda>h. Inr (Some h, orbit_connected (le_sock e) c))
       else Inr (None, c))"

definition display_login :: "client \<Rightarrow> login_env \<Rightarrow> (bytes option \<times> client) res" where
  "display_login c e =
     (if cl_tcp c
      then rbind (client_header ''transmit'' (cl_userID c) (le_stack e)) (\<lambda>header.
        rbind (connect_tcp c e) (\<lambda>_. rbind (login_exchange header e) (\<lambda>h. Inr (Some h, c))))
      else if cl_orbit c
      then rbind (client_header ''transmit'' (cl_userID c) (le_stack e)) (\<lambda>header.
        if le_sock e < 0 then Inl (Exit 0)
        else rbind (login_exchange header e) (\<lambda>h. Inr (Some h, orbit_connected (le_sock e) c)))
      else Inr (None, c))"

subsection \<open>Sending one picture: transmit_child\<close>

text \<open>
  What one round of \<open>transmit_child\<close> meets: the file (\<open>None\<close>: \<open>stat\<close> fails), whether the
  announcement goes through, whether \<open>fopen\<close> succeeds, and how many blocks are sent before a
  \<open>send\<close> fails.
\<close>

record child_env =
  ce_file :: "bytes option"
  ce_io :: bool
  ce_opens :: bool
  ce_cut :: nat
  ce_stack :: "nat \<Rightarrow> char"

datatype upload = TcpUpload bytes "recv_event list" | OrbitUpload bytes "recv_event list"
  | MfUpload "bytes list" | NoUpload

definition next_fake_id :: "client \<Rightarrow> client res" where
  "next_fake_id c =
     (if cl_size_per_time c = 1 then Inr c
      else rbind (inc32 (cl_fake_id c)) (\<lambda>k. Inr (c\<lparr>cl_fake_id := k\<rparr>)))"

definition transmit_one :: "string \<Rightarrow> child_env \<Rightarrow> client \<Rightarrow> (upload \<times> client) res" where
  "transmit_one file_name e c =
     (if cl_tcp c \<or> cl_orbit c \<or> cl_mf c
      then (case ce_file e of
              None \<Rightarrow> Inl (Exit 1)
            | Some img \<Rightarrow>
                if cl_tcp c
                then rbind (announce_tcp (cl_size_per_time c) file_name (cl_fake_id c) (int (length img))) (\<lambda>ann.
                  rbind (next_fake_id c) (\<lambda>c'.
                    if \<not> ce_io e then Inl (Exit 1)
                    else if \<not> ce_opens e then Inl (Exit 0)
                    else Inr (TcpUpload ann (take (ce_cut e) (tcp_send img)), c')))
                else if cl_orbit c
                then rbind (announce_orbit (cl_size_per_time c) file_name (cl_fake_id c) (int (length img)) (ce_stack e)) (\<lambda>ann.
                  rbind (next_fake_id c) (\<lambda>c'.
                    if \<not> ce_io e then Inl (Exit 1)
                    else if \<not> ce_opens e then Inl (Exit 0)
                    else Inr (OrbitUpload ann (take (ce_cut e) (orbit_send img)), c')))
                else if \<not> ce_opens e then Inl (Exit 0)
                else rbind (sendImage img (int (length img)) (ce_stack e) (if ce_io e then 0 else -1)) (\<lambda>(ms, n).
                  if n < 0 then Inl (Exit 1) else Inr (MfUpload ms, c)))
      else Inr (NoUpload, c))"

text \<open>\<open>size_per_time\<close> rounds; \<open>env\<close> gives what the round with \<open>n\<close> more to come meets.\<close>

fun transmit_times ::
  "string \<Rightarrow> (nat \<Rightarrow> child_env) \<Rightarrow> nat \<Rightarrow> client \<Rightarrow> (upload list \<times> client) res" where
  "transmit_times file_name env 0 c = Inr ([], c)"
| "transmit_times file_name env (Suc n) c =
     rbind (transmit_one file_name (env n) c) (\<lambda>(u, c1).
       rbind (transmit_times file_name env n c1) (\<lambda>(us, c2). Inr (u # us, c2)))"

definition transmit_child ::
  "string \<Rightarrow> (nat \<Rightarrow> child_env) \<Rightarrow> nat \<Rightarrow> client \<Rightarrow> (upload list \<times> client) res" where
  "transmit_child file_name env now c =
     transmit_times file_name env (nat (cl_size_per_time c))
       (if cl_consume c then c\<lparr>cl_timeQueue := cl_timeQueue c @ [now]\<rparr> else c)"

subsection \<open>The display thread\<close>

text \<open>
  Its loops: a frame each in video mode, of which every 35th is sent; a tick each in test mode,
  of which every 10th sends a sample. A file name means that a transmit child was started with it.
\<close>

record display =
  ds_index :: int
  ds_count :: int

definition video_start :: display where
  "video_start = \<lparr>ds_index = 1, ds_count = 0\<rparr>"

definition video_step :: "string \<Rightarrow> bool \<Rightarrow> display \<Rightarrow> (string option \<times> display) res" where
  "video_step userID nonempty d =
     rbind (inc32 (ds_count d)) (\<lambda>count.
       if 35 \<le> count \<and> nonempty
       then rbind (sprintf_buf (''pics/'' @ userID @ ''-'' @ print_int (ds_index d) @ ''.jpg'') (zeros 100)) (\<lambda>file_name.
              rbind (inc32 (ds_index d)) (\<lambda>index.
                Inr (Some (cstr file_name), \<lparr>ds_index = index, ds_count = 0\<rparr>)))
       else Inr (None, d\<lparr>ds_count := count\<rparr>))"

definition test_start :: display where
  "test_start = \<lparr>ds_index = 1, ds_count = 9\<rparr>"

text \<open>\<open>bzero\<close> clears \<open>BUFFER_SIZE\<close> bytes from the start of the 100-byte name in \<open>trans_info\<close>.\<close>

definition test_step :: "(nat \<Rightarrow> char) \<Rightarrow> display \<Rightarrow> (string option \<times> display) res" where
  "test_step stack d =
     rbind (inc32 (ds_count d)) (\<lambda>count.
       if 10 \<le> count
       then rbind (sprintf_buf (''sample/'' @ print_int (ds_index d) @ ''.jpg'') (zeros 100)) (\<lambda>file_name.
              rbind (inc32 (ds_index d)) (\<lambda>index.
                let index' = (if 100 < index then 1 else index)
                in rbind (write_at 0 (zeros BUFFER_SIZE) (stack_array 100 stack)) (\<lambda>cleared.
                     rbind (write_at 0 (cstr file_name @ [NUL]) cleared) (\<lambda>trans.
                       Inr (Some (cstr trans), \<lparr>ds_index = index', ds_count = 0\<rparr>)))))
       else Inr (None, d\<lparr>ds_count := count\<rparr>))"

text \<open>What is painted over a frame: three texts and the four sides of the rectangle.\<close>

definition draw_frame ::
  "shown \<Rightarrow> (string list \<times> ((string \<times> string) \<times> (string \<times> string)) list) option" where
  "draw_frame ui =
     (if drawResult ui = 0 then None
      else (let p = (\<lambda>i. (coord ui ! (2 * i), coord ui ! (2 * i + 1)))
            in Some ([result_title ui, result_artist ui, result_date ui],
                     [(p 0, p 1), (p 1, p 2), (p 2, p 3), (p 3, p 0)])))"

text \<open>In test mode the index of a result is printed once.\<close>

definition test_report :: "shown \<Rightarrow> string option \<times> shown" where
  "test_report ui =
     (if drawResult ui = 0 then (None, ui)
      else (Some (''[test] Index: '' @ matchIndex ui), ui\<lparr>drawResult := 0\<rparr>))"

subsection \<open>The test thread\<close>

text \<open>A word from standard input, empty at the end of it.\<close>

definition test_input :: "string \<Rightarrow> client \<Rightarrow> client res" where
  "test_input input c =
     (if list_all is_digit input then rbind (stoi input) (\<lambda>v. Inr (c\<lparr>cl_delay_time := v\<rparr>)) else Inr c)"

subsection \<open>Ending\<close>

text \<open>In orbit mode every socket of the set is closed by a message to the server's GUID.\<close>

definition close_content :: "int \<Rightarrow> bytes res" where
  "close_content elem = sprintf_buf (''close,'' @ print_int elem) (zeros BUFFER_SIZE)"

fun close_contents :: "int list \<Rightarrow> bytes list res" where
  "close_contents [] = Inr []"
| "close_contents (i # is') = rbind (close_content i) (\<lambda>m. rbind (close_contents is') (\<lambda>ms. Inr (m # ms)))"

definition client_stop :: "client \<Rightarrow> bytes list res" where
  "client_stop c = (if cl_orbit c then close_contents (cl_id_set c) else Inr [])"

definition client_signal :: "client \<Rightarrow> (bytes list \<times> fault) res" where
  "client_signal c = rbind (client_stop (c\<lparr>cl_stopped := True\<rparr>)) (\<lambda>sent. Inr (sent, Exit 0))"

end
