(* ===== verification/Session.thy ===== *)
theory Session
  imports Server SemQueue
begin

text \<open>
  One user's session: the transmit thread and the result thread of the user, the children that
  match the images, and everything else that happens in the server meanwhile (\<open>others\<close>, which
  leaves this session's semaphore, queue, slot and map entries alone). Interleavings are a
  step relation; the invariant relates semaphore, queue and the positions of the two threads.
\<close>

subsection \<open>The hand-over as a semaphore queue\<close>

definition image_ok :: "nat \<Rightarrow> nat \<Rightarrow> 'd server \<Rightarrow> bool" where
  "image_ok s a st \<longleftrightarrow> (\<exists>q. queues st a = Some q \<and> sems st s = Some (length q))"

definition image_items :: "nat \<Rightarrow> 'd server \<Rightarrow> string list" where
  "image_items a st = (case queues st a of None \<Rightarrow> [] | Some q \<Rightarrow> q)"

definition image_count :: "nat \<Rightarrow> 'd server \<Rightarrow> nat" where
  "image_count s st = (case sems st s of None \<Rightarrow> 0 | Some n \<Rightarrow> n)"

definition put_image :: "nat \<Rightarrow> nat \<Rightarrow> string \<Rightarrow> 'd server \<Rightarrow> 'd server res" where
  "put_image s a name st = rbind (push_image a name st) (sem_post_at s)"

text \<open>A wait that does not block, then the pop.\<close>

definition get_image :: "nat \<Rightarrow> nat \<Rightarrow> 'd server \<Rightarrow> 'd server res" where
  "get_image s a st =
     rbind (sem_wait_at s st) (\<lambda>r. case r of None \<Rightarrow> Inr st
       | Some st1 \<Rightarrow> rbind (pop_image a st1) (\<lambda>(_, st2). Inr st2))"

interpretation imgq: sem_queue "image_items a" "image_count s" "put_image s a" "get_image s a" "image_ok s a"
  for s a
proof unfold_locales
  fix st st' :: "'d server" and x
  assume ok: "image_ok s a st"
  then obtain q where q: "queues st a = Some q" "sems st s = Some (length q)"
    by (auto simp: image_ok_def)
  show "image_count s st = length (image_items a st)"
    using q by (simp add: image_count_def image_items_def)
  have p: "put_image s a x st = Inr (st\<lparr>queues := (queues st)(a \<mapsto> q @ [x]), sems := (sems st)(s \<mapsto> Suc (length q))\<rparr>)"
    using q by (simp add: put_image_def push_image_def sem_post_at_def)
  then show "\<exists>s'. put_image s a x st = Inr s'" by blast
  show "image_ok s a st'" if "put_image s a x st = Inr st'"
    using that p by (auto simp: image_ok_def)
  show "image_items a st' = image_items a st @ [x]" if "put_image s a x st = Inr st'"
    using that p q by (auto simp: image_items_def)
  assume c: "0 < image_count s st"
  then obtain y q' where y: "q = y # q'" using q by (cases q) (auto simp: image_count_def)
  have g: "get_image s a st = Inr (st\<lparr>sems := (sems st)(s \<mapsto> length q'), queues := (queues st)(a \<mapsto> q')\<rparr>)"
    using q y by (simp add: get_image_def sem_wait_at_def pop_image_def)
  then show "\<exists>s'. get_image s a st = Inr s'" by blast
  show "image_ok s a st'" if "get_image s a st = Inr st'"
    using that g by (auto simp: image_ok_def)
  show "image_items a st = hd (image_items a st) # image_items a st'" if "get_image s a st = Inr st'"
    using that g q y by (auto simp: image_items_def)
qed

subsection \<open>Steps\<close>

text \<open>The positions of the two threads, with the pointers they have looked up so far.\<close>

datatype tpc = TRecv "nat option" | TSignal "nat option" | TGone

datatype rpc = RWait "nat option" | RDispatch nat | RGone

text \<open>\<open>received\<close> and \<open>popped\<close> record the names of the images queued and taken out so far.\<close>

record 'd session =
  srv :: "'d server"
  tpos :: tpc
  rpos :: rpc
  children :: nat
  received :: "string list"
  popped :: "string list"

text \<open>What the steps of other threads leave alone.\<close>

definition same_session :: "string \<Rightarrow> nat \<Rightarrow> nat \<Rightarrow> 'd server \<Rightarrow> 'd server \<Rightarrow> bool" where
  "same_session user s a st st' \<longleftrightarrow>
     sems st' s = sems st s \<and> queues st' a = queues st a \<and> slots st' s = slots st s \<and>
     queue_map st' user = queue_map st user \<and> sem_map st' user = sem_map st user \<and>
     user_map st' user = user_map st user"

text \<open>The steps of the session's own threads: transmit thread, result thread and children.\<close>

inductive own_step ::
  "('img, 'kp, 'd) vision \<Rightarrow> config \<Rightarrow> string \<Rightarrow> int \<Rightarrow> nat \<Rightarrow> nat \<Rightarrow> 'd session \<Rightarrow> 'd session \<Rightarrow> bool"
  for v cfg user sock s a
where
  image: "tpos x = TRecv so \<Longrightarrow> length name < 60 \<Longrightarrow>
      transmit_image cfg a name img True e (srv x) = Inr (True, st) \<Longrightarrow>
      own_step v cfg user sock s a x
        (x\<lparr>srv := st, tpos := TSignal so, received := received x @ [name]\<rparr>)"
| signal: "tpos x = TSignal so \<Longrightarrow> transmit_signal user so (srv x) = Inr (Some (s', st)) \<Longrightarrow>
      own_step v cfg user sock s a x (x\<lparr>srv := st, tpos := TRecv (Some s')\<rparr>)"
| disconnect: "tpos x = TRecv so \<Longrightarrow> transmit_disconnect so (srv x) = Inr st \<Longrightarrow>
      own_step v cfg user sock s a x (x\<lparr>srv := st, tpos := TGone\<rparr>)"
| wake: "rpos x = RWait q \<Longrightarrow> result_wait user s q (srv x) = Inr (Some (ImageReady a', st)) \<Longrightarrow>
      own_step v cfg user sock s a x (x\<lparr>srv := st, rpos := RDispatch a'\<rparr>)"
| gone: "rpos x = RWait q \<Longrightarrow> result_wait user s q (srv x) = Inr (Some (ClientGone, st)) \<Longrightarrow>
      own_step v cfg user sock s a x (x\<lparr>srv := st, rpos := RGone\<rparr>)"
| dispatch: "rpos x = RDispatch a' \<Longrightarrow> \<not> storm cfg \<Longrightarrow> result_dispatch sock s a' (srv x) = Inr (Some st) \<Longrightarrow>
      own_step v cfg user sock s a x
        (x\<lparr>srv := st, rpos := RWait (Some a'), children := Suc (children x),
           popped := popped x @ [hd (image_items a' (srv x))]\<rparr>)"
| storm_result: "rpos x = RDispatch a' \<Longrightarrow> storm cfg \<Longrightarrow>
      result_storm cfg sock a' datagram True stack (srv x) = Inr (True, st) \<Longrightarrow>
      own_step v cfg user sock s a x
        (x\<lparr>srv := st, rpos := RWait (Some a'), popped := popped x @ [hd (image_items a' (srv x))]\<rparr>)"
| child: "children x = Suc n \<Longrightarrow> result_child v cfg s write_ok stack (srv x) = Inr st \<Longrightarrow>
      own_step v cfg user sock s a x (x\<lparr>srv := st, children := n\<rparr>)"

inductive_cases own_stepE: "own_step v cfg user sock s a x y"

text \<open>
  The session among everything else that happens in the server. Once the result thread has ended,
  the session's name and entries belong to nobody.
\<close>

inductive sess_step ::
  "('img, 'kp, 'd) vision \<Rightarrow> config \<Rightarrow> string \<Rightarrow> int \<Rightarrow> nat \<Rightarrow> nat \<Rightarrow> 'd session \<Rightarrow> 'd session \<Rightarrow> bool"
  for v cfg user sock s a
where
  own: "own_step v cfg user sock s a x y \<Longrightarrow> sess_step v cfg user sock s a x y"
| others: "rpos x = RGone \<or> same_session user s a (srv x) st \<Longrightarrow>
      sess_step v cfg user sock s a x (x\<lparr>srv := st\<rparr>)"

inductive_cases sess_stepE: "sess_step v cfg user sock s a x y"

definition sess_start :: "string \<Rightarrow> nat \<Rightarrow> nat \<Rightarrow> 'd session \<Rightarrow> bool" where
  "sess_start user s a x \<longleftrightarrow>
     tpos x = TRecv None \<and> rpos x = RWait None \<and> children x = 0 \<and> received x = [] \<and> popped x = [] \<and>
     sems (srv x) s = Some 0 \<and> queues (srv x) a = Some [] \<and>
     queue_map (srv x) user = Some a \<and> sem_map (srv x) user = Some s"

inductive sess_reachable ::
  "('img, 'kp, 'd) vision \<Rightarrow> config \<Rightarrow> string \<Rightarrow> int \<Rightarrow> nat \<Rightarrow> nat \<Rightarrow> 'd session \<Rightarrow> bool"
  for v cfg user sock s a
where
  start: "sess_start user s a x \<Longrightarrow> sess_reachable v cfg user sock s a x"
| step: "sess_reachable v cfg user sock s a x \<Longrightarrow> sess_step v cfg user sock s a x y \<Longrightarrow>
      sess_reachable v cfg user sock s a y"

subsection \<open>The invariant\<close>

fun waits :: "tpc \<Rightarrow> nat" where
  "waits (TSignal so) = 1"
| "waits _ = 0"

fun ended :: "tpc \<Rightarrow> nat" where
  "ended TGone = 1"
| "ended _ = 0"

fun busy :: "rpc \<Rightarrow> nat" where
  "busy (RDispatch a) = 1"
| "busy _ = 0"

definition live_inv :: "string \<Rightarrow> nat \<Rightarrow> nat \<Rightarrow> 'd session \<Rightarrow> bool" where
  "live_inv user s a x \<longleftrightarrow>
     (\<exists>n q. sems (srv x) s = Some n \<and> queues (srv x) a = Some q \<and>
        received x = popped x @ q \<and> list_all (\<lambda>nm. length nm < 60) (received x) \<and>
        n + busy (rpos x) + waits (tpos x) = length q + ended (tpos x) \<and>
        (\<forall>b. rpos x = RDispatch b \<longrightarrow> b = a \<and> q \<noteq> [])) \<and>
     queue_map (srv x) user = Some a \<and> sem_map (srv x) user = Some s \<and>
     (\<forall>b. rpos x = RWait (Some b) \<longrightarrow> b = a) \<and>
     (\<forall>b. tpos x = TRecv (Some b) \<or> tpos x = TSignal (Some b) \<longrightarrow> b = s) \<and>
     (tpos x = TRecv None \<longleftrightarrow> received x = [])"

definition sess_inv :: "string \<Rightarrow> nat \<Rightarrow> nat \<Rightarrow> 'd session \<Rightarrow> bool" where
  "sess_inv user s a x \<longleftrightarrow>
     (if rpos x = RGone then tpos x = TGone \<and> popped x = received x else live_inv user s a x)"

lemma sess_inv_start: "sess_start user s a x \<Longrightarrow> sess_inv user s a x"
  by (simp add: sess_start_def sess_inv_def live_inv_def)

lemma result_child_frame [server_simps]:
  assumes "result_child v cfg slot ok stack st = Inr st'"
  shows "same_session user s a st st'"
  using assms
  by (auto simp: result_child_def same_session_def reply_def res_simps Let_def
      split: option.splits if_splits prod.splits)

lemma transmit_image_True [server_simps]:
  assumes "transmit_image cfg a name img True e st = Inr (True, st')" and "queues st a = Some q"
  shows "queues st' a = Some (q @ [name]) \<and> sems st' = sems st \<and> queue_map st' = queue_map st \<and>
     sem_map st' = sem_map st \<and> user_map st' = user_map st \<and> slots st' = slots st"
  using assms
  by (auto simp: transmit_image_def transmit_pass_def push_image_def Let_def res_simps split: if_splits option.splits)

lemma live_others:
  "live_inv user s a x \<Longrightarrow> same_session user s a (srv x) st \<Longrightarrow> live_inv user s a (x\<lparr>srv := st\<rparr>)"
  by (simp add: live_inv_def same_session_def)

end
