(* ===== verification/SessionInv.thy ===== *)
theory SessionInv
  imports Session
begin

text \<open>
  The session invariant is kept by every step, and in every reachable session no step of its
  two threads can fault, except the disconnect of a client that never sent an image.
\<close>

subsection \<open>Each step keeps the invariant\<close>

lemma live_image:
  assumes "live_inv user s a x" and "tpos x = TRecv so" and "length name < 60"
    and "transmit_image cfg a name img True e (srv x) = Inr (True, st)"
  shows "live_inv user s a (x\<lparr>srv := st, tpos := TSignal so, received := received x @ [name]\<rparr>)"
proof -
  from assms(1) obtain n q where nq: "sems (srv x) s = Some n" "queues (srv x) a = Some q"
    "received x = popped x @ q" "list_all (\<lambda>nm. length nm < 60) (received x)"
    "n + busy (rpos x) + waits (tpos x) = length q + ended (tpos x)"
    "\<forall>b. rpos x = RDispatch b \<longrightarrow> b = a \<and> q \<noteq> []"
    unfolding live_inv_def by blast
  from transmit_image_True [OF assms(4) nq(2)] nq assms(1-3) show ?thesis
    unfolding live_inv_def by (intro conjI exI [of _ n] exI [of _ "q @ [name]"]) auto
qed

lemma live_signal:
  assumes "live_inv user s a x" and "tpos x = TSignal so"
    and "transmit_signal user so (srv x) = Inr (Some (s', st))"
  shows "live_inv user s a (x\<lparr>srv := st, tpos := TRecv (Some s')\<rparr>)"
proof -
  from assms(1,2) have "(case so of Some s \<Rightarrow> Some s | None \<Rightarrow> sem_map (srv x) user) = Some s"
    by (auto simp: live_inv_def split: option.splits)
  with assms show ?thesis
    by (auto simp: live_inv_def transmit_signal_def sem_post_at_def res_simps)
qed

lemma live_disconnect:
  assumes "live_inv user s a x" and "tpos x = TRecv so" and "transmit_disconnect so (srv x) = Inr st"
  shows "live_inv user s a (x\<lparr>srv := st, tpos := TGone\<rparr>)"
  using assms
  by (auto simp: live_inv_def transmit_disconnect_def sem_post_at_def split: option.splits)

lemma live_wait:
  assumes "live_inv user s a x" and "rpos x = RWait qo"
    and "result_wait user s qo (srv x) = Inr (Some (w, st))"
  obtains (ready) m y q where "w = ImageReady a" "sems (srv x) s = Some (Suc m)" "queues (srv x) a = Some (y # q)"
      "st = srv x\<lparr>sems := (sems (srv x))(s \<mapsto> m)\<rparr>"
  | (gone) "w = ClientGone" "queues (srv x) a = Some []" "tpos x = TGone"
proof -
  from assms(1,2) obtain n q where nq: "sems (srv x) s = Some n" "queues (srv x) a = Some q"
    "n + waits (tpos x) = length q + ended (tpos x)"
    by (auto simp: live_inv_def)
  from assms(1,2) have addr: "(case qo of Some b \<Rightarrow> Some b | None \<Rightarrow> queue_map (srv x) user) = Some a"
    by (auto simp: live_inv_def split: option.splits)
  have "n \<noteq> 0"
  proof
    assume "n = 0"
    with assms(3) nq(1) show False by (simp add: result_wait_def sem_wait_at_def)
  qed
  then obtain m where m: "n = Suc m" by (cases n) auto
  have w: "sem_wait_at s (srv x) = Inr (Some (srv x\<lparr>sems := (sems (srv x))(s \<mapsto> m)\<rparr>))"
    using nq(1) m by (simp add: sem_wait_at_def)
  show thesis
  proof (cases q)
    case Nil
    with assms(3) w addr nq(2) have "w = ClientGone" by (cases qo) (simp_all add: result_wait_def)
    moreover have "tpos x = TGone" using nq(3) Nil m by (cases "tpos x") simp_all
    ultimately show thesis using gone nq(2) Nil by blast
  next
    case (Cons y q')
    with assms(3) w addr nq(2) show thesis
      using ready nq(1) m by (cases qo) (simp_all add: result_wait_def)
  qed
qed

lemma live_wake:
  assumes "live_inv user s a x" and "rpos x = RWait qo"
    and "result_wait user s qo (srv x) = Inr (Some (ImageReady a', st))"
  shows "live_inv user s a (x\<lparr>srv := st, rpos := RDispatch a'\<rparr>)"
  using assms(1-3)
proof (cases rule: live_wait)
  case (ready m y q)
  with assms(1,2) show ?thesis by (auto simp: live_inv_def)
qed simp

lemma live_gone:
  assumes "live_inv user s a x" and "rpos x = RWait qo"
    and "result_wait user s qo (srv x) = Inr (Some (ClientGone, st))"
  shows "tpos x = TGone \<and> popped x = received x"
  using assms(1-3)
proof (cases rule: live_wait)
  case gone
  with assms(1) show ?thesis by (auto simp: live_inv_def)
qed simp

text \<open>Both ways to take an image out of the queue: the hand-over to a child, and the Storm branch.\<close>

lemma live_taken:
  assumes "live_inv user s a x" and "rpos x = RDispatch a'"
    and "\<And>y q. queues (srv x) a = Some (y # q) \<Longrightarrow> queues st a = Some q"
    and "sems st = sems (srv x)" "queue_map st = queue_map (srv x)" "sem_map st = sem_map (srv x)"
  shows "live_inv user s a (x\<lparr>srv := st, rpos := RWait (Some a'), children := c,
     popped := popped x @ [hd (image_items a' (srv x))]\<rparr>)"
proof -
  from assms(1,2) have a: "a' = a" by (auto simp: live_inv_def)
  from assms(1,2) obtain n y q where nq: "sems (srv x) s = Some n" "queues (srv x) a = Some (y # q)"
    "received x = popped x @ y # q" "list_all (\<lambda>nm. length nm < 60) (received x)"
    "n + 1 + waits (tpos x) = length (y # q) + ended (tpos x)"
    by (fastforce simp: live_inv_def neq_Nil_conv)
  have h: "hd (image_items a (srv x)) = y" using nq(2) by (simp add: image_items_def)
  show ?thesis
    unfolding a h using assms(3) [OF nq(2)] assms(4-6) nq assms(1) by (auto simp: live_inv_def)
qed

lemma pop_image_frame:
  "pop_image a st = Inr (name, st') \<Longrightarrow>
     \<exists>q. queues st a = Some (name # q) \<and> st' = st\<lparr>queues := (queues st)(a \<mapsto> q)\<rparr>"
  by (auto simp: pop_image_def split: option.splits list.splits)

lemma live_dispatch:
  assumes "live_inv user s a x" and "rpos x = RDispatch a'"
    and "result_dispatch sock s a' (srv x) = Inr (Some st)"
  shows "live_inv user s a (x\<lparr>srv := st, rpos := RWait (Some a'), children := Suc (children x),
     popped := popped x @ [hd (image_items a' (srv x))]\<rparr>)"
proof -
  from assms(1,2) have a: "a' = a" by (auto simp: live_inv_def)
  show ?thesis
    by (rule live_taken [OF assms(1,2)])
      (use assms(3) in \<open>auto simp: a result_dispatch_def res_simps dest!: pop_image_frame split: if_splits\<close>)
qed

lemma live_storm:
  assumes "live_inv user s a x" and "rpos x = RDispatch a'"
    and "result_storm cfg sock a' datagram w stack (srv x) = Inr (True, st)"
  shows "live_inv user s a (x\<lparr>srv := st, rpos := RWait (Some a'),
     popped := popped x @ [hd (image_items a' (srv x))]\<rparr>)"
proof -
  from assms(1,2) have a: "a' = a" by (auto simp: live_inv_def)
  have f: "queues st a = Some q" "sems st = sems (srv x)" "queue_map st = queue_map (srv x)"
    "sem_map st = sem_map (srv x)" if "queues (srv x) a = Some (y # q)" for y q
    using assms(3) that
    by (auto simp: a result_storm_def reply_def res_simps dest!: pop_image_frame split: if_splits option.splits)
  from assms(1,2) obtain y q where "queues (srv x) a = Some (y # q)"
    by (fastforce simp: live_inv_def neq_Nil_conv)
  from live_taken [OF assms(1,2) f(1) f(2-4) [OF this], where c = "children x"] show ?thesis by simp
qed

theorem own_step_inv:
  assumes "own_step v cfg user sock s a x y" and "sess_inv user s a x"
  shows "sess_inv user s a y"
proof (cases "rpos x = RGone")
  case True
  with assms(2) have g: "tpos x = TGone" "popped x = received x" by (simp_all add: sess_inv_def)
  from assms(1) show ?thesis
    by (rule own_stepE) (use True g in \<open>auto simp: sess_inv_def\<close>)
next
  case False
  with assms(2) have live: "live_inv user s a x" by (simp add: sess_inv_def)
  from assms(1) show ?thesis
  proof (cases rule: own_step.cases)
    case image
    with live_image [OF live] False show ?thesis by (simp add: sess_inv_def)
  next
    case signal
    with live_signal [OF live] False show ?thesis by (simp add: sess_inv_def)
  next
    case disconnect
    with live_disconnect [OF live] False show ?thesis by (simp add: sess_inv_def)
  next
    case wake
    with live_wake [OF live] show ?thesis by (simp add: sess_inv_def)
  next
    case gone
    with live_gone [OF live] show ?thesis by (simp add: sess_inv_def)
  next
    case dispatch
    with live_dispatch [OF live] show ?thesis by (simp add: sess_inv_def)
  next
    case storm_result
    with live_storm [OF live] show ?thesis by (simp add: sess_inv_def)
  next
    case child
    from result_child_frame [OF child(3)] have "same_session user s a (srv x) (srv y)"
      unfolding child(1) by simp
    from live_others [OF live this] child False show ?thesis
      by (simp add: sess_inv_def live_inv_def)
  qed
qed

theorem sess_step_inv:
  assumes "sess_step v cfg user sock s a x y" and "sess_inv user s a x"
  shows "sess_inv user s a y"
  using assms(1)
proof cases
  case own
  then show ?thesis using assms(2) by (rule own_step_inv)
next
  case others
  with live_others assms(2) show ?thesis by (auto simp: sess_inv_def)
qed

lemma sess_reachable_inv: "sess_reachable v cfg user sock s a x \<Longrightarrow> sess_inv user s a x"
  by (induction rule: sess_reachable.induct) (auto intro: sess_inv_start sess_step_inv)

end
