(* ===== verification/ServerProps.thy ===== *)
theory ServerProps
  imports SessionInv
begin

text \<open>
  What the server promises its users: images are matched in the order they came and none is
  lost at a disconnect; the two threads of a session do not fault; who may log in; how many
  images are matched at once. And where it does not: the races and leaks.
\<close>

subsection \<open>Sessions\<close>


definition demo_session :: "unit session" where
  "demo_session =
     \<lparr>srv = (init_server 5 init_statics \<lparr>text_files = (\<lambda>_. None), yml_files = (\<lambda>_. None)\<rparr>)
        \<lparr>queue_map := [''u'' \<mapsto> 1], sem_map := [''u'' \<mapsto> 0], user_map := [''u'' \<mapsto> 2],
         queues := [1 \<mapsto> []], sems := [0 \<mapsto> 0], next_addr := 2\<rparr>,
      tpos = TRecv None, rpos = RWait None, children = 0, received = [], popped = []\<rparr>"

lemma demo_start: "sess_start ''u'' 0 1 demo_session"
  by (simp add: sess_start_def demo_session_def)

lemma demo_reachable: "sess_reachable v cfg ''u'' sock 0 1 demo_session"
  by (rule sess_reachable.start [OF demo_start])




text \<open>
  C16: once the client has disconnected, the result thread never blocks on its semaphore again until it has ended:
  it finds either an image that is still queued or, after all of them, the empty queue on which
  it logs the user out.
\<close>

theorem disconnect_drains:
  assumes "sess_reachable v cfg user sock s a x" and "tpos x = TGone" and "rpos x = RWait qo"
  shows "\<exists>w st. result_wait user s qo (srv x) = Inr (Some (w, st)) \<and>
     (w = ClientGone \<longleftrightarrow> popped x = received x) \<and>
     (w = ClientGone \<longrightarrow> user_map st user = None \<and> sem_map st user = None \<and> queue_map st user = None)"
proof -
  have live: "live_inv user s a x"
    using sess_reachable_inv [OF assms(1)] assms(3) by (simp add: sess_inv_def)
  with assms(2,3) obtain n q where nq: "sems (srv x) s = Some (Suc n)" "queues (srv x) a = Some q"
    "received x = popped x @ q"
    by (fastforce simp: live_inv_def)
  from live assms(3) have addr: "queue_map (srv x) user = Some a" "\<forall>b. qo = Some b \<longrightarrow> b = a"
    by (auto simp: live_inv_def)
  show ?thesis
    using nq addr by (cases qo; cases q) (auto simp: result_wait_def sem_wait_at_def)
qed

subsection \<open>Runs of a session\<close>

text \<open>A session between two images: both threads at their waits, nothing queued.\<close>

definition idle :: "nat \<Rightarrow> nat \<Rightarrow> nat \<Rightarrow> 'd session \<Rightarrow> bool" where
  "idle s a k x \<longleftrightarrow>
     (\<exists>so. tpos x = TRecv so) \<and> (\<exists>qo. rpos x = RWait qo) \<and> sems (srv x) s = Some 0 \<and>
     queues (srv x) a = Some [] \<and> process_sem (srv x) = k \<and>
     request_submitted (sv_metrics (srv x)) < 1000 \<and> 0 \<le> request_submitted (sv_metrics (srv x))"

text \<open>One image received and queued, not yet taken out.\<close>

lemma run_queue:
  assumes "sess_reachable v cfg user sock s a x" and "idle s a k x" and "\<not> storm cfg" and "length name < 60"
    and "request_submitted (sv_metrics (srv x)) < 999"
  shows "\<exists>y. sess_reachable v cfg user sock s a y \<and> tpos y = TRecv (Some s) \<and> rpos y = rpos x \<and>
     sems (srv y) s = Some 1 \<and> queues (srv y) a = Some [name] \<and> process_sem (srv y) = k \<and>
     request_submitted (sv_metrics (srv y)) = request_submitted (sv_metrics (srv x)) + 1 \<and>
     received y = received x @ [name] \<and> popped y = popped x \<and> children y = children x"
proof -
  from assms(2) obtain so qo where pos: "tpos x = TRecv so" "rpos x = RWait qo"
    and h: "sems (srv x) s = Some 0" "queues (srv x) a = Some []" "process_sem (srv x) = k"
      "0 \<le> request_submitted (sv_metrics (srv x))"
    by (auto simp: idle_def)
  have live: "live_inv user s a x"
    using sess_reachable_inv [OF assms(1)] pos by (simp add: sess_inv_def)
  have m: "submit_request (sv_metrics (srv x)) = Inr ((sv_metrics (srv x))
      \<lparr>request_submitted := request_submitted (sv_metrics (srv x)) + 1\<rparr>)"
    using assms(5) h(4) by (simp add: submit_request_def inc32_def in_int32_def)
  define st1 where "st1 = srv x\<lparr>sv_metrics := (sv_metrics (srv x))
      \<lparr>request_submitted := request_submitted (sv_metrics (srv x)) + 1\<rparr>,
      pics := (pics (srv x))(name \<mapsto> ''img''), queues := (queues (srv x))(a \<mapsto> [name])\<rparr>"
  have "transmit_image cfg a name ''img'' True e (srv x) = Inr (True, st1)"
    using m h assms(3) by (simp add: transmit_image_def push_image_def st1_def)
  from sess_step.own [OF own_step.image [OF pos(1) assms(4) this]] sess_reachable.step [OF assms(1)]
  have r1: "sess_reachable v cfg user sock s a
      (x\<lparr>srv := st1, tpos := TSignal so, received := received x @ [name]\<rparr>)" (is "sess_reachable _ _ _ _ _ _ ?x1")
    by blast
  have "transmit_signal user so st1 = Inr (Some (s, st1\<lparr>sems := (sems st1)(s \<mapsto> 1)\<rparr>))"
    using live pos h by (cases so) (auto simp: live_inv_def transmit_signal_def sem_post_at_def st1_def)
  then have "sess_step v cfg user sock s a ?x1
      (?x1\<lparr>srv := st1\<lparr>sems := (sems st1)(s \<mapsto> 1)\<rparr>, tpos := TRecv (Some s)\<rparr>)"
    by (intro sess_step.own own_step.signal [where so = so]) simp_all
  from sess_reachable.step [OF r1 this] h pos show ?thesis
    by (intro exI conjI) (assumption | simp add: st1_def)+
qed

lemma run_dispatch:
  assumes "sess_reachable v cfg user sock s a x" and "rpos x = RWait qo"
    and "sems (srv x) s = Some 1" and "queues (srv x) a = Some [name]" and "process_sem (srv x) = Suc k"
    and "length name < 60" and "\<not> storm cfg"
  shows "\<exists>y. sess_reachable v cfg user sock s a y \<and> tpos y = tpos x \<and> rpos y = RWait (Some a) \<and>
     sems (srv y) s = Some 0 \<and> queues (srv y) a = Some [] \<and> process_sem (srv y) = k \<and>
     sv_metrics (srv y) = sv_metrics (srv x) \<and> slots (srv y) s = Some (sock, name) \<and>
     received y = received x \<and> popped y = popped x @ [name] \<and> children y = Suc (children x)"
proof -
  have live: "live_inv user s a x"
    using sess_reachable_inv [OF assms(1)] assms(2) by (simp add: sess_inv_def)
  define st1 where "st1 = srv x\<lparr>sems := (sems (srv x))(s \<mapsto> 0)\<rparr>"
  have "result_wait user s qo (srv x) = Inr (Some (ImageReady a, st1))"
    using live assms(2-4)
    by (cases qo) (auto simp: live_inv_def result_wait_def sem_wait_at_def st1_def)
  from sess_reachable.step [OF assms(1) sess_step.own [OF own_step.wake [OF assms(2) this]]]
  have r1: "sess_reachable v cfg user sock s a (x\<lparr>srv := st1, rpos := RDispatch a\<rparr>)" (is "sess_reachable _ _ _ _ _ _ ?x1") .
  define st2 where "st2 = st1\<lparr>process_sem := k, queues := (queues st1)(a \<mapsto> []), slots := (slots st1)(s \<mapsto> (sock, name))\<rparr>"
  have d: "result_dispatch sock s a (srv ?x1) = Inr (Some st2)"
    using assms(4-6) by (simp add: result_dispatch_def pop_image_def st1_def st2_def)
  have "rpos ?x1 = RDispatch a" by simp
  from sess_reachable.step [OF r1 sess_step.own [OF own_step.dispatch [OF this assms(7) d]]]
  show ?thesis
    by (intro exI conjI) (assumption | simp add: st1_def st2_def image_items_def assms(4))+
qed

lemma run_round:
  assumes "sess_reachable v cfg user sock s a x" and "idle s a (Suc k) x" and "\<not> storm cfg" and "length name < 60"
    and "request_submitted (sv_metrics (srv x)) < 998"
  shows "\<exists>y. sess_reachable v cfg user sock s a y \<and> idle s a k y \<and> slots (srv y) s = Some (sock, name) \<and>
     request_submitted (sv_metrics (srv y)) = request_submitted (sv_metrics (srv x)) + 1 \<and>
     received y = received x @ [name] \<and> popped y = popped x @ [name] \<and> children y = Suc (children x)"
proof -
  from assms(5) have l: "request_submitted (sv_metrics (srv x)) < 999" by simp
  from run_queue [OF assms(1-4) l] obtain y where
    y: "sess_reachable v cfg user sock s a y" "tpos y = TRecv (Some s)" "rpos y = rpos x"
    "sems (srv y) s = Some 1" "queues (srv y) a = Some [name]" "process_sem (srv y) = Suc k"
    "request_submitted (sv_metrics (srv y)) = request_submitted (sv_metrics (srv x)) + 1"
    "received y = received x @ [name]" "popped y = popped x" "children y = children x"
    by blast
  from assms(2) obtain qo where "rpos x = RWait qo" by (auto simp: idle_def)
  with y(3) have "rpos y = RWait qo" by simp
  from run_dispatch [OF y(1) this y(4-6) assms(4,3)] obtain z where
    z: "sess_reachable v cfg user sock s a z" "tpos z = tpos y" "rpos z = RWait (Some a)"
    "sems (srv z) s = Some 0" "queues (srv z) a = Some []" "process_sem (srv z) = k"
    "sv_metrics (srv z) = sv_metrics (srv y)" "slots (srv z) s = Some (sock, name)"
    "received z = received y" "popped z = popped y @ [name]" "children z = Suc (children y)"
    by blast
  have "idle s a k z" using z y assms(2,5) by (auto simp: idle_def)
  with z y show ?thesis by metis
qed

text \<open>
  C32: two images can be handed over before the first child reads its argument: the session then has two children
  that both find the second file name in the one \<open>trans_info\<close> they share, so the first image is
  never matched and the second one is matched twice.
\<close>

theorem shared_slot_race:
  assumes "sess_reachable v cfg user sock s a x" and "idle s a (Suc (Suc k)) x" and "\<not> storm cfg"
    and "length n1 < 60" and "length n2 < 60" and "request_submitted (sv_metrics (srv x)) < 900"
  shows "\<exists>y. sess_reachable v cfg user sock s a y \<and> popped y = popped x @ [n1, n2] \<and>
     children y = children x + 2 \<and> slots (srv y) s = Some (sock, n2)"
proof -
  have l: "request_submitted (sv_metrics (srv x)) < 998" using assms(6) by simp
  from run_round [OF assms(1-4) l] obtain y where
    y: "sess_reachable v cfg user sock s a y" "idle s a (Suc k) y"
    "request_submitted (sv_metrics (srv y)) = request_submitted (sv_metrics (srv x)) + 1"
    "popped y = popped x @ [n1]" "children y = Suc (children x)" by blast
  have "request_submitted (sv_metrics (srv y)) < 998" using y(3) assms(6) by simp
  from run_round [OF y(1,2) assms(3,5) this] obtain z where
    "sess_reachable v cfg user sock s a z" "slots (srv z) s = Some (sock, n2)"
    "popped z = popped y @ [n2]" "children z = Suc (children y)" by blast
  with y(4,5) show ?thesis by (intro exI [of _ z]) simp
qed

definition demo_cfg :: config where
  "demo_cfg = \<lparr>tcp = True, orbit = False, mf = False, storm = False, use_kafka = False\<rparr>"

lemma demo_idle: "idle 0 1 5 demo_session"
  by (simp add: idle_def demo_session_def init_server_def new_Metrics_def)

text \<open>A vision that decodes nothing.\<close>

definition blind :: "(unit, unit, unit) vision" where
  "blind = \<lparr>v_decode = (\<lambda>_. None), v_surf = (\<lambda>_ _. ([], [])), v_knn = (\<lambda>_ _. [])\<rparr>"

lemma shared_slot_race_witness:
  "\<exists>y. sess_reachable blind demo_cfg ''u'' 4 0 1 y \<and> popped y = [''a.jpg'', ''b.jpg''] \<and>
     children y = 2 \<and> slots (srv y) 0 = Some (4, ''b.jpg'')"
proof -
  have i: "idle 0 1 (Suc (Suc 3)) demo_session" using demo_idle by (simp add: numeral_eq_Suc)
  have "\<not> storm demo_cfg" by (simp add: demo_cfg_def)
  from shared_slot_race [OF demo_reachable [of blind demo_cfg 4] i this, of "''a.jpg''" "''b.jpg''"] show ?thesis
    by (simp add: demo_session_def init_server_def new_Metrics_def numeral_2_eq_2)
qed

lemma disconnect_drains_witness:
  "\<exists>(x :: unit session) w st. sess_reachable blind demo_cfg ''u'' 4 0 1 x \<and>
     result_wait ''u'' 0 None (srv x) = Inr (Some (w, st)) \<and> w \<noteq> ClientGone"
proof -
  have ns: "\<not> storm demo_cfg" "length ''a.jpg'' < 60"
    "request_submitted (sv_metrics (srv demo_session)) < 999"
    by (simp_all add: demo_cfg_def demo_session_def init_server_def new_Metrics_def)
  from run_queue [OF demo_reachable demo_idle ns] obtain y where
    y: "sess_reachable blind demo_cfg ''u'' 4 0 1 y" "tpos y = TRecv (Some 0)" "rpos y = RWait None"
    "sems (srv y) 0 = Some 1" "received y = [''a.jpg'']" "popped y = []"
    by (auto simp: demo_session_def)
  define st where "st = srv y\<lparr>sems := (sems (srv y))(0 \<mapsto> 2)\<rparr>"
  have "transmit_disconnect (Some 0) (srv y) = Inr st"
    using y(4) by (simp add: transmit_disconnect_def sem_post_at_def st_def numeral_eq_Suc)
  from sess_reachable.step [OF y(1) sess_step.own [OF own_step.disconnect [OF y(2) this]]]
  have r: "sess_reachable blind demo_cfg ''u'' 4 0 1 (y\<lparr>srv := st, tpos := TGone\<rparr>)" (is "sess_reachable _ _ _ _ _ _ ?z") .
  have "tpos ?z = TGone" "rpos ?z = RWait None" using y by simp_all
  from disconnect_drains [OF r this] y(5,6) obtain w st' where
    "result_wait ''u'' 0 None (srv ?z) = Inr (Some (w, st'))" "w \<noteq> ClientGone" by auto
  with r show ?thesis by blast
qed

text \<open>
  as long as no client disconnects, any interleaving of arrivals (push, then post) and hand-overs (wait, then
  pop) on a user's queue runs without fault, never pops an empty queue, and hands the images over in
  the order of their arrival.
\<close>

theorem image_queue_fifo:
  assumes "queues st a = Some q" and "sems st s = Some (length q)"
  shows "\<exists>t out rest. sem_queue.run (image_items a) (image_count s) (put_image s a) (get_image s a) ops st = Inr (t, out) \<and>
     image_ok s a t \<and> q @ sem_queue.puts ops = out @ rest"
proof -
  have ok: "image_ok s a st" using assms by (simp add: image_ok_def)
  from imgq.run_total [OF ok] obtain t out where
    r: "sem_queue.run (image_items a) (image_count s) (put_image s a) (get_image s a) ops st = Inr (t, out)" "image_ok s a t"
    by blast
  from imgq.run_fifo [OF ok r(1)] assms(1) r show ?thesis by (auto simp: image_items_def)
qed

lemma image_queue_fifo_witness:
  "\<exists>t out rest. sem_queue.run (image_items 1) (image_count 0) (put_image 0 1) (get_image 0 1)
       [Put ''a'', Get, Put ''b''] (srv demo_session) = Inr (t, out) \<and> [] @ [''a'', ''b''] = out @ rest"
  using image_queue_fifo [of "srv demo_session" 1 "[]" 0 "[Put ''a'', Get, Put ''b'']"]
  by (auto simp: demo_session_def)

subsection \<open>Logging in\<close>

lemma login_header_tokens:
  assumes "is_field ty" and "is_field user" and "d \<in> {NUL, CHR '',''}" and "NUL \<in> set (d # rest)"
  shows "login_header (ty @ CHR '','' # user @ d # rest) = Inr (ty, user)"
proof -
  have s1: "strtok '','' (ty @ CHR '','' # (user @ d # rest)) 0 =
      Some \<lparr>tok = ty, tok_start = 0, tok_next = length ty + 1, tok_buf = ty @ NUL # (user @ d # rest)\<rparr>"
    using strtok_field [of "[]" 0 ty "'',''" "CHR '',''" "user @ d # rest"] assms(1)
    by (simp add: is_field_def)
  have s2: "\<exists>t. strtok '','' ((ty @ [NUL]) @ user @ d # rest) (length ty + 1) = Some t \<and> tok t = user"
    using assms(2,3) strtok_last [of "ty @ [NUL]" "length ty + 1" user "'',''" rest]
      strtok_field [of "ty @ [NUL]" "length ty + 1" user "'',''" "CHR '',''" rest]
    by (auto simp: is_field_def)
  show ?thesis using s1 s2 assms(4) by (auto simp: login_header_def)
qed

lemma login_header_text:
  assumes "is_field ty" and "is_field user" and "length ty + length user < 98"
  shows "login_header (fill (ty @ '','' @ user @ [NUL]) (zeros 100)) = Inr (ty, user)"
proof -
  have "fill (ty @ '','' @ user @ [NUL]) (zeros 100) =
      ty @ CHR '','' # user @ NUL # drop (length (ty @ '','' @ user @ [NUL])) (zeros 100)"
    using assms(3) by (subst fill_fits) simp_all
  then show ?thesis using login_header_tokens [OF assms(1,2)] by simp
qed

definition login_msg :: "string \<Rightarrow> string \<Rightarrow> bytes option" where
  "login_msg ty user = Some (ty @ '','' @ user @ [NUL])"

lemma serverThread_header [server_simps]:
  assumes "is_field ty" and "is_field user" and "length ty + length user < 98"
  shows "serverThread cfg (login_msg ty user) sock st =
     (case user_map st user of
        None \<Rightarrow> Inr (login_dispatch ty user, st\<lparr>user_map := (user_map st)(user \<mapsto> 1)\<rparr>)
      | Some n \<Rightarrow> if n = 1 then Inr (login_dispatch ty user, st\<lparr>user_map := (user_map st)(user \<mapsto> 2)\<rparr>)
                  else Inr (Rejected, reply sock (''failed'' @ [NUL]) st))"
proof -
  have "login_header (fill (ty @ '','' @ user @ [NUL]) (zeros 100)) = Inr (ty, user)"
    using assms by (rule login_header_text)
  then show ?thesis by (simp add: serverThread_def login_msg_def)
qed

text \<open>
  a user who is not logged in gets exactly two threads, a transmit and a result thread in either order, and a
  third connection under the same name is told \<open>failed\<close> and changes nothing else.
\<close>

theorem two_logins_then_rejected:
  assumes "is_field user" and "length user < 80" and "user_map st user = None"
  shows "\<exists>st1 st2. serverThread cfg (login_msg ''result'' user) k1 st = Inr (DoResult user, st1) \<and>
     serverThread cfg (login_msg ''transmit'' user) k2 st1 = Inr (DoTransmit user, st2) \<and>
     user_map st2 user = Some 2 \<and>
     (is_field ty \<and> length ty < 15 \<longrightarrow>
        serverThread cfg (login_msg ty user) k3 st2 = Inr (Rejected, reply k3 (''failed'' @ [NUL]) st2))"
proof -
  have f: "is_field ''result''" "is_field ''transmit''" by (simp_all add: is_field_def)
  let ?s1 = "st\<lparr>user_map := (user_map st)(user \<mapsto> 1)\<rparr>"
  let ?s2 = "?s1\<lparr>user_map := (user_map ?s1)(user \<mapsto> 2)\<rparr>"
  have "serverThread cfg (login_msg ''result'' user) k1 st = Inr (DoResult user, ?s1)"
    using serverThread_header [OF f(1) assms(1), of cfg k1 st] assms(2,3) by (simp add: login_dispatch_def)
  moreover have "serverThread cfg (login_msg ''transmit'' user) k2 ?s1 = Inr (DoTransmit user, ?s2)"
    using serverThread_header [OF f(2) assms(1), of cfg k2 ?s1] assms(2) by (simp add: login_dispatch_def)
  moreover have "serverThread cfg (login_msg ty user) k3 ?s2 = Inr (Rejected, reply k3 (''failed'' @ [NUL]) ?s2)"
    if "is_field ty" "length ty < 15"
    using serverThread_header [OF that(1) assms(1), of cfg k3 ?s2] assms(2) that(2) by simp
  ultimately show ?thesis by (intro exI [of _ ?s1] exI [of _ ?s2]) simp
qed

lemma two_logins_then_rejected_witness:
  "\<exists>st2 :: unit server. user_map st2 ''alice'' = Some 2 \<and>
     serverThread demo_cfg (login_msg ''result'' ''alice'') 9 st2 =
       Inr (Rejected, reply 9 (''failed'' @ [NUL]) st2)"
proof -
  have f: "is_field ''alice''" "is_field ''result''" by (simp_all add: is_field_def)
  have u: "user_map (srv demo_session) ''alice'' = None" by (simp add: demo_session_def)
  from two_logins_then_rejected [OF f(1) _ u, of demo_cfg 7 8 "''result''" 9] f(2)
  show ?thesis by auto
qed

text \<open>
  a connection with an unknown command is counted as a login of the user but never ends as one: after two of
  them every later connection under that name is rejected, although no thread serves the user.
\<close>

theorem unknown_commands_lock_out:
  assumes "is_field user" and "is_field cmd" and "length user + length cmd < 80"
    and "cmd \<notin> {''transmit'', ''result''}" and "user_map st user = None"
  shows "\<exists>st1 st2. serverThread cfg (login_msg cmd user) k1 st = Inr (Unknown, st1) \<and>
     serverThread cfg (login_msg cmd user) k2 st1 = Inr (Unknown, st2) \<and>
     serverThread cfg (login_msg ''transmit'' user) k3 st2 = Inr (Rejected, reply k3 (''failed'' @ [NUL]) st2) \<and>
     queues st2 = queues st \<and> sems st2 = sems st"
proof -
  let ?s1 = "st\<lparr>user_map := (user_map st)(user \<mapsto> 1)\<rparr>"
  let ?s2 = "?s1\<lparr>user_map := (user_map ?s1)(user \<mapsto> 2)\<rparr>"
  have f: "is_field ''transmit''" by (simp add: is_field_def)
  have d: "login_dispatch cmd user = Unknown" using assms(4) by (simp add: login_dispatch_def)
  have "serverThread cfg (login_msg cmd user) k1 st = Inr (Unknown, ?s1)"
    using serverThread_header [OF assms(2,1), of cfg k1 st] assms(3,5) d by simp
  moreover have "serverThread cfg (login_msg cmd user) k2 ?s1 = Inr (Unknown, ?s2)"
    using serverThread_header [OF assms(2,1), of cfg k2 ?s1] assms(3) d by simp
  moreover have "serverThread cfg (login_msg ''transmit'' user) k3 ?s2 =
      Inr (Rejected, reply k3 (''failed'' @ [NUL]) ?s2)"
    using serverThread_header [OF f assms(1), of cfg k3 ?s2] assms(3) by simp
  ultimately show ?thesis by (intro exI [of _ ?s1] exI [of _ ?s2]) simp
qed

lemma unknown_commands_lock_out_witness:
  "\<exists>st2 :: unit server. serverThread demo_cfg (login_msg ''transmit'' ''bob'') 3 st2 =
     Inr (Rejected, reply 3 (''failed'' @ [NUL]) st2) \<and> queues st2 = queues (srv demo_session)"
proof -
  have f: "is_field ''bob''" "is_field ''hello''" by (simp_all add: is_field_def)
  have u: "user_map (srv demo_session) ''bob'' = None" by (simp add: demo_session_def)
  from unknown_commands_lock_out [OF f _ _ u, of demo_cfg 1 2 3] show ?thesis by auto
qed

text \<open>
  a TCP client that connects and closes without sending a header ends the server: the read returns no byte,
  which is not an error for \<open>serverThread\<close>, and the user name becomes a \<open>std::string\<close> of a null
  pointer.
\<close>

theorem silent_client_crashes_server:
  "serverThread cfg (Some []) sock st = Inl NullPointer"
proof -
  have "zeros 100 = NUL # zeros 99" by (simp add: zeros_def numeral_eq_Suc)
  moreover have "NUL \<in> set (NUL # zeros 99)" by simp
  moreover have "strtok '','' (NUL # zeros 99) 0 = None" using strtok_at_end [of "[]" 0 "'',''" "zeros 99"] by simp
  ultimately have "login_header (zeros 100) = Inl NullPointer" by (simp add: login_header_def)
  then show ?thesis by (simp add: serverThread_def fill_def)
qed

text \<open>
  the two threads of a freshly logged-in user build exactly the state in which a session starts: an empty queue
  and a semaphore at 0, both entered in the maps under the user's name.
\<close>

theorem session_starts:
  "\<exists>s a st1 st2. server_result_init cfg k1 user True st = Inr (s, st1) \<and>
     server_transmit_init cfg k2 user True st1 = (Some a, st2) \<and>
     sess_start user s a \<lparr>srv = st2, tpos = TRecv None, rpos = RWait None, children = 0,
                         received = [], popped = []\<rparr> \<and> s \<noteq> a"
  by (simp add: server_result_init_def server_transmit_init_def sess_start_def Let_def reply_def)

subsection \<open>Permits\<close>

text \<open>Hand-overs and children in sequence, each with the outcome of its \<open>write\<close>; \<open>None\<close> when it blocks.\<close>

fun serve_all ::
  "('img, 'kp, 'd) vision \<Rightarrow> config \<Rightarrow> int \<Rightarrow> nat \<Rightarrow> nat \<Rightarrow> (nat \<Rightarrow> char) \<Rightarrow> bool list \<Rightarrow> 'd server \<Rightarrow> 'd server option res" where
  "serve_all v cfg sock slot a stack [] st = Inr (Some st)"
| "serve_all v cfg sock slot a stack (ok # oks) st =
     rbind (result_dispatch sock slot a st) (\<lambda>r. case r of None \<Rightarrow> Inr None
       | Some st1 \<Rightarrow> rbind (result_child v cfg slot ok stack st1) (serve_all v cfg sock slot a stack oks))"

lemma result_dispatch_permit:
  "result_dispatch sock slot a st = Inr (Some st') \<Longrightarrow> Suc (process_sem st') = process_sem st"
  by (auto simp: result_dispatch_def pop_image_def res_simps split: if_splits option.splits list.splits)

lemma result_child_permit:
  "result_child v cfg slot ok stack st = Inr st' \<Longrightarrow>
     process_sem st' = (if tcp cfg \<and> \<not> ok then process_sem st else Suc (process_sem st))"
  by (cases "tcp cfg \<and> \<not> ok")
    (auto simp: result_child_def reply_def res_simps Let_def split: option.splits if_splits prod.splits)

text \<open>
  a matched image gives its permit back exactly when its reply could be written: after any sequence of requests
  in TCP mode, \<open>process_sem\<close> has lost one permit for every failed write, for good, so that with no
  permit left no image is matched any more.
\<close>

theorem failed_writes_lose_permits:
  assumes "serve_all v cfg sock slot a stack oks st = Inr (Some st')" and "tcp cfg"
  shows "process_sem st' + count_list oks False = process_sem st \<and>
     (count_list oks False = process_sem st \<longrightarrow> result_dispatch sock slot a st' = Inr None)"
proof -
  have "process_sem st' + count_list oks False = process_sem st"
    using assms(1)
  proof (induction oks arbitrary: st)
    case (Cons ok oks)
    then obtain st1 st2 where s: "result_dispatch sock slot a st = Inr (Some st1)"
      "result_child v cfg slot ok stack st1 = Inr st2"
      "serve_all v cfg sock slot a stack oks st2 = Inr (Some st')"
      by (auto simp: res_simps split: option.splits)
    from Cons.IH [OF s(3)] result_dispatch_permit [OF s(1)] result_child_permit [OF s(2)] assms(2)
    show ?case by (cases ok) simp_all
  qed simp
  then show ?thesis by (simp add: result_dispatch_def)
qed

lemma failed_writes_lose_permits_witness:
  "\<exists>(st :: unit server) st' :: unit server. process_sem st = 1 \<and>
     serve_all \<lparr>v_decode = (\<lambda>_. None :: unit option), v_surf = (\<lambda>_ _. ([] :: unit list, [])), v_knn = (\<lambda>_ _. [])\<rparr>
       demo_cfg 4 0 1 (\<lambda>_. NUL) [False] st = Inr (Some st') \<and>
     result_dispatch 4 0 1 st' = Inr None"
proof -
  define v where "v = \<lparr>v_decode = (\<lambda>_. None :: unit option), v_surf = (\<lambda>_ _. ([] :: unit list, [] :: unit list)),
    v_knn = (\<lambda>_ _. [])\<rparr>"
  define st :: "unit server" where "st = srv demo_session\<lparr>process_sem := 1, queues := [1 \<mapsto> [''a.jpg'']]\<rparr>"
  have "\<exists>st'. serve_all v demo_cfg 4 0 1 (\<lambda>_. NUL) [False] st = Inr (Some st')"
    by (simp add: st_def result_dispatch_def pop_image_def result_child_def new_ImgMatch_def Let_def
        matchImg_def imread_pics_def demo_session_def init_server_def getMatchedImgIndex_def result_reply_def
        demo_cfg_def)
  then obtain st' where s: "serve_all v demo_cfg 4 0 1 (\<lambda>_. NUL) [False] st = Inr (Some st')" by blast
  have "tcp demo_cfg" by (simp add: demo_cfg_def)
  from failed_writes_lose_permits [OF s this] s show ?thesis
    by (intro exI [of _ st] exI [of _ st']) (simp add: st_def v_def)
qed

end
