(* ===== verification/ImgTransferProps.thy ===== *)
theory ImgTransferProps
  imports ImgTransfer
begin

text \<open>
  What the image channels promise: images of any content arrive unchanged and in order over all
  three networks; the request header survives; and the ways a transfer goes wrong (an empty
  file, a sender that sends more than it announced, a name that is too long).
\<close>

subsection \<open>Images\<close>

text \<open>
  a TCP image arrives unchanged however the network cuts the stream into chunks: the receive loop stops
  exactly after the announced number of bytes and leaves later events alone.
\<close>

theorem tcp_any_chunking:
  assumes "list_all (\<lambda>c. c \<noteq> []) cs" and "concat cs = img" and "img \<noteq> []"
  shows "tcp_receive heap (int (length img)) (map Chunk cs @ es) = Inr (Some (img, es))"
  using assms by (rule tcp_receive_chunks)

lemma tcp_any_chunking_witness:
  "tcp_receive (\<lambda>_. CHR ''?'') 5 [Chunk ''he'', Chunk ''l'', Chunk ''lo'', Failed] = Inr (Some (''hello'', [Failed]))"
  using tcp_any_chunking [of "[''he'', ''l'', ''lo'']" "''hello''" "\<lambda>_. CHR ''?''" "[Failed]"] by simp

text \<open>
  C23: over each of the three networks, a sequence of images that fit (not empty for TCP and orbit, at most
  649990 bytes for new orbit) is received in order, each one unchanged, with nothing of one image
  left over in the next.
\<close>

theorem channels_deliver_in_order:
  "(list_all (\<lambda>i. i \<noteq> []) imgs \<longrightarrow>
      image_channel.rx_all (tcp_receive heap) (map (\<lambda>i. int (length i)) imgs) (concat (map tcp_send imgs)) =
        Inr (Some (imgs, [])) \<and>
      image_channel.rx_all (orbit_rx heap) (map (\<lambda>i. int (length i)) imgs) (concat (map orbit_send imgs)) =
        Inr (Some (imgs, []))) \<and>
   (list_all (\<lambda>i. length i \<le> 649990) imgs \<longrightarrow>
      image_channel.rx_all (\<lambda>_. mf_receive heap stack) (map (\<lambda>i. int (length i)) imgs)
        (concat (map (mf_send stack') imgs)) = Inr (Some (imgs, [])))"
  using tcp.rx_tx_all [of imgs heap "[]"] orb.rx_tx_all [of imgs heap "[]"]
    mfc.rx_tx_all [of imgs heap stack stack' "[]"] by simp

lemma channels_deliver_in_order_witness:
  "image_channel.rx_all (orbit_rx (\<lambda>_. NUL)) [3, 2] (orbit_send ''abc'' @ orbit_send ''de'') =
     Inr (Some ([''abc'', ''de''], []))"
  using channels_deliver_in_order [of "[''abc'', ''de'']" "\<lambda>_. NUL"] by simp

text \<open>
  an empty file stops the server: it sends no block, but both receive loops wait for one before they look at
  the announced size of 0, so the server blocks (and in TCP mode the client, which waits for the
  reply, with it).
\<close>

theorem empty_file_blocks_server:
  "tcp_send [] = [] \<and> tcp_receive heap 0 (tcp_send []) = Inr None \<and>
   orbit_send [] = [] \<and> orbit_receive heap 0 (orbit_send []) = Inr None"
  by (simp add: tcp_send_def orbit_send_def tcp_receive_def orbit_receive_def)

lemma tcp_loop_overrun:
  assumes "list_all (\<lambda>c. c \<noteq> []) cs" and "offset + length (concat cs) < fsize" and "length img = fsize"
    and "fsize < offset + length (concat cs) + length c"
  shows "tcp_loop fsize (map Chunk cs @ Chunk c # es) img offset = Inl BufferOverflow"
  using assms
proof (induction cs arbitrary: img offset)
  case Nil
  then have "c \<noteq> []" by auto
  with Nil show ?case by (simp add: write_at_def)
next
  case (Cons d cs)
  define img' where "img' = take offset img @ d @ drop (offset + length d) img"
  have w: "write_at offset d img = Inr img'" using Cons.prems by (simp add: write_at_def img'_def)
  have "length img' = fsize" using Cons.prems(2,3) by (simp add: img'_def)
  then have "tcp_loop fsize (map Chunk cs @ Chunk c # es) img' (offset + length d) = Inl BufferOverflow"
    using Cons.prems by (intro Cons.IH) simp_all
  with w Cons.prems show ?case by simp
qed

text \<open>
  C36: a sender whose chunk carries the stream past the size it announced makes the server write past the end of
  the image array: the loop checks whether the size is reached exactly, not whether the chunk fits.
\<close>

theorem tcp_overrun_faults:
  assumes "list_all (\<lambda>c. c \<noteq> []) cs" and "length (concat cs) < n" and "n < length (concat cs) + length c"
  shows "tcp_receive heap (int n) (map Chunk cs @ Chunk c # es) = Inl BufferOverflow"
  using tcp_loop_overrun [of cs 0 n "stack_array n heap" c es] assms by (simp add: tcp_receive_def)

lemma tcp_overrun_faults_witness:
  "tcp_receive (\<lambda>_. NUL) 3 [Chunk ''ab'', Chunk ''cd''] = Inl BufferOverflow"
  using tcp_overrun_faults [of "[''ab'']" 3 "''cd''" "\<lambda>_. NUL" "[]"] by simp

subsection \<open>Request headers\<close>

lemma parse_header_text:
  assumes "nm \<noteq> []" and "no_char '','' nm" and "no_nul nm" and "length nm < 60"
    and "0 \<le> n" and "in_int32 n"
  shows "parse_header (header_text nm n @ NUL # rest) = Inr (nm, n)"
proof -
  have s1: "strtok '','' (header_text nm n @ NUL # rest) 0 =
      Some \<lparr>tok = nm, tok_start = 0, tok_next = length nm + 1,
            tok_buf = nm @ NUL # print_int n @ NUL # rest\<rparr>"
    using strtok_field [of "[]" 0 nm "'',''" "CHR '',''" "print_int n @ NUL # rest"] assms
    by (simp add: header_text_def)
  have s2: "strtok '','' ((nm @ [NUL]) @ print_int n @ NUL # rest) (length nm + 1) =
      Some \<lparr>tok = print_int n, tok_start = length nm + 1, tok_next = length nm + 1 + length (print_int n),
            tok_buf = (nm @ [NUL]) @ print_int n @ NUL # rest\<rparr>"
    by (intro strtok_last) simp_all
  show ?thesis
    using s1 s2 assms by (simp add: parse_header_def strtol_int_print_int_0 Let_def)
qed

lemma length_header_text:
  assumes "length nm < 60" and "0 \<le> n" and "in_int32 n"
  shows "length (header_text nm n) < 80"
proof -
  have "nat n < 10 ^ 10" using assms(2,3) by (simp add: in_int32_def nat_less_iff)
  then have "length (dec_nat (nat n)) \<le> 10" by (intro length_dec_nat_le) simp_all
  then show ?thesis using assms by (simp add: header_text_def print_int_def)
qed

text \<open>An announcement, of the file name or of the number in its place, as the server reads it.\<close>

lemma announce_tcp_parse:
  assumes "nm = announce_name spt f k" and "nm \<noteq> []" and "no_char '','' nm" and "no_nul nm"
    and "length nm < 60" and "0 \<le> n" and "in_int32 n"
  shows "\<exists>b. announce_tcp spt f k n = Inr b \<and> parse_header (fill b (zeros 1024)) = Inr (nm, n)"
proof -
  let ?t = "header_text nm n"
  have l: "length ?t < 80" using assms(5-7) by (rule length_header_text)
  define b where "b = ?t @ NUL # drop (Suc (length ?t)) (zeros 1024)"
  have a: "announce_tcp spt f k n = Inr b"
    using l by (simp add: announce_tcp_def assms(1) [symmetric] sprintf_buf_ok b_def)
  have "length b = 1024" using l by (simp add: b_def)
  then have "fill b (zeros 1024) = b" by (simp add: fill_def)
  then have "parse_header (fill b (zeros 1024)) = Inr (nm, n)"
    using parse_header_text [OF assms(2-7)] by (simp add: b_def)
  with a show ?thesis by blast
qed

lemma announce_orbit_parse:
  assumes "nm = announce_name spt f k" and "nm \<noteq> []" and "no_char '','' nm" and "no_nul nm"
    and "length nm < 60" and "0 \<le> n" and "in_int32 n"
  shows "\<exists>b. announce_orbit spt f k n stack = Inr b \<and> length b = 100 \<and>
     parse_header (fill b (zeros 4096)) = Inr (nm, n)"
proof -
  let ?t = "header_text nm n"
  have l: "length ?t < 80" using assms(5-7) by (rule length_header_text)
  define b where "b = take 100 (?t @ NUL # drop (Suc (length ?t)) (stack_array 4096 stack))"
  have a: "announce_orbit spt f k n stack = Inr b"
    using l by (simp add: announce_orbit_def assms(1) [symmetric] sprintf_buf_ok read_at_def b_def)
  have b: "b = ?t @ NUL # take (99 - length ?t) (drop (Suc (length ?t)) (stack_array 4096 stack))"
  proof -
    have "100 - length ?t = Suc (99 - length ?t)" using l by simp
    then show ?thesis using l by (simp add: b_def)
  qed
  have lb: "length b = 100" using l by (simp add: b_def)
  then have "fill b (zeros 4096) = ?t @ NUL #
      (take (99 - length ?t) (drop (Suc (length ?t)) (stack_array 4096 stack)) @ drop (length b) (zeros 4096))"
    by (simp add: fill_fits) (simp add: b)
  then have "parse_header (fill b (zeros 4096)) = Inr (nm, n)"
    using parse_header_text [OF assms(2-7)] by simp
  with a lb show ?thesis by blast
qed

text \<open>
  the server reads from the client's announcement exactly the file name and the size, in TCP mode (1024 cleared
  bytes) as in orbit mode (100 bytes of an array that was never initialised), for a non-empty name
  without comma of fewer than 60 characters and any size of the range of \<open>int\<close>.
\<close>

theorem header_roundtrip:
  assumes "nm \<noteq> []" and "no_char '','' nm" and "no_nul nm" and "length nm < 60"
    and "0 \<le> n" and "in_int32 n"
  shows "\<exists>b1 b2. announce_tcp 1 nm k n = Inr b1 \<and> parse_header (fill b1 (zeros 1024)) = Inr (nm, n) \<and>
     announce_orbit 1 nm k n stack = Inr b2 \<and> parse_header (fill b2 (zeros 4096)) = Inr (nm, n)"
  using announce_tcp_parse [OF _ assms, of 1 nm k] announce_orbit_parse [OF _ assms, of 1 nm k stack]
  by (fastforce simp: announce_name_def)

lemma header_roundtrip_witness:
  "\<exists>b. announce_orbit 1 ''pics/me-1.jpg'' 0 31337 (\<lambda>_. CHR ''z'') = Inr b \<and>
     parse_header (fill b (zeros 4096)) = Inr (''pics/me-1.jpg'', 31337)"
  using header_roundtrip [of "''pics/me-1.jpg''" 31337 0 "\<lambda>_. CHR ''z''"]
  by (auto simp: in_int32_def)

text \<open>
  a request whose file name has 60 characters or more is copied past the end of the server's 60-byte name
  array, whoever sends it and whatever size follows.
\<close>

theorem long_name_overflows:
  assumes "no_char '','' nm" and "no_nul nm" and "60 \<le> length nm" and "length nm < 1000"
    and "msg = nm @ CHR '','' # rest" and "length msg < 1024"
  shows "parse_header (fill msg (zeros 1024)) = Inl BufferOverflow"
proof -
  have f: "fill msg (zeros 1024) = msg @ drop (length msg) (zeros 1024)"
    using assms(6) by (intro fill_fits) simp
  have n: "NUL \<in> set (fill msg (zeros 1024))"
    using assms(6) unfolding f by (simp add: zeros_def)
  have "nm \<noteq> []" using assms(3) by auto
  then have "strtok '','' (fill msg (zeros 1024)) 0 =
      Some \<lparr>tok = nm, tok_start = 0, tok_next = 0 + length nm + 1,
            tok_buf = [] @ nm @ NUL # (rest @ drop (length msg) (zeros 1024))\<rparr>"
    using strtok_field [of "[]" 0 nm "'',''" "CHR '',''" "rest @ drop (length msg) (zeros 1024)"] assms(1,2)
    unfolding f by (simp add: assms(5))
  with n assms(3) show ?thesis by (simp add: parse_header_def)
qed

lemma long_name_overflows_witness:
  "parse_header (fill (replicate 64 CHR ''x'' @ '',10'') (zeros 1024)) = Inl BufferOverflow"
  by (rule long_name_overflows [of "replicate 64 CHR ''x''" _ "''10''"])
    (simp_all add: no_char_def no_nul_def)

end
