(* ===== verification/MsgFrames.thy ===== *)
theory MsgFrames
  imports MsgDistributor
begin

text \<open>
  The wire format of the message distributor: what \<open>send\<close>, \<open>connect\<close>, \<open>accept\<close> and \<open>close\<close>
  put on the wire, and that \<open>listen\<close> reads it back whatever the unused bytes of the buffers
  on both sides hold. Rests on the loop that computes the decimal length of a socket id,
  which is right exactly for ids below \<open>10^9\<close>.
\<close>

subsection \<open>Decimal length\<close>

lemma length_dec_nat_lower: "length (dec_nat n) \<le> k \<Longrightarrow> n < 10 ^ k"
proof (induction n arbitrary: k rule: dec_nat.induct)
  case (1 n)
  show ?case
  proof (cases "n < 10")
    case True
    from "1.prems" have "0 < k" by (cases k) auto
    then have "(10::nat) ^ 1 \<le> 10 ^ k" by (intro power_increasing) auto
    with True show ?thesis by simp
  next
    case False
    with "1.prems" obtain j where j: "k = Suc j" "length (dec_nat (n div 10)) \<le> j"
      using length_dec_nat_step [of n] by (cases k) auto
    with False "1.IH" [of j] have "n div 10 < 10 ^ j" by blast
    with j show ?thesis by simp
  qed
qed

lemma length_dec_nat_iff: "0 < k \<Longrightarrow> length (dec_nat n) \<le> k \<longleftrightarrow> n < 10 ^ k"
  using length_dec_nat_le length_dec_nat_lower by blast

lemma length_dec_nat_pos: "0 < length (dec_nat n)"
  by simp

lemma c_div_power: "0 \<le> sid \<Longrightarrow> c_div sid (10 ^ k) \<noteq> 0 \<longleftrightarrow> 10 ^ k \<le> sid"
proof -
  assume s: "0 \<le> sid"
  have p: "0 < (10::int) ^ k" by simp
  with s have "sid div 10 ^ k = 0 \<longleftrightarrow> sid < 10 ^ k"
    by (metis div_pos_pos_trivial linorder_not_less pos_imp_zdiv_pos_iff less_irrefl)
  with s p show ?thesis by (auto simp: c_div_nonneg not_less)
qed

lemma power_in_int32: "k \<le> 9 \<Longrightarrow> in_int32 (10 ^ k)"
proof -
  assume "k \<le> 9"
  then have "(10::int) ^ k \<le> 10 ^ 9" by (intro power_increasing) auto
  moreover have "INT_MIN \<le> 10 ^ k" by (rule order_trans [of _ 0]) simp_all
  ultimately show ?thesis by (simp add: in_int32_def)
qed

lemma id_length_loop_digits:
  assumes "0 \<le> sid" and "sid < 10 ^ 9" and "0 < k" and "k \<le> length (dec_nat (nat sid))"
  shows "id_length_loop sid (10 ^ k) (int k) = Inr (int (length (dec_nat (nat sid))))"
  using assms
proof (induction "9 - k" arbitrary: k)
  case 0
  have "length (dec_nat (nat sid)) \<le> 9"
    using assms by (simp add: length_dec_nat_iff nat_less_iff)
  with 0 have k: "k = 9" "length (dec_nat (nat sid)) = 9" by simp_all
  with 0 show ?case by (subst id_length_loop.simps) (simp add: c_div_nonneg)
next
  case (Suc j)
  show ?case
  proof (cases "10 ^ k \<le> sid")
    case True
    then have "\<not> nat sid < 10 ^ k"
      using Suc.prems by (simp add: nat_less_iff)
    then have "Suc k \<le> length (dec_nat (nat sid))"
      using length_dec_nat_iff [of k "nat sid"] Suc.prems by simp
    moreover have "in_int32 (10 ^ Suc k)" using Suc.hyps(2) power_in_int32 [of "Suc k"] by simp
    ultimately show ?thesis
      using Suc.hyps(1) [of "Suc k"] Suc.hyps(2) Suc.prems True c_div_power [of sid k]
      by (subst id_length_loop.simps) (simp add: mult.commute add.commute)
  next
    case False
    then have "nat sid < 10 ^ k"
      using Suc.prems by (simp add: nat_less_iff)
    then have "length (dec_nat (nat sid)) = k"
      using length_dec_nat_iff [of k "nat sid"] Suc.prems by simp
    with False Suc.prems c_div_power [of sid k] show ?thesis
      by (subst id_length_loop.simps) simp
  qed
qed

lemma id_length_loop_overflow:
  assumes "10 ^ 9 \<le> sid" and "0 < k" and "k \<le> 9"
  shows "id_length_loop sid (10 ^ k) (int k) = Inl IntOverflow"
  using assms(2,3)
proof (induction "9 - k" arbitrary: k)
  case 0
  then have "k = 9" by simp
  with assms(1) c_div_power [of sid 9] show ?case
    by (subst id_length_loop.simps) (simp add: in_int32_def)
next
  case (Suc j)
  have "(10::int) ^ k \<le> 10 ^ 9" using Suc.prems by (intro power_increasing) auto
  with assms(1) have "10 ^ k \<le> sid" by simp
  moreover have "in_int32 (10 ^ Suc k)" using Suc.hyps(2) power_in_int32 [of "Suc k"] by simp
  moreover have "0 \<le> sid" using assms(1) by simp
  ultimately show ?case
    using Suc.hyps(1) [of "Suc k"] Suc.hyps(2) c_div_power [of sid k]
    by (subst id_length_loop.simps) (simp add: mult.commute add.commute)
qed

lemma id_length_of_small [md_simps]:
  assumes "0 \<le> sid" and "sid < 10 ^ 9"
  shows "id_length_of sid = Inr (int (length (dec_nat (nat sid))))"
  using id_length_loop_digits [OF assms, of 1] length_dec_nat_pos [of "nat sid"]
  by (simp add: id_length_of_def Suc_leI)

lemma id_length_of_large: "10 ^ 9 \<le> sid \<Longrightarrow> id_length_of sid = Inl IntOverflow"
  using id_length_loop_overflow [of sid 1] by (simp add: id_length_of_def)

subsection \<open>What goes on the wire\<close>

definition sock_frame :: "int \<Rightarrow> bytes \<Rightarrow> bytes" where
  "sock_frame sid payload = ''sock,'' @ print_int sid @ '','' @ payload"

lemma length_sock_frame:
  "0 \<le> sid \<Longrightarrow> length (sock_frame sid payload) = length payload + length (dec_nat (nat sid)) + 6"
  by (simp add: sock_frame_def print_int_nonneg)

text \<open>The frame is built by printing the header and copying the payload over its NUL.\<close>

lemma send_frame:
  assumes "mfsockid s \<noteq> -1" and "sem_map s sid \<noteq> None" and "0 \<le> sid" and "sid < 10 ^ 9"
    and "1 \<le> n" and "nat n \<le> length buffer" and "0 \<le> ret"
  shows "send sid buffer n stack ret s = Inr ([sock_frame sid (take (nat n) buffer)], ret)"
proof -
  define L where "L = length (dec_nat (nat sid))"
  define arr where "arr = stack_array (nat (n + int L + 6)) stack"
  have len: "length (''sock,'' @ print_int sid @ '','') = L + 6"
    using assms(3) by (simp add: print_int_nonneg L_def)
  have arr: "length arr = nat n + L + 6"
    using assms(5) by (simp add: arr_def nat_add_distrib)
  then have "L + 6 < length arr" using assms(5) by simp
  with len have prt: "sprintf_buf (''sock,'' @ print_int sid @ '','') arr =
      Inr ((''sock,'' @ print_int sid @ '','') @ NUL # drop (Suc (L + 6)) arr)"
    using sprintf_buf_ok [of "''sock,'' @ print_int sid @ '',''" arr]
    by (simp add: numeral_eq_Suc)
  define hdr where "hdr = ''sock,'' @ print_int sid @ '',''"
  have hl: "length hdr = 6 + L" using len by (simp add: hdr_def)
  have "write_at (6 + L) (take (nat n) buffer) (hdr @ NUL # drop (Suc (L + 6)) arr) =
      Inr (hdr @ take (nat n) buffer)"
    using hl arr assms(5,6) by (simp add: write_at_def)
  then show ?thesis
    using assms prt id_length_of_small [of sid] len
    by (simp add: send_def Let_def read_at_def L_def [symmetric] arr_def [symmetric]
        sock_frame_def hdr_def)
qed

lemma send_refused:
  "sem_map s sid = None \<Longrightarrow> send sid buffer n stack ret s = Inr ([], -1)"
  by (simp add: send_def)

subsection \<open>What listen makes of it\<close>

lemma strtok_first:
  assumes "t \<noteq> []" and "no_char '','' t" and "no_nul t"
  shows "strtok '','' (t @ CHR '','' # post) 0 =
     Some \<lparr>tok = t, tok_start = 0, tok_next = length t + 1, tok_buf = t @ NUL # post\<rparr>"
  using strtok_field [of "[]" 0 t "'',''" "CHR '',''" post] assms by simp

lemma strtok_number:
  assumes "length pre = pos"
  shows "strtok '','' (pre @ print_int i @ CHR '','' # post) pos =
     Some \<lparr>tok = print_int i, tok_start = pos, tok_next = pos + length (print_int i) + 1,
          tok_buf = pre @ print_int i @ NUL # post\<rparr>"
  using strtok_field [of pre pos "print_int i" "'',''" "CHR '',''" post] assms by simp

lemma listen_header:
  assumes "mfsockid s \<noteq> -1" and "length m \<le> MAX_CHUNK" and "m = hdr @ CHR '','' # rest"
    and "hdr \<noteq> []" and "no_char '','' hdr" and "no_nul hdr"
  shows "listen stack (Some m) s =
     (let t = \<lparr>tok = hdr, tok_start = 0, tok_next = length hdr + 1,
               tok_buf = hdr @ NUL # rest @ drop (length m) (stack_array MAX_CHUNK stack)\<rparr>
      in if hdr = ''create'' then Inr (s\<lparr>accept_sem := Suc (accept_sem s)\<rparr>, 0)
         else if hdr = ''accepted'' then listen_accepted t s
         else if hdr = ''sock'' then listen_sock (int (length m)) t s
         else if hdr = ''close'' then listen_close t s
         else Inr (s, -1))"
proof -
  have "fill m (stack_array MAX_CHUNK stack) =
      hdr @ CHR '','' # rest @ drop (length m) (stack_array MAX_CHUNK stack)"
    using assms(2,3) by (simp add: fill_fits)
  moreover have "min (length m) MAX_CHUNK = length m" using assms(2) by simp
  ultimately show ?thesis
    using assms(1) strtok_first [OF assms(4,5,6)]
    by (simp add: listen_def Let_def)
qed

lemma listen_sock_frame:
  assumes "mfsockid s \<noteq> -1" and "0 \<le> sid" and "sid < 10 ^ 9"
    and "length (sock_frame sid payload) \<le> MAX_CHUNK"
  shows "listen stack (Some (sock_frame sid payload)) s =
     (if sem_map s sid = None then Inr (s, -1)
      else rbind (push_message sid payload s) (\<lambda>s1. Inr (s1, 0)))"
proof -
  define m where "m = sock_frame sid payload"
  define st where "st = drop (length m) (stack_array MAX_CHUNK stack)"
  define L where "L = length (dec_nat (nat sid))"
  have m: "m = ''sock'' @ CHR '','' # (print_int sid @ CHR '','' # payload)"
    by (simp add: m_def sock_frame_def)
  have lm: "int (length m) = int (length payload) + int L + 6"
    using assms(2) by (simp add: m_def length_sock_frame L_def)
  have t2: "strtok '','' ((''sock'' @ [NUL]) @ print_int sid @ CHR '','' # (payload @ st)) 5 =
     Some \<lparr>tok = print_int sid, tok_start = 5, tok_next = 5 + L + 1,
          tok_buf = (''sock'' @ [NUL]) @ print_int sid @ NUL # (payload @ st)\<rparr>"
    using strtok_number [of "''sock'' @ [NUL]" 5 sid "payload @ st"] assms(2)
    by (simp add: print_int_nonneg L_def)
  have rd: "read_at (6 + L) (length payload)
      ((''sock'' @ [NUL]) @ print_int sid @ NUL # (payload @ st)) = Inr payload"
    using assms(2) read_at_append [of "6 + L" "(''sock'' @ [NUL]) @ print_int sid @ [NUL]"
        "length payload" payload st]
    by (simp add: print_int_nonneg L_def)
  have sid: "strtol_int (print_int sid) = sid"
    using assms(2,3) strtol_int_print_int_0 [of sid] by (simp add: in_int32_def)
  define t where "t = \<lparr>tok = ''sock'', tok_start = 0, tok_next = 5,
     tok_buf = (''sock'' @ [NUL]) @ print_int sid @ CHR '','' # (payload @ st)\<rparr>"
  have "listen stack (Some m) s = listen_sock (int (length m)) t s"
    using listen_header [OF assms(1) _ m, of stack] assms(4)
    by (simp add: m_def [symmetric] st_def [symmetric] t_def numeral_eq_Suc)
  also have "\<dots> = (if sem_map s sid = None then Inr (s, -1)
      else rbind (push_message sid payload s) (\<lambda>s1. Inr (s1, 0)))"
    unfolding listen_sock_def t_def token.simps t2 option.case
    using rd sid lm id_length_of_small [OF assms(2,3)] by (simp add: L_def [symmetric])
  finally show ?thesis by (simp add: m_def)
qed

text \<open>The three control messages are 1024-byte arrays: the text, a NUL, then unused bytes.\<close>

definition control_frame :: "string \<Rightarrow> (nat \<Rightarrow> char) \<Rightarrow> bytes" where
  "control_frame cmd stack = cmd @ NUL # drop (Suc (length cmd)) (stack_array BUFFER_SIZE stack)"

lemma sprintf_control:
  "length cmd < BUFFER_SIZE \<Longrightarrow>
     sprintf_buf cmd (stack_array BUFFER_SIZE stack) = Inr (control_frame cmd stack)"
  by (simp add: sprintf_buf_ok control_frame_def)

lemma length_control: "length cmd < BUFFER_SIZE \<Longrightarrow> length (control_frame cmd stack) = BUFFER_SIZE"
  by (simp add: control_frame_def)

lemma control_fits: "length cmd < BUFFER_SIZE \<Longrightarrow> length (control_frame cmd stack) \<le> MAX_CHUNK"
  by (simp add: length_control) (simp add: BUFFER_SIZE_def MAX_CHUNK_def)

lemma length_print_int_le:
  assumes "in_int32 i"
  shows "length (print_int i) \<le> 11"
proof -
  have "nat \<bar>i\<bar> < 10 ^ 10" using assms by (auto simp: in_int32_def)
  then have "length (dec_nat (nat \<bar>i\<bar>)) \<le> 10" using length_dec_nat_le [of 10] by simp
  then show ?thesis by (auto simp: print_int_def split: if_splits)
qed

lemma connect_request_frame:
  assumes "mfsockid s \<noteq> -1" and "0 \<le> ret"
  shows "connect_request stack ret s =
     Inr (s\<lparr>id_lock := True\<rparr>, [control_frame ''create'' stack], None)"
  using assms sprintf_control [of "''create''" stack]
  by (simp add: connect_request_def BUFFER_SIZE_def)

lemma listen_create:
  assumes "mfsockid s \<noteq> -1"
  shows "listen stack' (Some (control_frame ''create'' stack)) s =
     Inr (s\<lparr>accept_sem := Suc (accept_sem s)\<rparr>, 0)"
proof -
  define post where "post = drop 7 (stack_array BUFFER_SIZE stack) @
    drop BUFFER_SIZE (stack_array MAX_CHUNK stack')"
  have "fill (control_frame ''create'' stack) (stack_array MAX_CHUNK stack') = ''create'' @ NUL # post"
    using control_fits [of "''create''" stack] length_control [of "''create''" stack]
    by (simp add: fill_fits BUFFER_SIZE_def) (simp add: control_frame_def post_def BUFFER_SIZE_def numeral_eq_Suc)
  moreover have "strtok '','' (''create'' @ NUL # post) 0 =
      Some \<lparr>tok = ''create'', tok_start = 0, tok_next = 6, tok_buf = ''create'' @ NUL # post\<rparr>"
    using strtok_last [of "[]" 0 "''create''" "'',''" post] by (simp add: no_char_def numeral_eq_Suc)
  ultimately show ?thesis
    using assms by (simp add: listen_def)
qed

lemma listen_control_number:
  assumes "mfsockid s \<noteq> -1" and "in_int32 i" and "hdr \<noteq> []" and "no_char '','' hdr" and "no_nul hdr"
    and "length hdr \<le> 10"
  shows "\<exists>t t2. strtok '','' (tok_buf t) (tok_next t) = Some t2 \<and> strtol_int (tok t2) = i \<and>
     listen stack' (Some (control_frame (hdr @ '','' @ print_int i @ '','') stack)) s =
       (if hdr = ''create'' then Inr (s\<lparr>accept_sem := Suc (accept_sem s)\<rparr>, 0)
         else if hdr = ''accepted'' then listen_accepted t s
         else if hdr = ''sock'' then listen_sock (int BUFFER_SIZE) t s
         else if hdr = ''close'' then listen_close t s
         else Inr (s, -1))"
proof -
  define cmd where "cmd = hdr @ '','' @ print_int i @ '',''"
  have fits: "length cmd < BUFFER_SIZE"
    using assms(6) length_print_int_le [OF assms(2)] by (simp add: cmd_def BUFFER_SIZE_def)
  define m where "m = control_frame cmd stack"
  have lm: "length m = BUFFER_SIZE" using fits length_control by (simp add: m_def)
  define rest where "rest = NUL # drop (Suc (length cmd)) (stack_array BUFFER_SIZE stack)"
  have m: "m = hdr @ CHR '','' # print_int i @ CHR '','' # rest"
    by (simp add: m_def control_frame_def cmd_def rest_def)
  define st where "st = drop (length m) (stack_array MAX_CHUNK stack')"
  define t where "t = \<lparr>tok = hdr, tok_start = 0, tok_next = length hdr + 1,
     tok_buf = hdr @ NUL # (print_int i @ CHR '','' # rest) @ st\<rparr>"
  have "strtok '','' ((hdr @ [NUL]) @ print_int i @ CHR '','' # (rest @ st)) (length hdr + 1) =
    Some \<lparr>tok = print_int i, tok_start = length hdr + 1,
          tok_next = length hdr + 1 + length (print_int i) + 1,
          tok_buf = (hdr @ [NUL]) @ print_int i @ NUL # (rest @ st)\<rparr>"
    by (rule strtok_number) simp
  then obtain t2 where "strtok '','' (tok_buf t) (tok_next t) = Some t2" "tok t2 = print_int i"
    by (simp add: t_def)
  moreover have "strtol_int (print_int i) = i" using assms(2) by (rule strtol_int_print_int_0)
  moreover have "length m \<le> MAX_CHUNK" using control_fits [OF fits] by (simp add: m_def)
  ultimately have "listen stack' (Some m) s =
       (if hdr = ''create'' then Inr (s\<lparr>accept_sem := Suc (accept_sem s)\<rparr>, 0)
         else if hdr = ''accepted'' then listen_accepted t s
         else if hdr = ''sock'' then listen_sock (int BUFFER_SIZE) t s
         else if hdr = ''close'' then listen_close t s
         else Inr (s, -1))"
    using listen_header [OF assms(1) _ m assms(3,4,5), of stack'] lm
    by (simp add: t_def st_def Let_def)
  moreover note \<open>strtok '','' (tok_buf t) (tok_next t) = Some t2\<close>
  moreover have "strtol_int (tok t2) = i"
    using \<open>tok t2 = print_int i\<close> \<open>strtol_int (print_int i) = i\<close> by simp
  ultimately show ?thesis unfolding cmd_def [symmetric] m_def [symmetric] by blast
qed

lemma listen_accepted_frame:
  assumes "mfsockid s \<noteq> -1" and "in_int32 i"
  shows "listen stack' (Some (control_frame (''accepted,'' @ print_int i @ '','') stack)) s =
     Inr (s\<lparr>connect_queue := connect_queue s @ [i], connect_sem := Suc (connect_sem s)\<rparr>, 0)"
  using listen_control_number [OF assms, of "''accepted''" stack' stack]
  by (auto simp: no_char_def listen_accepted_def)

lemma listen_close_frame:
  assumes "mfsockid s \<noteq> -1" and "in_int32 i"
  shows "listen stack' (Some (control_frame (''close,'' @ print_int i @ '','') stack)) s =
     rbind (close i 1 (\<lambda>_. NUL) 0 s) (\<lambda>(s1, sent, r). Inr (s1, 0))"
  using listen_control_number [OF assms, of "''close''" stack' stack]
  by (auto simp: no_char_def listen_close_def)

lemma skip_used_spec:
  assumes "skip_used m n = Inr k"
  shows "n \<le> k \<and> m k = None \<and> (\<forall>i. n \<le> i \<longrightarrow> i < k \<longrightarrow> m i \<noteq> None)"
  using assms
proof (induction m n rule: skip_used.induct)
  case (1 m n)
  show ?case
  proof (cases "m n = None")
    case True
    with "1.prems" show ?thesis by (simp add: skip_used.simps [of m n])
  next
    case False
    with "1.prems" have r: "in_int32 (n + 1)" "skip_used m (n + 1) = Inr k"
      by (simp_all add: skip_used.simps [of m n] split: if_splits)
    with "1.IH" False have "n + 1 \<le> k \<and> m k = None \<and> (\<forall>i. n + 1 \<le> i \<longrightarrow> i < k \<longrightarrow> m i \<noteq> None)"
      by simp
    with False show ?thesis
      by (metis add.commute add_le_cancel_right int_one_le_iff_zero_less linorder_not_le order_le_less
          zle_add1_eq_le zless_imp_add1_zle le_cases order_trans)
  qed
qed

lemma skip_used_range: "in_int32 n \<Longrightarrow> skip_used m n = Inr k \<Longrightarrow> in_int32 k"
proof (induction m n rule: skip_used.induct)
  case (1 m n)
  then show ?case
    by (auto simp: skip_used.simps [of m n] split: if_splits)
qed

lemma accept_respond_frame:
  assumes "skip_used (sem_map s) (mfsockid s + 1) = Inr newID" and "in_int32 (mfsockid s + 1)" and "0 \<le> ret"
  shows "accept_respond stack ret s =
     Inr (s\<lparr>mfsockid := newID, id_lock := True\<rparr>,
          [control_frame (''accepted,'' @ print_int newID @ '','') stack])"
proof -
  have "in_int32 newID" using skip_used_range assms(1,2) by blast
  then have "length (''accepted,'' @ print_int newID @ '','') < BUFFER_SIZE"
    using length_print_int_le [of newID] by (simp add: BUFFER_SIZE_def)
  from sprintf_control [OF this] show ?thesis
    using assms by (simp add: accept_respond_def inc32_def)
qed

end
