(* ===== verification/MsgInv.thy ===== *)
theory MsgInv
  imports MsgFrames
begin

text \<open>
  The invariant of a message distributor and of the threads inside its methods: the maps
  agree, every registered socket has a live queue, and its semaphore counts exactly the
  messages in it. The queue interface \<open>sem_queue\<close> is interpreted on the distributor twice:
  for accepted connections and for the messages of one socket.
\<close>

named_theorems md_inv "preservation of the distributor's invariant"

subsection \<open>The invariant\<close>

definition conn :: "msgd \<Rightarrow> int \<Rightarrow> nat \<Rightarrow> nat \<Rightarrow> bool" where
  "conn s i a q \<longleftrightarrow> sem_map s i = Some a \<and> queue_map s i = Some q"

definition sock_ok :: "msgd \<Rightarrow> nat \<Rightarrow> nat \<Rightarrow> bool" where
  "sock_ok s a q \<longleftrightarrow> a < next_addr s \<and> q < next_addr s \<and>
     (\<exists>cs. queue_heap s q = Some cs \<and> sem_heap s a = Some (length cs))"

definition msgd_inv :: "msgd \<Rightarrow> bool" where
  "msgd_inv s \<longleftrightarrow>
     connect_sem s = length (connect_queue s) \<and>
     (\<forall>i. sem_map s i = None \<longleftrightarrow> queue_map s i = None) \<and>
     (\<forall>i a q j b p. conn s i a q \<longrightarrow> conn s j b p \<longrightarrow> a = b \<or> q = p \<longrightarrow> i = j) \<and>
     (\<forall>i a q. conn s i a q \<longrightarrow> sock_ok s a q \<and> status_map s i = Some 1) \<and>
     (\<forall>i. sem_map s i = None \<longrightarrow> status_map s i = None \<or> status_map s i = Some 0)"

lemma msgd_invI:
  assumes "connect_sem s = length (connect_queue s)"
    and "\<And>i. sem_map s i = None \<longleftrightarrow> queue_map s i = None"
    and "\<And>i a q j b p. conn s i a q \<Longrightarrow> conn s j b p \<Longrightarrow> a = b \<or> q = p \<Longrightarrow> i = j"
    and "\<And>i a q. conn s i a q \<Longrightarrow> sock_ok s a q"
    and "\<And>i a q. conn s i a q \<Longrightarrow> status_map s i = Some 1"
    and "\<And>i. sem_map s i = None \<Longrightarrow> status_map s i = None \<or> status_map s i = Some 0"
  shows "msgd_inv s"
  using assms unfolding msgd_inv_def by blast

lemma msgd_invD:
  assumes "msgd_inv s"
  shows "connect_sem s = length (connect_queue s)"
    and "sem_map s i = None \<longleftrightarrow> queue_map s i = None"
    and "conn s i a q \<Longrightarrow> conn s j b p \<Longrightarrow> a = b \<or> q = p \<Longrightarrow> i = j"
    and "conn s i a q \<Longrightarrow> sock_ok s a q"
    and "conn s i a q \<Longrightarrow> status_map s i = Some 1"
    and "sem_map s i = None \<Longrightarrow> status_map s i = None \<or> status_map s i = Some 0"
  using assms unfolding msgd_inv_def by blast+

lemma registered:
  assumes "msgd_inv s" and "sem_map s i = Some a"
  obtains q cs where "conn s i a q" "queue_heap s q = Some cs" "sem_heap s a = Some (length cs)"
    "status_map s i = Some 1"
proof -
  from assms obtain q where "conn s i a q"
    using msgd_invD(2) [of s i] by (cases "queue_map s i") (auto simp: conn_def)
  with assms that show ?thesis using msgd_invD(4,5) [of s i a q] by (auto simp: sock_ok_def)
qed

text \<open>The messages waiting on a socket, and the value of its semaphore.\<close>

definition messages :: "int \<Rightarrow> msgd \<Rightarrow> bytes list" where
  "messages sid s =
     (case queue_map s sid of None \<Rightarrow> []
      | Some q \<Rightarrow> (case queue_heap s q of None \<Rightarrow> [] | Some cs \<Rightarrow> cs))"

definition sem_value :: "int \<Rightarrow> msgd \<Rightarrow> nat" where
  "sem_value sid s =
     (case sem_map s sid of None \<Rightarrow> 0
      | Some a \<Rightarrow> (case sem_heap s a of None \<Rightarrow> 0 | Some n \<Rightarrow> n))"

lemma inv_new_msgd [md_inv]: "msgd_inv new_msgd"
  by (simp add: msgd_inv_def new_msgd_def conn_def)

text \<open>The invariant reads neither the ids, the lock nor \<open>accept_sem\<close>.\<close>

lemma inv_frame:
  assumes "msgd_inv s" and "connect_sem t = length (connect_queue t)"
    and "sem_map t = sem_map s" "queue_map t = queue_map s" "status_map t = status_map s"
    and "sem_heap t = sem_heap s" "queue_heap t = queue_heap s" "next_addr t = next_addr s"
  shows "msgd_inv t"
  using assms unfolding msgd_inv_def conn_def sock_ok_def by simp

lemma inv_init [md_inv]:
  assumes "msgd_inv s" and "connect_queue s = []" and "init src dst d r ok s = Inr (s', v)"
  shows "msgd_inv s'"
  using assms(3) msgd_invD(1) [OF assms(1)] assms(2)
  by (intro inv_frame [OF assms(1)]) (auto simp: init_def Let_def split: if_splits)

lemma conn_register:
  "conn (register_connection sid s) i a q \<longleftrightarrow>
     (if i = sid then a = next_addr s \<and> q = Suc (next_addr s) else conn s i a q)"
  by (auto simp: conn_def register_connection_def Let_def)

lemma inv_register [md_inv]:
  assumes "msgd_inv s"
  shows "msgd_inv (register_connection sid s)"
proof (rule msgd_invI)
  fix i a q j b p
  assume *: "conn (register_connection sid s) i a q" "conn (register_connection sid s) j b p" "a = b \<or> q = p"
  have "\<not> conn s k (next_addr s) r" "\<not> conn s k r (Suc (next_addr s))" for k r
    using msgd_invD(4) [OF assms, of k] by (fastforce simp: sock_ok_def)+
  with * show "i = j"
    using msgd_invD(3) [OF assms, of i a q j b p] by (auto simp: conn_register split: if_splits)
next
  fix i a q
  assume "conn (register_connection sid s) i a q"
  then have *: "if i = sid then a = next_addr s \<and> q = Suc (next_addr s) else conn s i a q"
    by (simp only: conn_register)
  show "sock_ok (register_connection sid s) a q"
  proof (cases "i = sid")
    case True
    with * show ?thesis by (simp add: sock_ok_def register_connection_def Let_def)
  next
    case False
    with * msgd_invD(4) [OF assms, of i a q] show ?thesis
      by (auto simp: sock_ok_def register_connection_def Let_def)
  qed
  show "status_map (register_connection sid s) i = Some 1"
    using * msgd_invD(5) [OF assms, of i a q]
    by (auto simp: register_connection_def Let_def)
next
  fix i
  assume "sem_map (register_connection sid s) i = None"
  then show "status_map (register_connection sid s) i = None \<or> status_map (register_connection sid s) i = Some 0"
    using msgd_invD(6) [OF assms, of i] by (auto simp: register_connection_def Let_def split: if_splits)
qed (use msgd_invD(1,2) [OF assms] in \<open>auto simp: register_connection_def Let_def\<close>)

text \<open>A message pushed to a registered socket.\<close>

lemma push_message_ok:
  assumes "msgd_inv s" and "conn s sid a q" and "queue_heap s q = Some cs"
  shows "push_message sid content s =
     Inr (s\<lparr>queue_heap := (queue_heap s)(q \<mapsto> cs @ [content]),
            sem_heap := (sem_heap s)(a \<mapsto> Suc (length cs))\<rparr>)"
proof -
  from assms have "sem_heap s a = Some (length cs)"
    using msgd_invD(4) [of s sid a q] by (auto simp: sock_ok_def)
  with assms show ?thesis by (auto simp: push_message_def sem_post_def conn_def)
qed

text \<open>Replacing the queue of one socket together with its count keeps the invariant.\<close>

lemma inv_set_queue:
  assumes "msgd_inv s" and "conn s sid a q"
  shows "msgd_inv (s\<lparr>queue_heap := (queue_heap s)(q \<mapsto> cs), sem_heap := (sem_heap s)(a \<mapsto> length cs)\<rparr>)"
    (is "msgd_inv ?t")
proof (rule msgd_invI)
  have c: "conn ?t = conn s" by (intro ext) (simp add: conn_def)
  fix i b p j b' p'
  assume "conn ?t i b p" "conn ?t j b' p'" "b = b' \<or> p = p'"
  then show "i = j" using msgd_invD(3) [OF assms(1)] unfolding c by blast
next
  have c: "conn ?t = conn s" by (intro ext) (simp add: conn_def)
  fix i b p
  assume "conn ?t i b p"
  then have i: "conn s i b p" unfolding c .
  with assms(2) have "b = a \<or> p = q \<Longrightarrow> i = sid" using msgd_invD(3) [OF assms(1)] by blast
  with i assms(2) have "b = a \<longleftrightarrow> p = q" by (auto simp: conn_def)
  with i msgd_invD(4) [OF assms(1) i] show "sock_ok ?t b p" by (auto simp: sock_ok_def)
  from i show "status_map ?t i = Some 1" using msgd_invD(5) [OF assms(1)] by simp
qed (use msgd_invD(1,2,6) [OF assms(1)] in auto)

lemma inv_push [md_inv]:
  assumes "msgd_inv s" and "push_message sid content s = Inr s'"
  shows "msgd_inv s'"
proof -
  from assms(2) obtain a where "sem_map s sid = Some a"
    by (auto simp: push_message_def Let_def split: option.splits)
  with assms(1) obtain q cs where *: "conn s sid a q" "queue_heap s q = Some cs"
    by (rule registered)
  with assms have "s' = s\<lparr>queue_heap := (queue_heap s)(q \<mapsto> cs @ [content]),
            sem_heap := (sem_heap s)(a \<mapsto> length (cs @ [content]))\<rparr>"
    using push_message_ok by fastforce
  with inv_set_queue [OF assms(1) *(1), of "cs @ [content]"] show ?thesis by (simp only:)
qed

text \<open>Waiting on a registered socket and popping its message, as \<open>recv\<close> does.\<close>

definition take_message :: "int \<Rightarrow> msgd \<Rightarrow> (bytes \<times> msgd) res" where
  "take_message sid s =
     (case sem_map s sid of None \<Rightarrow> Inl NullPointer | Some a \<Rightarrow> pop_message sid (sem_take a s))"

lemma take_message_ok:
  assumes "msgd_inv s" and "conn s sid a q" and "queue_heap s q = Some (c # cs)"
  shows "take_message sid s =
     Inr (c, s\<lparr>queue_heap := (queue_heap s)(q \<mapsto> cs), sem_heap := (sem_heap s)(a \<mapsto> length cs)\<rparr>)"
proof -
  from assms have "sem_heap s a = Some (Suc (length cs))"
    using msgd_invD(4) [of s sid a q] by (auto simp: sock_ok_def)
  with assms show ?thesis by (simp add: take_message_def pop_message_def sem_take_def conn_def)
qed

lemma messages_conn: "conn s sid a q \<Longrightarrow> queue_heap s q = Some cs \<Longrightarrow> messages sid s = cs"
  by (simp add: messages_def conn_def)

lemma sem_value_conn:
  "msgd_inv s \<Longrightarrow> conn s sid a q \<Longrightarrow> queue_heap s q = Some cs \<Longrightarrow> sem_value sid s = length cs"
  using msgd_invD(4) [of s sid a q] by (auto simp: sem_value_def conn_def sock_ok_def)

subsection \<open>close\<close>

lemma close_registered:
  assumes "msgd_inv s" and "mfsockid s \<noteq> -1" and "conn s sid a q" and "queue_heap s q = Some cs"
    and "in_int32 sid"
  shows "close sid passive stack ret s =
     Inr (s\<lparr>status_map := (status_map s)(sid \<mapsto> 0),
            sem_heap := (sem_heap s)(a \<mapsto> Suc (length cs)),
            queue_heap := (queue_heap s)(q := None),
            sem_map := (sem_map s)(sid := None), queue_map := (queue_map s)(sid := None)\<rparr>,
          if passive = 0 \<and> 0 \<le> ret then [control_frame (''close,'' @ print_int sid @ '','') stack] else [],
          if passive = 0 \<and> ret < 0 then -1 else 0)"
proof -
  have "length (''close,'' @ print_int sid @ '','') < BUFFER_SIZE"
    using length_print_int_le [OF assms(5)] by (simp add: BUFFER_SIZE_def)
  note ctl = sprintf_control [OF this, of stack]
  have "sem_heap s a = Some (length cs)"
    using msgd_invD(4) [OF assms(1,3)] assms(4) by (auto simp: sock_ok_def)
  with assms(2,3) ctl show ?thesis
    by (simp add: close_def conn_def sem_post_def Let_def)
qed

lemma close_unregistered: "mfsockid s \<noteq> -1 \<Longrightarrow> sem_map s sid = None \<Longrightarrow> close sid passive stack ret s = Inr (s, [], -1)"
  by (simp add: close_def)

lemma inv_drop_conn:
  assumes "msgd_inv s" and "conn s sid a q"
    and "sem_heap t = (sem_heap s)(a \<mapsto> n)" "queue_heap t = (queue_heap s)(q := None)"
    and "sem_map t = (sem_map s)(sid := None)" "queue_map t = (queue_map s)(sid := None)"
    and "status_map t = (status_map s)(sid \<mapsto> 0)" "next_addr t = next_addr s"
    and "connect_sem t = connect_sem s" "connect_queue t = connect_queue s"
  shows "msgd_inv t"
proof (rule msgd_invI)
  have c: "conn t i b p \<longleftrightarrow> i \<noteq> sid \<and> conn s i b p" for i b p
    using assms(5,6) by (simp add: conn_def)
  fix i b p j b' p'
  assume "conn t i b p" "conn t j b' p'" "b = b' \<or> p = p'"
  then show "i = j" using msgd_invD(3) [OF assms(1)] unfolding c by blast
next
  have c: "conn t i b p \<longleftrightarrow> i \<noteq> sid \<and> conn s i b p" for i b p
    using assms(5,6) by (simp add: conn_def)
  fix i b p
  assume "conn t i b p"
  then have i: "i \<noteq> sid" "conn s i b p" by (simp_all add: c)
  with assms(2) have "b \<noteq> a" "p \<noteq> q" using msgd_invD(3) [OF assms(1)] by blast+
  with msgd_invD(4) [OF assms(1) i(2)] assms(3,4,8) show "sock_ok t b p" by (simp add: sock_ok_def)
  show "status_map t i = Some 1" using i msgd_invD(5) [OF assms(1) i(2)] assms(7) by simp
next
  fix i
  assume "sem_map t i = None"
  then show "status_map t i = None \<or> status_map t i = Some 0"
    using msgd_invD(6) [OF assms(1), of i] assms(5,7) by (auto split: if_splits)
qed (use msgd_invD(1,2) [OF assms(1)] assms in auto)

lemma inv_close [md_inv]:
  assumes "msgd_inv s" and "close sid passive stack ret s = Inr (s', sent, r)"
  shows "msgd_inv s'"
proof (cases "sem_map s sid")
  case None
  with assms show ?thesis by (auto simp: close_def split: if_splits)
next
  case (Some a)
  with assms(1) obtain q cs where *: "conn s sid a q" "queue_heap s q = Some cs" "sem_heap s a = Some (length cs)"
    by (rule registered)
  show ?thesis
    using assms(2) * Some
    by (intro inv_drop_conn [OF assms(1) *(1)])
      (auto simp: close_def sem_post_def conn_def Let_def res_simps split: if_splits)
qed

subsection \<open>recv\<close>

text \<open>
  What a thread inside \<open>recv\<close> holds across its wait: either the socket's present semaphore,
  or that of a socket closed meanwhile, which no socket uses any more.
\<close>

definition waiting_ok :: "msgd \<Rightarrow> int \<Rightarrow> nat \<Rightarrow> bool" where
  "waiting_ok s sid a \<longleftrightarrow>
     sem_map s sid = Some a \<or> (sem_map s sid = None \<and> (\<forall>i. sem_map s i \<noteq> Some a))"

lemma recv_enter_waiting: "recv_enter sid s = Inr a \<Longrightarrow> waiting_ok s sid a"
  by (auto simp: recv_enter_def waiting_ok_def split: if_splits option.splits)

lemma length_copy_message [simp]: "length (copy_message content n heap) = n"
  by (simp add: copy_message_def)

lemma recv_wake_registered:
  assumes "msgd_inv s" and "conn s sid a q" and "queue_heap s q = Some (c # cs)" and "stop s = 0"
    and "n \<le> length buffer"
  shows "recv_wake sid a buffer n heap s =
     Inr (s\<lparr>queue_heap := (queue_heap s)(q \<mapsto> cs), sem_heap := (sem_heap s)(a \<mapsto> length cs)\<rparr>,
          copy_message c n heap @ drop n buffer, 1)"
proof -
  have "sem_heap s a = Some (Suc (length cs))" "status_map s sid = Some 1"
    using msgd_invD(4,5) [OF assms(1,2)] assms(3) by (auto simp: sock_ok_def)
  with assms show ?thesis
    by (simp add: recv_wake_def Let_def sem_take_def pop_message_def conn_def write_at_def)
qed

lemma recv_wake_closed:
  assumes "msgd_inv s" and "sem_map s sid = None"
  shows "recv_wake sid a buffer n heap s =
     Inr ((sem_take a s)\<lparr>status_map := (status_map s)(sid := None)\<rparr>, buffer, -1)"
  using msgd_invD(6) [OF assms] by (auto simp: recv_wake_def Let_def sem_take_def)

lemma inv_take_unused:
  assumes "msgd_inv s" and "\<forall>i. sem_map s i \<noteq> Some a" and "sem_map s sid = None"
  shows "msgd_inv ((sem_take a s)\<lparr>status_map := (status_map s)(sid := None)\<rparr>)" (is "msgd_inv ?t")
proof -
  have c: "conn ?t = conn s" by (intro ext) (simp add: conn_def sem_take_def)
  have "conn s i b p \<Longrightarrow> b \<noteq> a" "conn s i b p \<Longrightarrow> i \<noteq> sid" for i b p
    using assms(2,3) by (auto simp: conn_def)
  then have ok: "conn s i b p \<Longrightarrow> sock_ok ?t b p \<and> status_map ?t i = Some 1" for i b p
    using msgd_invD(4,5) [OF assms(1), of i b p] by (simp add: sock_ok_def sem_take_def)
  show ?thesis
  proof (rule msgd_invI)
    fix i b p j b' p'
    assume "conn ?t i b p" "conn ?t j b' p'" "b = b' \<or> p = p'"
    then show "i = j" using msgd_invD(3) [OF assms(1)] unfolding c by blast
  qed (use ok c msgd_invD(1,2,6) [OF assms(1)] in \<open>auto simp: sem_take_def\<close>)
qed

text \<open>A thread that wakes up in \<open>recv\<close> always returns, and the invariant still holds.\<close>

lemma recv_wake_safe:
  assumes "msgd_inv s" and "waiting_ok s sid a" and "sem_heap s a = Some (Suc k)" and "stop s = 0"
    and "n \<le> length buffer"
  shows "\<exists>s' b r. recv_wake sid a buffer n heap s = Inr (s', b, r) \<and> msgd_inv s'"
proof (cases "sem_map s sid = Some a")
  case True
  with assms(1) obtain q cs where *: "conn s sid a q" "queue_heap s q = Some cs" "sem_heap s a = Some (length cs)"
    by (rule registered)
  with assms(3) obtain c cs' where "cs = c # cs'" by (cases cs) auto
  with recv_wake_registered [OF assms(1) *(1) _ assms(4,5)] *(2) inv_set_queue [OF assms(1) *(1), of cs']
  show ?thesis by (intro exI conjI) auto
next
  case False
  with assms(2) have n: "sem_map s sid = None" "\<forall>i. sem_map s i \<noteq> Some a" by (auto simp: waiting_ok_def)
  with recv_wake_closed [OF assms(1)] inv_take_unused [OF assms(1)] show ?thesis by blast
qed

end
