(* ===== verification/MsgThreads.thy ===== *)
theory MsgThreads
  imports MsgInv
begin

text \<open>
  One process that uses a message distributor from many threads: the listener, threads inside
  \<open>accept\<close>, \<open>connect\<close> and \<open>recv\<close>, and threads that close sockets, as a step relation. A
  thread cut at a wait is part of the state. Every reachable state satisfies the invariant,
  no id is given out twice, and no thread that wakes up in \<open>recv\<close> or \<open>connect\<close> touches an
  empty or deleted queue.
\<close>

subsection \<open>The remaining operations keep the invariant\<close>

lemma inv_listen_accepted [md_inv]: "msgd_inv s \<Longrightarrow> listen_accepted t s = Inr (s', r) \<Longrightarrow> msgd_inv s'"
  by (rule inv_frame [of s])
    (auto simp: listen_accepted_def msgd_invD(1) Let_def split: option.splits)

lemma inv_listen_sock [md_inv]: "msgd_inv s \<Longrightarrow> listen_sock ret t s = Inr (s', r) \<Longrightarrow> msgd_inv s'"
  by (auto simp: listen_sock_def Let_def res_simps inv_push split: option.splits if_splits)

lemma inv_listen_close [md_inv]: "msgd_inv s \<Longrightarrow> listen_close t s = Inr (s', r) \<Longrightarrow> msgd_inv s'"
  by (auto simp: listen_close_def res_simps split: option.splits dest: inv_close)

lemma inv_listen [md_inv]:
  assumes "msgd_inv s" and "listen stack received s = Inr (s', r)"
  shows "msgd_inv s'"
proof -
  have "msgd_inv (s\<lparr>accept_sem := n\<rparr>)" for n
    using msgd_invD(1) [OF assms(1)] by (intro inv_frame [OF assms(1)]) simp_all
  with assms show ?thesis
    by (auto simp: listen_def Let_def dest: inv_listen_accepted inv_listen_sock inv_listen_close
        split: option.splits if_splits)
qed

lemma inv_pop_connect:
  assumes "msgd_inv s" and "pop_connect (take_connect s) = Inr (i, s')"
  shows "msgd_inv s'"
  using assms(2) msgd_invD(1) [OF assms(1)]
  by (intro inv_frame [OF assms(1)]) (auto simp: pop_connect_def take_connect_def split: list.splits)

lemma inv_connect_finish [md_inv]:
  assumes "msgd_inv s" and "connect_finish s = Inr (s', r)" and "stop s = 0"
  shows "msgd_inv s'"
proof -
  from assms(2,3) obtain i s2 where *: "pop_connect (take_connect s) = Inr (i, s2)"
      "s' = (register_connection i s2)\<lparr>id_lock := False\<rparr>"
    by (auto simp: connect_finish_def Let_def res_simps take_connect_def)
  have i: "msgd_inv (register_connection i s2)"
    using inv_register [OF inv_pop_connect [OF assms(1) *(1)]] .
  show ?thesis
    unfolding *(2) using msgd_invD(1) [OF i] by (intro inv_frame [OF i]) simp_all
qed

lemma inv_accept_respond [md_inv]:
  assumes "msgd_inv s" and "accept_respond stack ret s = Inr (s', sent)"
  shows "msgd_inv s'"
  using assms(2) msgd_invD(1) [OF assms(1)]
  by (intro inv_frame [OF assms(1)]) (auto simp: accept_respond_def res_simps split: if_splits)

lemma inv_accept_register [md_inv]:
  assumes "msgd_inv s" and "accept_register s = (s', r)"
  shows "msgd_inv s'"
proof -
  have i: "msgd_inv (register_connection (mfsockid s) s)" using assms(1) by (rule inv_register)
  from assms(2) show ?thesis
    using msgd_invD(1) [OF i] by (intro inv_frame [OF i]) (auto simp: accept_register_def)
qed

lemma inv_connect_request [md_inv]:
  assumes "msgd_inv s" and "connect_request stack ret s = Inr (s', sent, v)"
  shows "msgd_inv s'"
  using assms(2) msgd_invD(1) [OF assms(1)]
  by (intro inv_frame [OF assms(1)]) (auto simp: connect_request_def res_simps split: if_splits)

subsection \<open>The queue interface on the distributor\<close>

definition listen_put :: "int \<Rightarrow> msgd \<Rightarrow> msgd res" where
  "listen_put i s = Inr (s\<lparr>connect_queue := connect_queue s @ [i], connect_sem := Suc (connect_sem s)\<rparr>)"

interpretation connq: sem_queue connect_queue connect_sem listen_put
    "\<lambda>s. rbind (pop_connect (take_connect s)) (\<lambda>(i, s'). Inr s')" msgd_inv
proof (unfold_locales, goal_cases)
  case 1 then show ?case by (rule msgd_invD)
next
  case 2 then show ?case by (simp add: listen_put_def)
next
  case (3 s x s')
  then show ?case using msgd_invD(1) [of s] by (auto simp: listen_put_def intro!: inv_frame [of s])
next
  case 4 then show ?case by (auto simp: listen_put_def)
next
  case (5 s)
  then show ?case using msgd_invD(1) [of s]
    by (auto simp: pop_connect_def take_connect_def split: list.splits)
next
  case (6 s s')
  then show ?case by (auto simp: res_simps dest: inv_pop_connect)
next
  case (7 s s')
  then show ?case using msgd_invD(1) [of s]
    by (auto simp: pop_connect_def take_connect_def split: list.splits)
qed

definition sock_inv :: "int \<Rightarrow> msgd \<Rightarrow> bool" where
  "sock_inv sid s \<longleftrightarrow> msgd_inv s \<and> sem_map s sid \<noteq> None"

lemma sock_invE:
  assumes "sock_inv sid s"
  obtains a q cs where "msgd_inv s" "conn s sid a q" "queue_heap s q = Some cs" "messages sid s = cs"
    "sem_value sid s = length cs"
proof -
  from assms obtain a where i: "msgd_inv s" "sem_map s sid = Some a" by (auto simp: sock_inv_def)
  then obtain q cs where "conn s sid a q" "queue_heap s q = Some cs" by (rule registered)
  with i that show ?thesis using messages_conn sem_value_conn by blast
qed

text \<open>The new queue of one socket, after a push or a pop.\<close>

lemma set_queue_sock:
  assumes "msgd_inv s" and "conn s sid a q"
    and "t = s\<lparr>queue_heap := (queue_heap s)(q \<mapsto> cs), sem_heap := (sem_heap s)(a \<mapsto> length cs)\<rparr>"
  shows "sock_inv sid t \<and> messages sid t = cs"
  using inv_set_queue [OF assms(1,2), of cs] assms(2,3)
  by (auto simp: sock_inv_def conn_def messages_def)

interpretation sockq: sem_queue "messages sid" "sem_value sid" "push_message sid"
    "\<lambda>s. rbind (take_message sid s) (\<lambda>(c, s'). Inr s')" "sock_inv sid" for sid
proof (unfold_locales, goal_cases)
  case (1 s) then show ?case by (auto elim: sock_invE)
next
  case (2 s x) then show ?case by (auto elim!: sock_invE dest: push_message_ok)
next
  case (3 s x s')
  then obtain a q cs where *: "msgd_inv s" "conn s sid a q" "queue_heap s q = Some cs" by (auto elim!: sock_invE)
  with 3 push_message_ok [OF *, of x] set_queue_sock [OF *(1,2), of s' "cs @ [x]"] show ?case by simp
next
  case (4 s x s')
  then obtain a q cs where *: "msgd_inv s" "conn s sid a q" "queue_heap s q = Some cs" "messages sid s = cs"
    by (auto elim!: sock_invE)
  with 4 push_message_ok [OF *(1-3), of x] set_queue_sock [OF *(1,2), of s' "cs @ [x]"] show ?case by simp
next
  case (5 s)
  then obtain a q cs where *: "msgd_inv s" "conn s sid a q" "queue_heap s q = Some cs" "0 < length cs"
    by (auto elim!: sock_invE)
  then obtain c cs' where "cs = c # cs'" by (cases cs) auto
  with take_message_ok [OF *(1,2)] *(3) show ?case by (auto simp: res_simps)
next
  case (6 s s')
  then obtain a q cs where *: "msgd_inv s" "conn s sid a q" "queue_heap s q = Some cs" "0 < length cs"
    by (auto elim!: sock_invE)
  then obtain c cs' where "cs = c # cs'" by (cases cs) auto
  with take_message_ok [OF *(1,2)] *(3) 6 set_queue_sock [OF *(1,2), of s' cs'] show ?case by simp
next
  case (7 s s')
  then obtain a q cs where *: "msgd_inv s" "conn s sid a q" "queue_heap s q = Some cs" "0 < length cs"
      "messages sid s = cs"
    by (auto elim!: sock_invE)
  then obtain c cs' where "cs = c # cs'" by (cases cs) auto
  with take_message_ok [OF *(1,2)] *(3,5) 7 set_queue_sock [OF *(1,2), of s' cs'] show ?case by simp
qed

subsection \<open>Threads of one process\<close>

text \<open>
  \<open>server\<close>: the server process only accepts, the client only connects. \<open>connecting\<close>: a thread
  waits in \<open>connect\<close>. \<open>woken\<close>: threads in \<open>accept\<close> past the semaphore. \<open>accepting\<close>: a thread in
  \<open>accept\<close> that has answered the peer and not yet entered the socket into the maps. \<open>waiters\<close>:
  threads in \<open>recv\<close>, with the socket and the semaphore's address. \<open>issued\<close> records every id
  that was ever entered.
\<close>

record md_sys =
  server :: bool
  obj :: msgd
  connecting :: bool
  woken :: nat
  accepting :: bool
  waiters :: "(int \<times> nat) list"
  issued :: "int set"

inductive md_step :: "md_sys \<Rightarrow> md_sys \<Rightarrow> bool" where
  step_listen: "listen stack received (obj s) = Inr (d, r) \<Longrightarrow> md_step s (s\<lparr>obj := d\<rparr>)"
| step_connect: "\<not> server s \<Longrightarrow> \<not> id_lock (obj s) \<Longrightarrow>
    connect_request stack ret (obj s) = Inr (d, sent, None) \<Longrightarrow>
    md_step s (s\<lparr>obj := d, connecting := True\<rparr>)"
| step_connected: "connecting s \<Longrightarrow> 0 < connect_sem (obj s) \<Longrightarrow>
    hd (connect_queue (obj s)) \<notin> issued s \<Longrightarrow> connect_finish (obj s) = Inr (d, i) \<Longrightarrow>
    md_step s (s\<lparr>obj := d, connecting := False, issued := insert i (issued s)\<rparr>)"
| step_woken: "server s \<Longrightarrow> accept_enter (obj s) = None \<Longrightarrow> 0 < accept_sem (obj s) \<Longrightarrow>
    accept_wake (obj s) = (d, None) \<Longrightarrow> md_step s (s\<lparr>obj := d, woken := Suc (woken s)\<rparr>)"
| step_respond: "0 < woken s \<Longrightarrow> \<not> id_lock (obj s) \<Longrightarrow> accept_respond stack ret (obj s) = Inr (d, sent) \<Longrightarrow>
    md_step s (s\<lparr>obj := d, woken := woken s - 1, accepting := True\<rparr>)"
| step_register: "accepting s \<Longrightarrow> accept_register (obj s) = (d, i) \<Longrightarrow>
    md_step s (s\<lparr>obj := d, accepting := False, issued := insert i (issued s)\<rparr>)"
| step_recv: "recv_enter sid (obj s) = Inr a \<Longrightarrow> md_step s (s\<lparr>waiters := (sid, a) # waiters s\<rparr>)"
| step_recv_wake: "(sid, a) \<in> set (waiters s) \<Longrightarrow> sem_heap (obj s) a = Some (Suc k) \<Longrightarrow>
    n \<le> length buffer \<Longrightarrow> recv_wake sid a buffer n heap (obj s) = Inr (d, b, r) \<Longrightarrow>
    md_step s (s\<lparr>obj := d, waiters := remove1 (sid, a) (waiters s)\<rparr>)"
| step_close: "close sid passive stack ret (obj s) = Inr (d, sent, r) \<Longrightarrow> md_step s (s\<lparr>obj := d\<rparr>)"

definition md_start :: "bool \<Rightarrow> int \<Rightarrow> int \<Rightarrow> int \<Rightarrow> md_sys" where
  "md_start srv src dst dbg =
     \<lparr>server = srv, obj = new_msgd\<lparr>mfsockid := 0, src_GUID := src, dst_GUID := dst, md_debug := dbg\<rparr>,
      connecting = False, woken = 0, accepting = False, waiters = [], issued = {}\<rparr>"

inductive md_reachable :: "md_sys \<Rightarrow> bool" where
  md_init: "init src dst dbg 0 True new_msgd = Inr (d, 0) \<Longrightarrow> md_reachable ((md_start srv src dst dbg)\<lparr>obj := d\<rparr>)"
| md_next: "md_reachable s \<Longrightarrow> md_step s t \<Longrightarrow> md_reachable t"

definition waiters_ok :: "md_sys \<Rightarrow> bool" where
  "waiters_ok s \<longleftrightarrow> (\<forall>(sid, a) \<in> set (waiters s).
     waiting_ok (obj s) sid a \<and> a < next_addr (obj s) \<and> sid \<in> issued s)"

definition sys_inv :: "md_sys \<Rightarrow> bool" where
  "sys_inv s \<longleftrightarrow> msgd_inv (obj s) \<and> stop (obj s) = 0 \<and>
     (\<forall>i. sem_map (obj s) i \<noteq> None \<longrightarrow> i \<in> issued s) \<and> waiters_ok s \<and>
     (if server s
      then \<not> connecting s \<and> (accepting s \<longrightarrow> id_lock (obj s)) \<and>
        (\<forall>i \<in> issued s. if accepting s then i < mfsockid (obj s) else i \<le> mfsockid (obj s))
      else woken s = 0 \<and> \<not> accepting s)"

text \<open>Operations that at most remove one socket and leave ids and addresses alone.\<close>

definition md_frame :: "msgd \<Rightarrow> msgd \<Rightarrow> bool" where
  "md_frame s d \<longleftrightarrow>
     (sem_map d = sem_map s \<or> (\<exists>i. sem_map d = (sem_map s)(i := None))) \<and>
     next_addr d = next_addr s \<and> stop d = stop s \<and> mfsockid d = mfsockid s \<and> (id_lock s \<longrightarrow> id_lock d)"

lemma md_frame_close: "close sid passive stack ret s = Inr (d, sent, r) \<Longrightarrow> md_frame s d"
  by (auto simp: close_def md_frame_def sem_post_def Let_def res_simps split: if_splits option.splits)

lemma md_frame_push: "push_message sid c s = Inr d \<Longrightarrow> md_frame s d"
  by (auto simp: push_message_def md_frame_def sem_post_def Let_def split: option.splits)

lemma md_frame_listen:
  assumes "listen stack received s = Inr (d, r)"
  shows "md_frame s d"
proof -
  have "listen_sock ret t s = Inr (d, r) \<Longrightarrow> md_frame s d" for ret t
    by (auto simp: listen_sock_def Let_def res_simps md_frame_push split: option.splits if_splits)
      (simp_all add: md_frame_def)
  moreover have "listen_close t s = Inr (d, r) \<Longrightarrow> md_frame s d" for t
    by (auto simp: listen_close_def res_simps split: option.splits dest: md_frame_close)
  moreover have "listen_accepted t s = Inr (d, r) \<Longrightarrow> md_frame s d" for t
    by (auto simp: listen_accepted_def Let_def md_frame_def split: option.splits)
  ultimately show ?thesis
    using assms by (auto simp: listen_def Let_def split: option.splits if_splits)
      (simp_all add: md_frame_def)
qed

lemma md_frame_recv_wake: "recv_wake sid a buffer n heap s = Inr (d, b, r) \<Longrightarrow> md_frame s d"
  by (auto simp: recv_wake_def Let_def res_simps md_frame_def sem_take_def pop_message_def
      split: if_splits option.splits list.splits)

lemma md_frame_connect_request: "connect_request stack ret s = Inr (d, sent, v) \<Longrightarrow> md_frame s d"
  by (auto simp: connect_request_def res_simps md_frame_def split: if_splits)

lemma md_frame_accept_wake: "accept_wake s = (d, v) \<Longrightarrow> md_frame s d"
  by (auto simp: accept_wake_def Let_def md_frame_def split: if_splits)

lemma waiting_ok_frame:
  assumes "msgd_inv s" and "md_frame s d" and "waiting_ok s sid a"
  shows "waiting_ok d sid a"
proof -
  from assms(2) consider "sem_map d = sem_map s" | i where "sem_map d = (sem_map s)(i := None)"
    by (auto simp: md_frame_def)
  then show ?thesis
  proof cases
    case 1
    with assms(3) show ?thesis by (simp add: waiting_ok_def)
  next
    case (2 i)
    have "sem_map s j = Some a \<Longrightarrow> sem_map s k = Some a \<Longrightarrow> j = k" for j k
      using registered [OF assms(1)] msgd_invD(3) [OF assms(1)] by metis
    with 2 assms(3) show ?thesis by (auto simp: waiting_ok_def split: if_splits)
  qed
qed

lemma waiters_ok_frame:
  assumes "waiters_ok s" and "msgd_inv (obj s)" and "md_frame (obj s) (obj t)"
    and "set (waiters t) \<subseteq> set (waiters s)" and "issued s \<subseteq> issued t"
  shows "waiters_ok t"
proof -
  have "next_addr (obj t) = next_addr (obj s)" using assms(3) by (simp add: md_frame_def)
  with assms waiting_ok_frame [OF assms(2,3)] show ?thesis
    unfolding waiters_ok_def by (auto split: prod.splits) blast+
qed

lemma sys_invD:
  assumes "sys_inv s"
  shows "msgd_inv (obj s)" and "stop (obj s) = 0" and "server s \<Longrightarrow> \<not> connecting s"
    and "\<not> server s \<Longrightarrow> woken s = 0" and "waiters_ok s"
    and "sem_map (obj s) i \<noteq> None \<Longrightarrow> i \<in> issued s"
    and "server s \<Longrightarrow> \<not> accepting s \<Longrightarrow> i \<in> issued s \<Longrightarrow> i \<le> mfsockid (obj s)"
    and "woken s \<noteq> 0 \<Longrightarrow> server s"
    and "accepting s \<Longrightarrow> server s \<and> id_lock (obj s)"
    and "accepting s \<Longrightarrow> i \<in> issued s \<Longrightarrow> i < mfsockid (obj s)"
  using assms unfolding sys_inv_def by (auto split: if_splits)

lemma sys_inv_frame:
  assumes "sys_inv s" and "md_frame (obj s) (obj t)" and "msgd_inv (obj t)"
    and "set (waiters t) \<subseteq> set (waiters s)" and "issued t = issued s" and "server t = server s"
    and "accepting t = accepting s" and "server s \<Longrightarrow> \<not> connecting t" and "\<not> server s \<Longrightarrow> woken t = 0"
  shows "sys_inv t"
proof -
  have "waiters_ok t"
    using assms by (intro waiters_ok_frame [of s t]) (auto simp: sys_inv_def)
  moreover have "sem_map (obj t) i \<noteq> None \<Longrightarrow> sem_map (obj s) i \<noteq> None" for i
    using assms(2) by (auto simp: md_frame_def split: if_splits)
  ultimately show ?thesis
    using assms by (auto simp: sys_inv_def md_frame_def)
qed

text \<open>Entering a socket under an id that was never used leaves every thread in \<open>recv\<close> as it was.\<close>

lemma waiters_ok_register:
  assumes "waiters_ok s" and "i \<notin> issued s" and "waiters t = waiters s" and "issued t = insert i (issued s)"
    and "sem_map (obj t) = (sem_map (obj s))(i \<mapsto> next_addr (obj s))"
    and "next_addr (obj t) = Suc (Suc (next_addr (obj s)))"
  shows "waiters_ok t"
  using assms unfolding waiters_ok_def waiting_ok_def by (auto split: prod.splits)

lemma register_fields:
  "sem_map (register_connection i s) = (sem_map s)(i \<mapsto> next_addr s)"
  "next_addr (register_connection i s) = Suc (Suc (next_addr s))"
  "mfsockid (register_connection i s) = mfsockid s"
  "stop (register_connection i s) = stop s"
  "id_lock (register_connection i s) = id_lock s"
  by (simp_all add: register_connection_def Let_def)

lemma sys_inv_connected:
  assumes "sys_inv s" and "connecting s" and "hd (connect_queue (obj s)) \<notin> issued s"
    and "connect_finish (obj s) = Inr (d, i)"
  shows "sys_inv (s\<lparr>obj := d, connecting := False, issued := insert i (issued s)\<rparr>)" (is "sys_inv ?t")
proof -
  from assms(1) have inv: "msgd_inv (obj s)" "stop (obj s) = 0" by (simp_all add: sys_inv_def)
  obtain xs where q: "connect_queue (obj s) = i # xs"
    and d: "d = (register_connection i ((take_connect (obj s))\<lparr>connect_queue := xs\<rparr>))\<lparr>id_lock := False\<rparr>"
    using assms(4) inv(2)
    by (auto simp: connect_finish_def Let_def res_simps take_connect_def pop_connect_def split: list.splits)
  have "waiters_ok ?t"
    using assms(1,3) q d
    by (intro waiters_ok_register [of s i ?t]) (auto simp: sys_inv_def register_fields take_connect_def)
  moreover have "msgd_inv d" using inv assms(4) inv_connect_finish by blast
  ultimately show ?thesis
    using assms(1,2) d by (auto simp: sys_inv_def register_fields take_connect_def)
qed

lemma sys_inv_respond:
  assumes "sys_inv s" and "0 < woken s" and "\<not> id_lock (obj s)"
    and "accept_respond stack ret (obj s) = Inr (d, sent)"
  shows "sys_inv (s\<lparr>obj := d, woken := woken s - 1, accepting := True\<rparr>)" (is "sys_inv ?t")
proof -
  from assms(4) obtain k where k: "skip_used (sem_map (obj s)) (mfsockid (obj s) + 1) = Inr k"
      "d = (obj s)\<lparr>mfsockid := k, id_lock := True\<rparr>"
    by (auto simp: accept_respond_def res_simps split: if_splits)
  from skip_used_spec [OF k(1)] have "mfsockid (obj s) < k" by simp
  moreover have "server s" "\<not> accepting s" using assms(1-3) by (auto simp: sys_inv_def split: if_splits)
  moreover have "msgd_inv d" using assms(1,4) inv_accept_respond by (auto simp: sys_inv_def)
  ultimately show ?thesis
    using assms(1) k(2) by (fastforce simp: sys_inv_def waiters_ok_def waiting_ok_def)
qed

lemma sys_inv_register:
  assumes "sys_inv s" and "accepting s" and "accept_register (obj s) = (d, i)"
  shows "sys_inv (s\<lparr>obj := d, accepting := False, issued := insert i (issued s)\<rparr>)" (is "sys_inv ?t")
proof -
  have d: "i = mfsockid (obj s)" "d = (register_connection i (obj s))\<lparr>id_lock := False\<rparr>"
    using assms(3) by (auto simp: accept_register_def)
  from assms(1,2) have srv: "server s" "\<forall>j \<in> issued s. j < i" "\<not> connecting s"
    by (auto simp: sys_inv_def d(1) split: if_splits)
  then have "waiters_ok ?t"
    using assms(1) d by (intro waiters_ok_register [of s i ?t]) (auto simp: sys_inv_def register_fields)
  moreover have "msgd_inv d" using assms(1,3) inv_accept_register by (auto simp: sys_inv_def)
  ultimately show ?thesis
    using assms(1) srv d by (fastforce simp: sys_inv_def register_fields)
qed

lemma sys_inv_obj:
  assumes "sys_inv s" and "md_frame (obj s) d" and "msgd_inv d"
  shows "sys_inv (s\<lparr>obj := d\<rparr>)"
  using sys_invD [OF assms(1)] assms by (intro sys_inv_frame [OF assms(1)]) simp_all

lemma sys_inv_step: "md_step s t \<Longrightarrow> sys_inv s \<Longrightarrow> sys_inv t"
proof (induction rule: md_step.induct)
  case (step_listen stack received s d r)
  then show ?case
    using inv_listen [OF sys_invD(1)] md_frame_listen by (intro sys_inv_obj) blast+
next
  case (step_connect s stack ret d sent)
  note inv = sys_invD [OF step_connect(4)]
  from step_connect inv(1) have "msgd_inv d" "md_frame (obj s) d"
    using inv_connect_request md_frame_connect_request by blast+
  with step_connect(1) inv(4) show ?case by (intro sys_inv_frame [OF step_connect(4)]) simp_all
next
  case (step_connected s d i)
  then show ?case using sys_inv_connected by blast
next
  case (step_woken s d)
  note inv = sys_invD [OF step_woken(5)]
  have "msgd_inv d"
    using step_woken(4) msgd_invD(1) [OF inv(1)]
    by (intro inv_frame [OF inv(1)]) (auto simp: accept_wake_def Let_def split: if_splits)
  with step_woken(1) inv(3) md_frame_accept_wake [OF step_woken(4)] show ?case
    by (intro sys_inv_frame [OF step_woken(5)]) simp_all
next
  case (step_respond s stack ret d sent)
  then show ?case using sys_inv_respond by blast
next
  case (step_register s d i)
  then show ?case using sys_inv_register by blast
next
  case (step_recv sid s a)
  note inv = sys_invD [OF step_recv(2)]
  from step_recv(1) have a: "sem_map (obj s) sid = Some a"
    by (auto simp: recv_enter_def split: if_splits option.splits)
  with inv(1) obtain q where "conn (obj s) sid a q" by (rule registered)
  with msgd_invD(4) [OF inv(1)] have "a < next_addr (obj s)" by (auto simp: sock_ok_def)
  with a inv(5) inv(6) [of sid] have "waiters_ok (s\<lparr>waiters := (sid, a) # waiters s\<rparr>)"
    by (simp add: waiters_ok_def waiting_ok_def)
  with step_recv(2) show ?case unfolding sys_inv_def by simp
next
  case (step_recv_wake sid a s k n buffer heap d b r)
  note inv = sys_invD [OF step_recv_wake(5)]
  from inv(5) step_recv_wake(1) have "waiting_ok (obj s) sid a" by (auto simp: waiters_ok_def)
  then have "msgd_inv d"
    using recv_wake_safe [OF inv(1) _ step_recv_wake(2) inv(2) step_recv_wake(3), of sid heap] step_recv_wake(4)
    by auto
  then show ?case
    using md_frame_recv_wake [OF step_recv_wake(4)] inv(3,4) set_remove1_subset [of "(sid, a)" "waiters s"]
    by (intro sys_inv_frame [OF step_recv_wake(5)]) simp_all
next
  case (step_close sid psv stack ret s d sent r)
  then show ?case
    using inv_close [OF sys_invD(1)] md_frame_close by (intro sys_inv_obj) blast+
qed

lemma sys_inv_start:
  assumes "init src dst dbg 0 True new_msgd = Inr (d, 0)"
  shows "sys_inv ((md_start srv src dst dbg)\<lparr>obj := d\<rparr>)"
proof -
  have "connect_queue new_msgd = []" by (simp add: new_msgd_def)
  then have "msgd_inv d" using inv_init [OF inv_new_msgd _ assms] by blast
  moreover have "sem_map d = Map.empty" "stop d = 0"
    using assms by (auto simp: init_def new_msgd_def Let_def)
  ultimately show ?thesis by (simp add: sys_inv_def md_start_def waiters_ok_def)
qed

lemma sys_inv_reachable: "md_reachable s \<Longrightarrow> sys_inv s"
  by (induction rule: md_reachable.induct) (auto intro: sys_inv_start sys_inv_step)

end
