(* ===== verification/MsgProps.thy ===== *)
theory MsgProps
  imports MsgThreads
begin

text \<open>
  What the message distributor promises its callers: framing, the connection handshake, the
  order and the integrity of messages, and the safety of the threads that share it, with the
  window in \<open>accept\<close> in which a first message is lost.
\<close>

text \<open>A distributor with one open socket, number 5, for the concrete instances.\<close>

definition demo_md :: msgd where
  "demo_md = register_connection 5 (new_msgd\<lparr>mfsockid := 5\<rparr>)"

lemma demo_md_inv: "msgd_inv demo_md"
  unfolding demo_md_def
  by (rule inv_register) (rule inv_frame [OF inv_new_msgd], simp_all add: new_msgd_def)

lemma demo_md_simps [simp]:
  "mfsockid demo_md = 5" "sem_map demo_md = [5 \<mapsto> 0]" "queue_map demo_md = [5 \<mapsto> 1]"
  "queue_heap demo_md = [1 \<mapsto> []]" "sem_heap demo_md = [0 \<mapsto> 0]" "stop demo_md = 0"
  "status_map demo_md = [5 \<mapsto> 1]" "accept_sem demo_md = 0" "connect_queue demo_md = []"
  "connect_sem demo_md = 0" "next_addr demo_md = 2"
  by (simp_all add: demo_md_def register_connection_def new_msgd_def Let_def)

lemma demo_sock_inv: "sock_inv 5 demo_md"
  by (simp add: sock_inv_def demo_md_inv)

subsection \<open>Framing\<close>

lemma messages_other:
  assumes "msgd_inv s" and "conn s sid a q" and "j \<noteq> sid"
  shows "messages j (s\<lparr>queue_heap := (queue_heap s)(q \<mapsto> cs), sem_heap := h\<rparr>) = messages j s"
proof (cases "queue_map s j")
  case None
  then show ?thesis by (simp add: messages_def)
next
  case (Some p)
  then obtain b where "sem_map s j = Some b"
    using msgd_invD(2) [OF assms(1), of j] by (cases "sem_map s j") auto
  with Some have "conn s j b p" by (simp add: conn_def)
  with assms have "p \<noteq> q" using msgd_invD(3) [OF assms(1)] by blast
  with Some show ?thesis by (simp add: messages_def)
qed

text \<open>
  C8: a payload sent on an open socket is put on the wire as one frame, and the listener on the
  other side appends exactly that payload to the queue of the same socket and posts its
  semaphore once; the other sockets' queues are untouched. This holds for every content of the
  uninitialised arrays on both sides, every socket id below 10^9 and every payload that fits
  one chunk.
\<close>

theorem send_listen_delivers:
  assumes "mfsockid s \<noteq> -1" and "sem_map s sid \<noteq> None" and "0 \<le> sid" and "sid < 10 ^ 9"
    and "1 \<le> n" and "nat n \<le> length buffer" and "0 \<le> ret"
    and "mfsockid t \<noteq> -1" and "sock_inv sid t"
    and "nat n + length (print_int sid) + 6 \<le> MAX_CHUNK"
  shows "\<exists>frame t'. send sid buffer n stack ret s = Inr ([frame], ret) \<and>
     listen stack' (Some frame) t = Inr (t', 0) \<and>
     messages sid t' = messages sid t @ [take (nat n) buffer] \<and>
     sem_value sid t' = Suc (sem_value sid t) \<and>
     (\<forall>j. j \<noteq> sid \<longrightarrow> messages j t' = messages j t)"
proof -
  define payload where "payload = take (nat n) buffer"
  obtain t' where t': "push_message sid payload t = Inr t'" "sock_inv sid t'"
      "messages sid t' = messages sid t @ [payload]"
    using sockq.put_ok [OF assms(9)] by blast
  from sockq.count_put [OF assms(9) t'(1)] have v: "sem_value sid t' = Suc (sem_value sid t)" .
  obtain a q cs where c: "msgd_inv t" "conn t sid a q" "queue_heap t q = Some cs"
    using assms(9) by (rule sock_invE)
  from push_message_ok [OF c, of payload] t'(1) messages_other [OF c(1,2)]
  have o: "\<forall>j. j \<noteq> sid \<longrightarrow> messages j t' = messages j t" by auto
  have "length (sock_frame sid payload) \<le> MAX_CHUNK"
    using assms(3,6,10) by (simp add: length_sock_frame payload_def print_int_nonneg)
  from listen_sock_frame [OF assms(8,3,4) this, of stack'] assms(9) t'(1)
  have "listen stack' (Some (sock_frame sid payload)) t = Inr (t', 0)"
    by (auto simp: sock_inv_def)
  with send_frame [OF assms(1-7), of stack] t'(3) v o show ?thesis
    unfolding payload_def by blast
qed

lemma send_listen_delivers_witness:
  "\<exists>frame t'. send 5 ''hello'' 3 (\<lambda>_. NUL) 0 demo_md = Inr ([frame], 0) \<and>
     listen (\<lambda>_. CHR ''x'') (Some frame) demo_md = Inr (t', 0) \<and> messages 5 t' = [''hel'']"
proof -
  have m: "messages 5 demo_md = []" by (simp add: messages_def)
  have "length (print_int 5) \<le> 11" by (rule length_print_int_le) (simp add: in_int32_def)
  then have "nat 3 + length (print_int 5) + 6 \<le> MAX_CHUNK" by (simp add: MAX_CHUNK_def)
  then show ?thesis
    using send_listen_delivers [of demo_md 5 3 "''hello''" 0 demo_md "\<lambda>_. NUL" "\<lambda>_. CHR ''x''"]
      demo_sock_inv m by fastforce
qed

text \<open>
  the loop that computes the decimal length of a socket id, used to place the payload in the
  frame and to find it again, is right for every id from 0 to 10^9 - 1; from 10^9 on its divisor
  leaves the range of \<open>int\<close>.
\<close>

theorem id_length_of_correct:
  assumes "0 \<le> sid"
  shows "id_length_of sid =
     (if sid < 10 ^ 9 then Inr (int (length (print_int sid))) else Inl IntOverflow)"
  using assms id_length_of_small [of sid] id_length_of_large [of sid]
  by (simp add: print_int_nonneg)

lemma id_length_of_correct_witness:
  "id_length_of 4711 = Inr (int (length (print_int 4711))) \<and> id_length_of 1000000000 = Inl IntOverflow"
  using id_length_of_correct [of 4711] id_length_of_correct [of 1000000000] by simp

subsection \<open>Messages of one socket\<close>

text \<open>
  C25: over any sequence of deliveries by the listener and receives on one open socket, no
  receive faults, and the messages received are, in order, a prefix of those that were queued
  and delivered: none is lost, repeated or reordered.
\<close>

theorem sock_messages_fifo:
  assumes "sock_inv sid s"
  shows "\<exists>t out rest. sockq.run sid ops s = Inr (t, out) \<and> sock_inv sid t \<and>
     messages sid s @ sockq.puts ops = out @ rest"
proof -
  from sockq.run_total [OF assms] obtain t out where "sockq.run sid ops s = Inr (t, out)" "sock_inv sid t"
    by blast
  with sockq.run_fifo [OF assms] show ?thesis by blast
qed

lemma sock_messages_fifo_witness:
  "\<exists>t out rest. sockq.run 5 [Put ''a'', Put ''b'', Get] demo_md = Inr (t, out) \<and> sock_inv 5 t \<and>
     messages 5 demo_md @ [''a'', ''b''] = out @ rest"
  using sock_messages_fifo [OF demo_sock_inv, of "[Put ''a'', Put ''b'', Get]"]
  unfolding sem_queue.puts.simps [OF sockq.sem_queue_axioms] by blast

text \<open>
  a receive on a socket with messages takes the oldest one and reports 1. It copies the
  requested number of bytes into the caller's buffer, and if the message holds a C string, the
  buffer then holds the same string, although the copy may run past the end of the message
  into foreign memory.
\<close>

theorem recv_takes_oldest:
  assumes "sock_inv sid s" and "mfsockid s \<noteq> -1" and "messages sid s = (str @ NUL # rest) # cs"
    and "stop s = 0" and "no_nul str" and "length str < n" and "n \<le> length buffer"
  shows "\<exists>a s' b. recv_enter sid s = Inr a \<and> recv_wake sid a buffer n heap s = Inr (s', b, 1) \<and>
     messages sid s' = cs \<and> length b = length buffer \<and> cstr b = str"
proof -
  obtain a q cs' where c: "msgd_inv s" "conn s sid a q" "queue_heap s q = Some cs'" "messages sid s = cs'"
    using assms(1) by (rule sock_invE)
  define data where "data = copy_message (str @ NUL # rest) n heap"
  have "data = str @ NUL # take (n - Suc (length str)) (rest @ stack_array n heap)"
    using assms(6) by (simp add: data_def copy_message_def take_Cons')
  then have "cstr (data @ drop n buffer) = str" using assms(5) by simp
  moreover have "length (data @ drop n buffer) = length buffer" using assms(7) by (simp add: data_def)
  moreover have "recv_enter sid s = Inr a" using c(2) assms(2) by (simp add: recv_enter_def conn_def)
  ultimately show ?thesis
    using recv_wake_registered [OF c(1,2) _ assms(4,7), of "str @ NUL # rest" cs heap] c(3,4) assms(3)
      set_queue_sock [OF c(1,2) refl, of cs]
    by (auto simp: data_def)
qed

definition demo_md_ok :: msgd where
  "demo_md_ok = demo_md\<lparr>queue_heap := [1 \<mapsto> [''ok'' @ [NUL]]], sem_heap := [0 \<mapsto> 1]\<rparr>"

lemma demo_md_ok_sock: "sock_inv 5 demo_md_ok \<and> messages 5 demo_md_ok = [''ok'' @ [NUL]]"
  using set_queue_sock [OF demo_md_inv, of 5 0 1 demo_md_ok "[''ok'' @ [NUL]]"]
  by (simp add: conn_def demo_md_ok_def)

lemma recv_takes_oldest_witness:
  "\<exists>a s' b. recv_enter 5 demo_md_ok = Inr a \<and>
     recv_wake 5 a (zeros 10) 10 (\<lambda>_. CHR ''?'') demo_md_ok = Inr (s', b, 1) \<and>
     messages 5 s' = [] \<and> length b = 10 \<and> cstr b = ''ok''"
  using recv_takes_oldest [of 5 demo_md_ok "''ok''" "[]" "[]" 10 "zeros 10" "\<lambda>_. CHR ''?''"]
    demo_md_ok_sock by (simp add: demo_md_ok_def)

text \<open>
  C34: after \<open>close\<close>, whichever side started it, a thread that was waiting in \<open>recv\<close> on the socket
  can wake up, returns -1 with its buffer unchanged, and the invariant holds; messages that were
  still queued are gone.
\<close>

theorem close_wakes_recv:
  assumes "sock_inv sid s" and "mfsockid s \<noteq> -1" and "in_int32 sid" and "recv_enter sid s = Inr a"
  shows "\<exists>s1 sent r s2. close sid psv stack ret s = Inr (s1, sent, r) \<and>
     sem_heap s1 a = Some (Suc (sem_value sid s)) \<and> messages sid s1 = [] \<and>
     recv_wake sid a buffer n heap s1 = Inr (s2, buffer, -1) \<and> msgd_inv s2 \<and> status_map s2 sid = None"
proof -
  obtain b q cs where c: "msgd_inv s" "conn s sid b q" "queue_heap s q = Some cs" "sem_value sid s = length cs"
    using assms(1) by (rule sock_invE)
  have ab: "a = b" using assms(2,4) c(2) by (simp add: recv_enter_def conn_def)
  obtain s1 sent r where s1: "close sid psv stack ret s = Inr (s1, sent, r)"
      "s1 = s\<lparr>status_map := (status_map s)(sid \<mapsto> 0), sem_heap := (sem_heap s)(a \<mapsto> Suc (length cs)),
            queue_heap := (queue_heap s)(q := None), sem_map := (sem_map s)(sid := None),
            queue_map := (queue_map s)(sid := None)\<rparr>"
    using close_registered [OF c(1) assms(2) c(2,3) assms(3)] ab by blast
  then have inv: "msgd_inv s1" using inv_close c(1) by blast
  have n: "sem_map s1 sid = None" using s1(2) by simp
  have "waiting_ok s sid a" using assms(4) by (rule recv_enter_waiting)
  from waiting_ok_frame [OF c(1) md_frame_close [OF s1(1)] this] have "waiting_ok s1 sid a" .
  with n have "\<forall>i. sem_map s1 i \<noteq> Some a" by (simp add: waiting_ok_def)
  from inv_take_unused [OF inv this n] recv_wake_closed [OF inv n, of a buffer n heap] s1 c(4)
  show ?thesis by (auto simp: messages_def)
qed

lemma close_wakes_recv_witness:
  "\<exists>s1 sent r s2. close 5 1 (\<lambda>_. NUL) 0 demo_md_ok = Inr (s1, sent, r) \<and>
     recv_wake 5 0 ''buf'' 3 (\<lambda>_. NUL) s1 = Inr (s2, ''buf'', -1)"
proof -
  have "recv_enter 5 demo_md_ok = Inr 0" by (simp add: recv_enter_def demo_md_ok_def)
  then show ?thesis
    using close_wakes_recv [of 5 demo_md_ok 0 1 "\<lambda>_. NUL" 0 "''buf''" 3 "\<lambda>_. NUL"] demo_md_ok_sock
    by (auto simp: demo_md_ok_def in_int32_def)
qed

subsection \<open>Opening a connection\<close>

lemma connect_finish_single:
  "stop s = 0 \<Longrightarrow> connect_queue s = [i] \<Longrightarrow> connect_finish s =
     Inr ((register_connection i (s\<lparr>connect_sem := connect_sem s - 1, connect_queue := []\<rparr>))\<lparr>id_lock := False\<rparr>, i)"
  by (simp add: connect_finish_def take_connect_def pop_connect_def)

text \<open>
  C15: the handshake. The client's request makes the server's listener wake \<open>accept\<close>; its answer
  makes the client's listener wake \<open>connect\<close>; both return the same socket id, the least free one
  above the server's last, and both have the socket open, with no messages and the lock
  released.
\<close>

theorem connection_handshake:
  assumes "mfsockid c \<noteq> -1" and "0 \<le> r1" and "connect_queue c = []" and "stop c = 0"
    and "mfsockid v \<noteq> -1" and "0 \<le> r2" and "stop v = 0" and "in_int32 (mfsockid v + 1)"
    and "skip_used (sem_map v) (mfsockid v + 1) = Inr newID"
  shows "\<exists>c1 req v1 v2 v3 resp c2 c3.
     connect_request st1 r1 c = Inr (c1, [req], None) \<and>
     listen st2 (Some req) v = Inr (v1, 0) \<and> accept_sem v1 = Suc (accept_sem v) \<and>
     accept_enter v1 = None \<and> accept_wake v1 = (v2, None) \<and>
     accept_respond st3 r2 v2 = Inr (v3, [resp]) \<and>
     listen st4 (Some resp) c1 = Inr (c2, 0) \<and> connect_sem c2 = Suc (connect_sem c) \<and>
     connect_finish c2 = Inr (c3, newID) \<and> snd (accept_register v3) = newID \<and>
     sem_map c3 newID \<noteq> None \<and> messages newID c3 = [] \<and> \<not> id_lock c3 \<and>
     sem_map (fst (accept_register v3)) newID \<noteq> None \<and>
     messages newID (fst (accept_register v3)) = [] \<and> \<not> id_lock (fst (accept_register v3))"
proof -
  define c1 where "c1 = c\<lparr>id_lock := True\<rparr>"
  define v1 where "v1 = v\<lparr>accept_sem := Suc (accept_sem v)\<rparr>"
  define v2 where "v2 = v1\<lparr>accept_sem := accept_sem v\<rparr>"
  define v3 where "v3 = v2\<lparr>mfsockid := newID, id_lock := True\<rparr>"
  define resp where "resp = control_frame (''accepted,'' @ print_int newID @ '','') st3"
  define c2 where "c2 = c1\<lparr>connect_queue := [newID], connect_sem := Suc (connect_sem c1)\<rparr>"
  have "in_int32 newID" using skip_used_range assms(8,9) by blast
  then have l: "listen st4 (Some resp) c1 = Inr (c2, 0)"
    using listen_accepted_frame [of c1 newID st4 st3] assms(1,3) by (simp add: c1_def c2_def resp_def)
  have f: "connect_finish c2 = Inr ((register_connection newID
      (c2\<lparr>connect_sem := connect_sem c2 - 1, connect_queue := []\<rparr>))\<lparr>id_lock := False\<rparr>, newID)"
    using connect_finish_single [of c2 newID] assms(4) by (simp add: c1_def c2_def)
  define c3 where "c3 = (register_connection newID
      (c2\<lparr>connect_sem := connect_sem c2 - 1, connect_queue := []\<rparr>))\<lparr>id_lock := False\<rparr>"
  have m: "sem_map v2 = sem_map v" "mfsockid v2 = mfsockid v" by (simp_all add: v1_def v2_def)
  have "accept_respond st3 r2 v2 = Inr (v3, [resp])"
    using accept_respond_frame [of v2 newID r2 st3] assms(6,8,9) unfolding m v3_def resp_def by blast
  moreover have "connect_request st1 r1 c = Inr (c1, [control_frame ''create'' st1], None)"
    using connect_request_frame assms(1,2) by (simp add: c1_def)
  moreover have "listen st2 (Some (control_frame ''create'' st1)) v = Inr (v1, 0)"
    using listen_create assms(5) by (simp add: v1_def)
  moreover have "accept_enter v1 = None" "accept_wake v1 = (v2, None)"
    using assms(5,7) by (simp_all add: accept_enter_def accept_wake_def v1_def v2_def)
  moreover have "accept_sem v1 = Suc (accept_sem v)" "connect_sem c2 = Suc (connect_sem c)"
    by (simp_all add: v1_def c1_def c2_def)
  moreover have "connect_finish c2 = Inr (c3, newID)" using f by (simp add: c3_def)
  moreover have "sem_map c3 newID \<noteq> None" "messages newID c3 = []" "\<not> id_lock c3"
    by (simp_all add: c3_def register_connection_def messages_def Let_def)
  moreover have "snd (accept_register v3) = newID" "sem_map (fst (accept_register v3)) newID \<noteq> None"
      "messages newID (fst (accept_register v3)) = []" "\<not> id_lock (fst (accept_register v3))"
    by (simp_all add: v3_def accept_register_def register_connection_def messages_def Let_def)
  ultimately show ?thesis using l by blast
qed

lemma connection_handshake_witness:
  "\<exists>c1 req v1 v2 v3 resp c2 c3.
     connect_request (\<lambda>_. NUL) 0 (new_msgd\<lparr>mfsockid := 0\<rparr>) = Inr (c1, [req], None) \<and>
     listen (\<lambda>_. NUL) (Some req) demo_md = Inr (v1, 0) \<and> accept_wake v1 = (v2, None) \<and>
     accept_respond (\<lambda>_. NUL) 0 v2 = Inr (v3, [resp]) \<and>
     listen (\<lambda>_. NUL) (Some resp) c1 = Inr (c2, 0) \<and> connect_finish c2 = Inr (c3, 6)"
proof -
  have "skip_used (sem_map demo_md) 6 = Inr 6" by (simp add: skip_used.simps)
  then show ?thesis
    using connection_handshake [of "new_msgd\<lparr>mfsockid := 0\<rparr>" 0 demo_md 0 6 "\<lambda>_. NUL" "\<lambda>_. NUL" "\<lambda>_. NUL" "\<lambda>_. NUL"]
    by (simp add: new_msgd_def in_int32_def) metis
qed

text \<open>
  C24: in the server process, the id that \<open>accept\<close> picks was never used by any socket before, open
  or closed, and is above the previous one: a thread still inside \<open>recv\<close> on a closed socket can not
  meet a new socket of the same id.
\<close>

theorem accept_id_fresh:
  assumes "md_reachable s" and "0 < woken s" and "\<not> id_lock (obj s)"
    and "accept_respond stack ret (obj s) = Inr (d, sent)"
  shows "mfsockid d \<notin> issued s \<and> sem_map (obj s) (mfsockid d) = None \<and> mfsockid (obj s) < mfsockid d"
proof -
  note inv = sys_invD [OF sys_inv_reachable [OF assms(1)]]
  from assms(4) obtain k where k: "skip_used (sem_map (obj s)) (mfsockid (obj s) + 1) = Inr k" "mfsockid d = k"
    by (auto simp: accept_respond_def res_simps split: if_splits)
  from skip_used_spec [OF k(1)] have "mfsockid (obj s) < k" "sem_map (obj s) k = None" by simp_all
  moreover have "k \<notin> issued s"
    using inv(7) [of k] inv(8,9) assms(2,3) calculation(1) by fastforce
  ultimately show ?thesis by (simp add: k(2))
qed

text \<open>A run of the server process, for the concrete instances: a connection is requested, accepted
  and opened, and a thread waits on it.\<close>

definition demo_obj :: msgd where
  "demo_obj = new_msgd\<lparr>mfsockid := 0, src_GUID := 102, dst_GUID := 101, md_debug := 0\<rparr>"

definition demo_woken :: md_sys where
  "demo_woken = (md_start True 102 101 0)\<lparr>obj := demo_obj, woken := 1\<rparr>"

definition demo_open :: md_sys where
  "demo_open = (md_start True 102 101 0)\<lparr>
     obj := (register_connection 1 (demo_obj\<lparr>mfsockid := 1, id_lock := True\<rparr>))\<lparr>id_lock := False\<rparr>,
     issued := {1}\<rparr>"

definition demo_waiting :: md_sys where
  "demo_waiting = demo_open\<lparr>waiters := [(1, 0)],
     obj := (obj demo_open)\<lparr>queue_heap := [1 \<mapsto> [''hi'']], sem_heap := [0 \<mapsto> 1]\<rparr>\<rparr>"

lemma demo_woken_reachable: "md_reachable demo_woken"
proof -
  have "md_reachable ((md_start True 102 101 0)\<lparr>obj := demo_obj\<rparr>)"
    by (rule md_init) (simp add: init_def new_msgd_def demo_obj_def)
  moreover have "listen (\<lambda>_. NUL) (Some (control_frame ''create'' (\<lambda>_. NUL))) demo_obj =
      Inr (demo_obj\<lparr>accept_sem := Suc 0\<rparr>, 0)"
    using listen_create [of demo_obj "\<lambda>_. NUL" "\<lambda>_. NUL"] by (simp add: demo_obj_def new_msgd_def)
  then have "md_step ((md_start True 102 101 0)\<lparr>obj := demo_obj\<rparr>)
      ((md_start True 102 101 0)\<lparr>obj := demo_obj\<lparr>accept_sem := Suc 0\<rparr>\<rparr>)"
    using step_listen [of "\<lambda>_. NUL" "Some (control_frame ''create'' (\<lambda>_. NUL))"
      "(md_start True 102 101 0)\<lparr>obj := demo_obj\<rparr>"] by simp
  ultimately have "md_reachable ((md_start True 102 101 0)\<lparr>obj := demo_obj\<lparr>accept_sem := Suc 0\<rparr>\<rparr>)"
    by (rule md_next)
  then show ?thesis
    by (rule md_next)
      (use step_woken [of "(md_start True 102 101 0)\<lparr>obj := demo_obj\<lparr>accept_sem := Suc 0\<rparr>\<rparr>" demo_obj] in
        \<open>simp add: demo_woken_def demo_obj_def new_msgd_def md_start_def accept_enter_def accept_wake_def\<close>)
qed

lemma demo_respond:
  "accept_respond (\<lambda>_. NUL) 0 demo_obj =
     Inr (demo_obj\<lparr>mfsockid := 1, id_lock := True\<rparr>, [control_frame (''accepted,'' @ print_int 1 @ '','') (\<lambda>_. NUL)])"
  by (rule accept_respond_frame)
    (simp_all add: demo_obj_def new_msgd_def skip_used.simps in_int32_def)

lemma demo_open_reachable: "md_reachable demo_open"
proof -
  have "md_step demo_woken (demo_woken\<lparr>obj := demo_obj\<lparr>mfsockid := 1, id_lock := True\<rparr>, woken := woken demo_woken - 1, accepting := True\<rparr>)"
    by (rule step_respond) (use demo_respond in \<open>simp_all add: demo_woken_def demo_obj_def new_msgd_def\<close>)
  with demo_woken_reachable have r: "md_reachable (demo_woken\<lparr>obj := demo_obj\<lparr>mfsockid := 1, id_lock := True\<rparr>, woken := woken demo_woken - 1, accepting := True\<rparr>)"
    (is "md_reachable ?s") by (rule md_next)
  have "accept_register (obj ?s) =
      ((register_connection 1 (demo_obj\<lparr>mfsockid := 1, id_lock := True\<rparr>))\<lparr>id_lock := False\<rparr>, 1)"
    by (simp add: accept_register_def)
  then have "md_step ?s (?s\<lparr>obj := (register_connection 1 (demo_obj\<lparr>mfsockid := 1, id_lock := True\<rparr>))\<lparr>id_lock := False\<rparr>,
      accepting := False, issued := insert 1 (issued ?s)\<rparr>)"
    by (intro step_register) simp_all
  from md_next [OF r this] show ?thesis
    by (simp add: demo_open_def demo_woken_def md_start_def)
qed

lemma demo_waiting_reachable: "md_reachable demo_waiting"
proof -
  have o: "sem_map (obj demo_open) 1 = Some 0" "queue_map (obj demo_open) 1 = Some 1"
      "queue_heap (obj demo_open) = [1 \<mapsto> []]" "sem_heap (obj demo_open) = [0 \<mapsto> 0]" "mfsockid (obj demo_open) = 1"
    by (simp_all add: demo_open_def demo_obj_def new_msgd_def register_connection_def)
  have "recv_enter 1 (obj demo_open) = Inr 0"
    using o by (simp add: recv_enter_def)
  from md_next [OF demo_open_reachable step_recv [OF this]]
  have r: "md_reachable (demo_open\<lparr>waiters := [(1, 0)]\<rparr>)" by (simp add: demo_open_def md_start_def)
  have "length (sock_frame 1 ''hi'') \<le> MAX_CHUNK"
    by (simp add: length_sock_frame MAX_CHUNK_def dec_nat.simps)
  moreover have "push_message 1 ''hi'' (obj demo_open) = Inr (obj demo_waiting)"
    using o by (simp add: push_message_def sem_post_def demo_waiting_def)
  ultimately have "listen (\<lambda>_. NUL) (Some (sock_frame 1 ''hi'')) (obj demo_open) = Inr (obj demo_waiting, 0)"
    using listen_sock_frame [of "obj demo_open" 1 "''hi''" "\<lambda>_. NUL"] o by simp
  then have "md_step (demo_open\<lparr>waiters := [(1, 0)]\<rparr>) (demo_open\<lparr>waiters := [(1, 0)], obj := obj demo_waiting\<rparr>)"
    using step_listen [of "\<lambda>_. NUL" "Some (sock_frame 1 ''hi'')" "demo_open\<lparr>waiters := [(1, 0)]\<rparr>"] by simp
  from md_next [OF r this] show ?thesis by (simp add: demo_waiting_def)
qed

lemma accept_id_fresh_witness:
  "md_reachable demo_woken \<and> mfsockid demo_obj < 1 \<and> 1 \<notin> issued demo_woken"
  using accept_id_fresh [OF demo_woken_reachable, of "\<lambda>_. NUL" 0 "demo_obj\<lparr>mfsockid := 1, id_lock := True\<rparr>"]
    demo_respond demo_woken_reachable
  by (simp add: demo_woken_def demo_obj_def new_msgd_def)



text \<open>
  C12: in every reachable state, every socket in the semaphore map is in the queue map too, is
  marked open, has a live queue of its own, and its semaphore counts exactly the messages in
  that queue; the semaphore of \<open>connect\<close> counts the accepted ids that wait.
\<close>

theorem maps_consistent:
  assumes "md_reachable s"
  shows "connect_sem (obj s) = length (connect_queue (obj s)) \<and>
     (\<forall>i. case sem_map (obj s) i of
            None \<Rightarrow> queue_map (obj s) i = None \<and> status_map (obj s) i \<in> {None, Some 0}
          | Some a \<Rightarrow> (\<exists>q cs. queue_map (obj s) i = Some q \<and> queue_heap (obj s) q = Some cs \<and>
              sem_heap (obj s) a = Some (length cs) \<and> status_map (obj s) i = Some 1 \<and>
              (\<forall>j. j \<noteq> i \<longrightarrow> queue_map (obj s) j \<noteq> Some q \<and> sem_map (obj s) j \<noteq> Some a)))"
proof -
  have inv: "msgd_inv (obj s)" using sys_invD(1) sys_inv_reachable assms by blast
  have "\<exists>q cs. queue_map (obj s) i = Some q \<and> queue_heap (obj s) q = Some cs \<and>
      sem_heap (obj s) a = Some (length cs) \<and> status_map (obj s) i = Some 1 \<and>
      (\<forall>j. j \<noteq> i \<longrightarrow> queue_map (obj s) j \<noteq> Some q \<and> sem_map (obj s) j \<noteq> Some a)"
    if a: "sem_map (obj s) i = Some a" for i a
  proof -
    obtain q cs where q: "conn (obj s) i a q" "queue_heap (obj s) q = Some cs"
        "sem_heap (obj s) a = Some (length cs)" "status_map (obj s) i = Some 1"
      using registered [OF inv a] by blast
    have "queue_map (obj s) j \<noteq> Some q \<and> sem_map (obj s) j \<noteq> Some a" if "j \<noteq> i" for j
      using q(1) that msgd_invD(2) [OF inv, of j] msgd_invD(3) [OF inv q(1), of j]
      by (metis conn_def option.exhaust)
    with q show ?thesis by (auto simp: conn_def)
  qed
  with msgd_invD(1,2,6) [OF inv] show ?thesis by (auto split: option.split)
qed

lemma maps_consistent_witness:
  "connect_sem (obj demo_waiting) = length (connect_queue (obj demo_waiting))"
  using maps_consistent [OF demo_waiting_reachable] by blast

text \<open>
  C33: \<open>accept\<close> answers the peer before it enters the socket into the maps, and the listener does
  not take \<open>id_lock\<close>. A first message that the listener reads in between is discarded: the state is
  unchanged and \<open>listen\<close> reports -1; the same message read after the entry is delivered.
\<close>

theorem accept_window_loses_message:
  assumes "accept_respond stack ret s = Inr (s1, sent)" and "msgd_inv s"
    and "mfsockid s1 = newID" and "0 \<le> mfsockid s" and "newID < 10 ^ 9"
    and "length (sock_frame newID payload) \<le> MAX_CHUNK"
  shows "listen st (Some (sock_frame newID payload)) s1 = Inr (s1, -1) \<and>
     (\<exists>s2. listen st (Some (sock_frame newID payload)) (fst (accept_register s1)) = Inr (s2, 0) \<and>
           messages newID s2 = [payload])"
proof -
  from assms(1) obtain k where k: "skip_used (sem_map s) (mfsockid s + 1) = Inr k"
      "s1 = s\<lparr>mfsockid := k, id_lock := True\<rparr>"
    by (auto simp: accept_respond_def res_simps split: if_splits)
  then have kid: "k = newID" using assms(3) by simp
  from skip_used_spec [OF k(1)] have n: "mfsockid s < newID" "sem_map s newID = None" by (simp_all add: kid)
  have inv: "msgd_inv s1" using inv_accept_respond assms(1,2) by blast
  define s1' where "s1' = fst (accept_register s1)"
  have s1': "accept_register s1 = (s1', newID)" using assms(3) by (simp add: s1'_def accept_register_def)
  have f: "sem_map s1' newID \<noteq> None" "messages newID s1' = []" "mfsockid s1' = newID"
    using assms(3) by (simp_all add: s1'_def accept_register_def register_connection_def messages_def Let_def)
  have "sock_inv newID s1'" using inv_accept_register [OF inv s1'] f(1) by (simp add: sock_inv_def)
  from sockq.put_ok [OF this, of payload]
  obtain s2 where s2: "push_message newID payload s1' = Inr s2" "messages newID s2 = [payload]"
    using f(2) by auto
  have "listen st (Some (sock_frame newID payload)) s1' = Inr (s2, 0)"
    using listen_sock_frame [of s1' newID payload st] f s2(1) n(1) assms(4-6) by simp
  moreover have "listen st (Some (sock_frame newID payload)) s1 = Inr (s1, -1)"
    using listen_sock_frame [of s1 newID payload st] n assms(3-6) k(2) by simp
  ultimately show ?thesis using s2(2) by (auto simp: s1'_def)
qed

lemma accept_window_loses_message_witness:
  "listen (\<lambda>_. NUL) (Some (sock_frame 1 ''transmit,me'')) (demo_obj\<lparr>mfsockid := 1, id_lock := True\<rparr>) =
     Inr (demo_obj\<lparr>mfsockid := 1, id_lock := True\<rparr>, -1)"
proof -
  have "length (sock_frame 1 ''transmit,me'') \<le> MAX_CHUNK"
    by (simp add: length_sock_frame MAX_CHUNK_def dec_nat.simps)
  moreover have "msgd_inv demo_obj"
    by (rule inv_frame [OF inv_new_msgd]) (simp_all add: demo_obj_def new_msgd_def)
  ultimately show ?thesis
    using accept_window_loses_message [OF demo_respond, of 1 "''transmit,me''" "\<lambda>_. NUL"]
    by (simp add: demo_obj_def new_msgd_def)
qed

end
