(* ===== verification/ClientProps.thy ===== *)
theory ClientProps
  imports Client ServerProps ImgTransferProps MsgProps
begin

text \<open>
  The client against the server: logging in, sending pictures, closing the sockets. Then the
  client alone: which frames it sends, and the two ways its test mode goes wrong.
\<close>

subsection \<open>Logging in\<close>

lemma client_header_text:
  assumes "length kind + length user < 99"
  shows "client_header kind user stack = Inr (kind @ CHR '','' # user @ NUL #
     drop (Suc (Suc (length kind + length user))) (stack_array 100 stack))"
  using assms by (simp add: client_header_def sprintf_buf_ok)

lemma login_header_client:
  assumes "is_field kind" and "is_field user" and "length kind + length user < 99"
  shows "\<exists>h. client_header kind user stack = Inr h \<and> length h = 100 \<and>
     (\<forall>cfg sock (st :: 'd server). serverThread cfg (Some h) sock st = serverThread cfg (login_msg kind user) sock st)"
proof -
  define rest where "rest = drop (Suc (Suc (length kind + length user))) (stack_array 100 stack)"
  define h where "h = kind @ CHR '','' # user @ NUL # rest"
  have l: "length h = 100" using assms(3) by (simp add: h_def rest_def)
  then have f: "fill h (zeros 100) = h" by (simp add: fill_def)
  have "login_header h = Inr (kind, user)" unfolding h_def
    using assms by (intro login_header_tokens) simp_all
  then have "login_header (fill h (zeros 100)) = Inr (kind, user)" by (simp only: f)
  moreover have "login_header (fill (kind @ '','' @ user @ [NUL]) (zeros 100)) = Inr (kind, user)"
  proof (cases "length kind + length user < 98")
    case True
    with assms show ?thesis by (intro login_header_text)
  next
    case False
    then have "fill (kind @ '','' @ user @ [NUL]) (zeros 100) = kind @ CHR '','' # user @ NUL # []"
      using assms(3) by (simp add: fill_fits)
    then show ?thesis using login_header_tokens [OF assms(1,2), of NUL "[]"] by simp
  qed
  ultimately have "serverThread cfg (Some h) sock st = serverThread cfg (login_msg kind user) sock st"
    for cfg sock and st :: "'d server"
    by (simp add: serverThread_def login_msg_def)
  with l client_header_text [OF assms(3), of stack] show ?thesis by (simp add: h_def rest_def)
qed

lemma client_login_eval [client_simps]:
  "client_login stack (Some (''failed'' @ [NUL])) = Inl (Exit 1)"
  "client_login stack (Some ok_msg) = Inr ()"
  "client_login stack None = Inl (Exit 1)"
  by (simp_all add: client_login_def fill_fits)

text \<open>
  C27: the login over TCP. The headers both threads of the client send, whatever their uninitialised tails are,
  make the server start the result and the transmit thread of that user and answer \<open>ok\<close>, which the
  client takes as success; a second client under the same name is answered \<open>failed\<close> and exits with
  status 1.
\<close>

theorem login_handshake:
  assumes "is_field user" and "length user < 80" and "user_map st user = None" and "tcp cfg"
  shows "\<exists>h1 h2 st1 s st2 st3 a st4.
     client_header ''result'' user stack1 = Inr h1 \<and> serverThread cfg (Some h1) k1 st = Inr (DoResult user, st1) \<and>
     server_result_init cfg k1 user True st1 = Inr (s, st2) \<and> last (sv_out st2) = (k1, ok_msg) \<and>
     client_header ''transmit'' user stack2 = Inr h2 \<and> serverThread cfg (Some h2) k2 st2 = Inr (DoTransmit user, st3) \<and>
     server_transmit_init cfg k2 user True st3 = (Some a, st4) \<and> last (sv_out st4) = (k2, ok_msg) \<and>
     client_login stack3 (Some ok_msg) = Inr () \<and>
     (\<exists>st5. serverThread cfg (Some h1) k3 st4 = Inr (Rejected, st5) \<and>
        last (sv_out st5) = (k3, ''failed'' @ [NUL]) \<and> client_login stack3 (Some (''failed'' @ [NUL])) = Inl (Exit 1))"
proof -
  have f: "is_field ''result''" "is_field ''transmit''" by (simp_all add: is_field_def)
  have l: "length ''result'' + length user < 99" "length ''transmit'' + length user < 99"
    using assms(2) by simp_all
  from login_header_client [OF f(1) assms(1) l(1), of stack1] obtain h1 where
    h1: "client_header ''result'' user stack1 = Inr h1"
      "\<And>k (st :: 'a server). serverThread cfg (Some h1) k st = serverThread cfg (login_msg ''result'' user) k st"
    by blast
  from login_header_client [OF f(2) assms(1) l(2), of stack2] obtain h2 where
    h2: "client_header ''transmit'' user stack2 = Inr h2"
      "\<And>k (st :: 'a server). serverThread cfg (Some h2) k st = serverThread cfg (login_msg ''transmit'' user) k st"
    by blast
  have ll: "length ''result'' + length user < 98" "length ''transmit'' + length user < 98"
    using assms(2) by simp_all
  let ?s1 = "st\<lparr>user_map := (user_map st)(user \<mapsto> 1)\<rparr>"
  obtain s st2 where i1: "server_result_init cfg k1 user True ?s1 = Inr (s, st2)"
    "last (sv_out st2) = (k1, ok_msg)" "user_map st2 user = Some 1"
    using assms(4) by (simp add: server_result_init_def reply_def Let_def)
  let ?s3 = "st2\<lparr>user_map := (user_map st2)(user \<mapsto> 2)\<rparr>"
  obtain a st4 where i2: "server_transmit_init cfg k2 user True ?s3 = (Some a, st4)"
    "last (sv_out st4) = (k2, ok_msg)" "user_map st4 user = Some 2"
    using assms(4) by (simp add: server_transmit_init_def reply_def Let_def)
  have "serverThread cfg (Some h1) k1 st = Inr (DoResult user, ?s1)"
    unfolding h1(2) serverThread_header [OF f(1) assms(1) ll(1)] using assms(3) by (simp add: login_dispatch_def)
  moreover have "serverThread cfg (Some h2) k2 st2 = Inr (DoTransmit user, ?s3)"
    unfolding h2(2) serverThread_header [OF f(2) assms(1) ll(2)] using i1(3) by (simp add: login_dispatch_def)
  moreover have "serverThread cfg (Some h1) k3 st4 = Inr (Rejected, reply k3 (''failed'' @ [NUL]) st4)"
    unfolding h1(2) serverThread_header [OF f(1) assms(1) ll(1)] using i2(3) by simp
  moreover have "last (sv_out (reply k3 (''failed'' @ [NUL]) st4)) = (k3, ''failed'' @ [NUL])"
    by (simp add: reply_def)
  ultimately show ?thesis
    using h1(1) h2(1) i1 i2 client_login_eval
    by (intro exI [of _ h1] exI [of _ h2] exI [of _ ?s1] exI [of _ s] exI [of _ st2] exI [of _ ?s3]
        exI [of _ a] exI [of _ st4]) blast
qed

lemma login_handshake_witness:
  "\<exists>h1 st1. client_header ''result'' ''alice'' (\<lambda>_. CHR ''?'') = Inr h1 \<and>
     serverThread demo_cfg (Some h1) 7 (srv demo_session) = Inr (DoResult ''alice'', st1)"
proof -
  have f: "is_field ''alice''" by (simp add: is_field_def)
  have "length ''alice'' < 80" "user_map (srv demo_session) ''alice'' = None" "tcp demo_cfg"
    by (simp_all add: demo_session_def demo_cfg_def)
  from login_handshake [OF f this, of "\<lambda>_. CHR ''?''" 7 "\<lambda>_. CHR ''?''" 8 "\<lambda>_. NUL" 9] show ?thesis by blast
qed

subsection \<open>A comma in the user id\<close>

text \<open>
  a user id with a comma is cut there: the client logs in under its first part, and its announcements name a
  file without extension, with the number the rest happens to start with, usually 0, as the size.
\<close>

theorem comma_in_user_id:
  assumes "is_field u" and "is_field r" and "length u + length r < 40" and "in_int32 k" and "in_int32 n"
    and "nm = ''pics/'' @ (u @ '','' @ r) @ ''-'' @ print_int k @ ''.jpg''"
  shows "(\<exists>h. client_header ''transmit'' (u @ '','' @ r) stack = Inr h \<and> login_header (fill h (zeros 100)) = Inr (''transmit'', u)) \<and>
     (\<exists>b. announce_tcp 1 nm j n = Inr b \<and>
        parse_header (fill b (zeros 1024)) =
          (let fsize = strtol_int (r @ ''-'' @ print_int k @ ''.jpg'')
           in if fsize < 0 then Inl Abort else Inr (''pics/'' @ u, fsize)))"
proof
  have f: "is_field ''transmit''" by (simp add: is_field_def)
  define rest where "rest = r @ NUL # drop (Suc (Suc (length ''transmit'' + length (u @ '','' @ r)))) (stack_array 100 stack)"
  have h: "client_header ''transmit'' (u @ '','' @ r) stack = Inr (''transmit'' @ CHR '','' # u @ CHR '','' # rest)"
    (is "_ = Inr ?h")
    using client_header_text [of "''transmit''" "u @ '','' @ r" stack] assms(3) by (simp add: rest_def)
  have "length ?h = 100" using assms(3) by (simp add: rest_def)
  then have "fill ?h (zeros 100) = ?h" by (simp add: fill_def)
  moreover have "login_header ?h = Inr (''transmit'', u)"
    using f assms(1) by (intro login_header_tokens) (simp_all add: rest_def)
  ultimately show "\<exists>h. client_header ''transmit'' (u @ '','' @ r) stack = Inr h \<and>
      login_header (fill h (zeros 100)) = Inr (''transmit'', u)"
    using h by metis
next
  let ?r = "r @ ''-'' @ print_int k @ ''.jpg''"
  let ?p = "''pics/'' @ u"
  have nm: "nm = ?p @ CHR '','' # ?r" by (simp add: assms(6))
  have lk: "length (print_int k) \<le> 11" "length (print_int n) \<le> 11"
    using assms(4,5) length_print_int_le by blast+
  define b where "b = (?p @ CHR '','' # ?r @ CHR '','' # print_int n) @ NUL #
     drop (Suc (length (header_text nm n))) (zeros 1024)"
  have l: "length (header_text nm n) < 100" using assms(3) lk by (simp add: header_text_def nm)
  have a: "announce_tcp 1 nm j n = Inr b"
    using l by (simp add: announce_tcp_def announce_name_def sprintf_buf_ok b_def) (simp add: header_text_def nm)
  have "length b = 1024" using l by (simp add: b_def) (simp add: header_text_def nm)
  then have fb: "fill b (zeros 1024) = b" by (simp add: fill_def)
  define post where "post = print_int n @ NUL # drop (Suc (length (header_text nm n))) (zeros 1024)"
  have b': "b = ?p @ CHR '','' # (?r @ CHR '','' # post)" by (simp add: b_def post_def)
  have p: "is_field ?p" "is_field ?r" using assms(1,2) by (simp_all add: is_field_def)
  have s1: "strtok '','' b 0 = Some \<lparr>tok = ?p, tok_start = 0, tok_next = length ?p + 1,
      tok_buf = ?p @ NUL # (?r @ CHR '','' # post)\<rparr>"
    using strtok_field [of "[]" 0 ?p "'',''" "CHR '',''" "?r @ CHR '','' # post"] p(1)
    unfolding b' is_field_def by simp
  have s2: "strtok '','' (?p @ NUL # (?r @ CHR '','' # post)) (length ?p + 1) =
      Some \<lparr>tok = ?r, tok_start = length ?p + 1, tok_next = length ?p + 1 + length ?r + 1,
        tok_buf = (?p @ [NUL]) @ ?r @ NUL # post\<rparr>"
    using strtok_field [of "?p @ [NUL]" "length ?p + 1" ?r "'',''" "CHR '',''" post] p(2)
    unfolding is_field_def by simp
  have "NUL \<in> set b" by (simp add: b_def)
  moreover have "length ?p < 60" using assms(3) by simp
  ultimately have "parse_header b = (let fsize = strtol_int ?r in if fsize < 0 then Inl Abort else Inr (?p, fsize))"
    unfolding parse_header_def s1 using s2 by (simp add: Let_def)
  with a fb show "\<exists>b. announce_tcp 1 nm j n = Inr b \<and>
        parse_header (fill b (zeros 1024)) =
          (let fsize = strtol_int ?r in if fsize < 0 then Inl Abort else Inr (?p, fsize))"
    by metis
qed

lemma comma_in_user_id_witness:
  "\<exists>b. announce_tcp 1 ''pics/smith,jane-1.jpg'' 0 31337 = Inr b \<and>
     parse_header (fill b (zeros 1024)) = Inr (''pics/smith'', 0)"
proof -
  have "is_field ''smith''" "is_field ''jane''" by (simp_all add: is_field_def)
  moreover have e: "print_int 1 = ''1''" "strtol_int ''jane-1.jpg'' = 0" by code_simp+
  ultimately show ?thesis
    using comma_in_user_id [of "''smith''" "''jane''" 1 31337 "''pics/smith,jane-1.jpg''" "\<lambda>_. NUL" 0]
    by (simp add: in_int32_def Let_def)
qed

subsection \<open>Pictures\<close>

text \<open>What the server's transmit thread makes of one upload, if it takes all of it and nothing more.\<close>

fun server_takes :: "(nat \<Rightarrow> char) \<Rightarrow> upload \<Rightarrow> (string \<times> bytes) option" where
  "server_takes heap (TcpUpload ann es) =
     (case transmit_receive_tcp heap ann es of Inr (Some (nm, img, [])) \<Rightarrow> Some (nm, img) | _ \<Rightarrow> None)"
| "server_takes heap (OrbitUpload ann es) =
     (case transmit_receive_orbit heap ann es of Inr (Some (nm, img, 0, [])) \<Rightarrow> Some (nm, img) | _ \<Rightarrow> None)"
| "server_takes heap _ = None"

definition env_ok :: "bytes \<Rightarrow> child_env \<Rightarrow> bool" where
  "env_ok img e \<longleftrightarrow> ce_file e = Some img \<and> ce_io e \<and> ce_opens e \<and> length img \<le> ce_cut e"

lemma length_file_blocks: "0 < n \<Longrightarrow> length (file_blocks n img) \<le> length img"
proof (induction n img rule: file_blocks.induct)
  case (1 n img)
  show ?case
  proof (cases "img = []")
    case False
    with 1 have "length (file_blocks n (drop n img)) \<le> length img - n" by simp
    moreover have "length img - n < length img" using False 1 by (simp add: diff_less)
    ultimately have "Suc (length (file_blocks n (drop n img))) \<le> length img" by linarith
    then show ?thesis using False 1 by (simp add: file_blocks_Cons)
  qed simp
qed

lemma take_all_blocks:
  "length img \<le> k \<Longrightarrow> take k (tcp_send img) = tcp_send img"
  "length img \<le> k \<Longrightarrow> take k (orbit_send img) = orbit_send img"
  using length_file_blocks [of 1024 img] length_file_blocks [of 4096 img]
  by (simp_all add: tcp_send_def orbit_send_def)

definition upload_name :: "string \<Rightarrow> client \<Rightarrow> string" where
  "upload_name file_name c = announce_name (cl_size_per_time c) file_name (cl_fake_id c)"

lemma upload_name_field:
  assumes "is_field file_name" and "length file_name < 60" and "in_int32 (cl_fake_id c)"
  shows "is_field (upload_name file_name c) \<and> length (upload_name file_name c) < 60"
  using assms length_print_int_le [OF assms(3)]
  by (auto simp: upload_name_def announce_name_def is_field_def)

lemma transmit_one_taken:
  assumes "cl_tcp c \<or> cl_orbit c" and "is_field file_name" and "length file_name < 60"
    and "in_int32 (cl_fake_id c)" and "cl_size_per_time c = 1 \<or> in_int32 (cl_fake_id c + 1)"
    and "env_ok img e" and "img \<noteq> []" and "in_int32 (int (length img))"
  shows "\<exists>u. transmit_one file_name e c = Inr (u, if cl_size_per_time c = 1 then c
       else c\<lparr>cl_fake_id := cl_fake_id c + 1\<rparr>) \<and> server_takes heap u = Some (upload_name file_name c, img)"
proof -
  let ?nm = "upload_name file_name c"
  have nm: "?nm \<noteq> []" "no_char '','' ?nm" "no_nul ?nm" "length ?nm < 60"
    using upload_name_field [OF assms(2-4)] by (simp_all add: is_field_def)
  have e: "ce_file e = Some img" "ce_io e" "ce_opens e" "length img \<le> ce_cut e"
    using assms(6) by (simp_all add: env_ok_def)
  have nf: "next_fake_id c = Inr (if cl_size_per_time c = 1 then c else c\<lparr>cl_fake_id := cl_fake_id c + 1\<rparr>)"
    using assms(5) by (auto simp: next_fake_id_def inc32_def)
  show ?thesis
  proof (cases "cl_tcp c")
    case True
    from announce_tcp_parse [OF upload_name_def nm _ assms(8)] obtain b where
      "announce_tcp (cl_size_per_time c) file_name (cl_fake_id c) (int (length img)) = Inr b"
      "parse_header (fill b (zeros 1024)) = Inr (?nm, int (length img))" by auto
    moreover have "tcp_receive heap (int (length img)) (tcp_send img) = Inr (Some (img, []))"
      using assms(7) by (rule tcp.rx_tx_0)
    ultimately show ?thesis
      using True e nf by (simp add: transmit_one_def take_all_blocks transmit_receive_tcp_def)
  next
    case False
    from announce_orbit_parse [OF upload_name_def nm _ assms(8), of "ce_stack e"] obtain b where
      "announce_orbit (cl_size_per_time c) file_name (cl_fake_id c) (int (length img)) (ce_stack e) = Inr b"
      "length b = 100" "parse_header (fill b (zeros 4096)) = Inr (?nm, int (length img))" by auto
    moreover have "orbit_receive heap (int (length img)) (orbit_send img) = Inr (Some (img, 0, []))"
      using orbit_channel [OF assms(7), of heap "[]"] by simp
    ultimately show ?thesis
      using False assms(1) e nf by (simp add: transmit_one_def take_all_blocks transmit_receive_orbit_def)
  qed
qed

lemma transmit_times_taken:
  assumes "cl_tcp c \<or> cl_orbit c" and "is_field file_name" and "length file_name < 60"
    and "cl_size_per_time c = 1 \<and> n \<le> 1 \<or> cl_size_per_time c \<noteq> 1 \<and> in_int32 (cl_fake_id c + int n)"
    and "0 \<le> cl_fake_id c" and "in_int32 (cl_fake_id c)"
    and "\<And>i. env_ok img (env i)" and "img \<noteq> []" and "in_int32 (int (length img))"
  shows "\<exists>us c'. transmit_times file_name env n c = Inr (us, c') \<and>
     map (server_takes heap) us =
       map (\<lambda>i. Some (announce_name (cl_size_per_time c) file_name (cl_fake_id c + int i), img)) [0..<n]"
  using assms(1,4-6)
proof (induction n arbitrary: c)
  case (Suc n)
  have r: "cl_size_per_time c = 1 \<or> in_int32 (cl_fake_id c + 1)"
    using Suc.prems(2,3) by (auto simp: in_int32_def)
  from transmit_one_taken [OF Suc.prems(1) assms(2,3) Suc.prems(4) r assms(7) [of n] assms(8,9), of heap]
  obtain u where u: "transmit_one file_name (env n) c = Inr (u, if cl_size_per_time c = 1 then c
       else c\<lparr>cl_fake_id := cl_fake_id c + 1\<rparr>)" "server_takes heap u = Some (upload_name file_name c, img)"
    by blast
  show ?case
  proof (cases "cl_size_per_time c = 1")
    case True
    with Suc.prems(2) have "n = 0" by simp
    with u True show ?thesis by (simp add: upload_name_def)
  next
    case False
    let ?c = "c\<lparr>cl_fake_id := cl_fake_id c + 1\<rparr>"
    have "\<exists>us c'. transmit_times file_name env n ?c = Inr (us, c') \<and>
       map (server_takes heap) us =
         map (\<lambda>i. Some (announce_name (cl_size_per_time ?c) file_name (cl_fake_id ?c + int i), img)) [0..<n]"
      using Suc.prems False r by (intro Suc.IH) (simp_all add: ac_simps)
    then obtain us c' where us: "transmit_times file_name env n ?c = Inr (us, c')"
      "map (server_takes heap) us =
         map (\<lambda>i. Some (announce_name (cl_size_per_time c) file_name (cl_fake_id c + 1 + int i), img)) [0..<n]"
      by auto
    have "[0..<Suc n] = 0 # map Suc [0..<n]" by (simp add: upt_conv_Cons map_Suc_upt del: upt_Suc)
    with u us False show ?thesis
      by (simp add: upload_name_def add.assoc comp_def del: upt_Suc)
  qed
qed simp

text \<open>
  C14: a picture sent with \<open>size_per_time\<close> = k, over TCP or orbit, reaches the server as k images, each with the
  content of the file: under its own name for k = 1, otherwise under the names \<open>pics/<n>.jpg\<close> with
  consecutive numbers, none of them twice.
\<close>

theorem uploads_reach_server:
  assumes "cl_tcp c \<or> cl_orbit c" and "is_field file_name" and "length file_name < 60"
    and "in_int32 (cl_fake_id c + cl_size_per_time c)" and "0 \<le> cl_fake_id c" and "in_int32 (cl_fake_id c)"
    and "\<forall>i. env_ok img (env i)" and "img \<noteq> []" and "in_int32 (int (length img))"
  shows "\<exists>us c'. transmit_child file_name env now c = Inr (us, c') \<and>
     map (server_takes heap) us =
       (if cl_size_per_time c = 1 then [Some (file_name, img)]
        else map (\<lambda>i. Some (''pics/'' @ print_int (cl_fake_id c + int i) @ ''.jpg'', img))
               [0..<nat (cl_size_per_time c)])"
proof -
  define c0 where "c0 = (if cl_consume c then c\<lparr>cl_timeQueue := cl_timeQueue c @ [now]\<rparr> else c)"
  have c0: "cl_tcp c0 = cl_tcp c" "cl_orbit c0 = cl_orbit c" "cl_fake_id c0 = cl_fake_id c"
    "cl_size_per_time c0 = cl_size_per_time c" by (simp_all add: c0_def)
  have r: "cl_size_per_time c0 = 1 \<and> nat (cl_size_per_time c) \<le> 1 \<or>
      cl_size_per_time c0 \<noteq> 1 \<and> in_int32 (cl_fake_id c0 + int (nat (cl_size_per_time c)))"
    using assms(4-6) c0 by (cases "cl_size_per_time c \<le> 0") auto
  have "\<exists>us c'. transmit_times file_name env (nat (cl_size_per_time c)) c0 = Inr (us, c') \<and>
     map (server_takes heap) us =
       map (\<lambda>i. Some (announce_name (cl_size_per_time c0) file_name (cl_fake_id c0 + int i), img))
         [0..<nat (cl_size_per_time c)]"
    using assms r c0 by (intro transmit_times_taken) auto
  then show ?thesis
    by (auto simp: transmit_child_def c0_def announce_name_def)
qed

lemma uploads_reach_server_witness:
  "\<exists>us c'. transmit_child ''sample/1.jpg'' (\<lambda>_. \<lparr>ce_file = Some ''jpg'', ce_io = True, ce_opens = True, ce_cut = 9,
       ce_stack = (\<lambda>_. NUL)\<rparr>) 0 (init_client\<lparr>cl_size_per_time := 2\<rparr>) = Inr (us, c') \<and>
     map (server_takes (\<lambda>_. NUL)) us = [Some (''pics/0.jpg'', ''jpg''), Some (''pics/1.jpg'', ''jpg'')]"
proof -
  have f: "is_field ''sample/1.jpg''" by (simp add: is_field_def)
  have p: "print_int 0 = ''0''" "print_int 1 = ''1''" by code_simp+
  have u: "[0..<2] = [0, 1]" by (simp add: upt_rec)
  show ?thesis
    using uploads_reach_server [of "init_client\<lparr>cl_size_per_time := 2\<rparr>" "''sample/1.jpg''" "''jpg''"
        "\<lambda>_. \<lparr>ce_file = Some ''jpg'', ce_io = True, ce_opens = True, ce_cut = 9, ce_stack = (\<lambda>_. NUL)\<rparr>" 0 "\<lambda>_. NUL"] f
    by (simp add: init_client_def env_ok_def in_int32_def p u)
qed

subsection \<open>Which frames are sent\<close>

fun run_video :: "string \<Rightarrow> bool list \<Rightarrow> display \<Rightarrow> (string list \<times> display) res" where
  "run_video userID [] d = Inr ([], d)"
| "run_video userID (f # fs) d =
     rbind (video_step userID f d) (\<lambda>(sent, d1).
       rbind (run_video userID fs d1) (\<lambda>(names, d2).
         Inr ((case sent of None \<Rightarrow> names | Some nm \<Rightarrow> nm # names), d2)))"

definition frame_name :: "string \<Rightarrow> int \<Rightarrow> string" where
  "frame_name userID i = ''pics/'' @ userID @ ''-'' @ print_int i @ ''.jpg''"

lemma video_step_send:
  assumes "no_nul user" and "length user < 70" and "in_int32 (i + 1)" and "in_int32 i"
  shows "video_step user True \<lparr>ds_index = i, ds_count = 34\<rparr> =
     Inr (Some (frame_name user i), \<lparr>ds_index = i + 1, ds_count = 0\<rparr>)"
proof -
  have l: "length (frame_name user i) < 100" using assms(2) length_print_int_le [OF assms(4)]
    by (simp add: frame_name_def)
  have n: "no_nul (frame_name user i)" using assms(1) by (simp add: frame_name_def)
  have "video_step user True \<lparr>ds_index = i, ds_count = 34\<rparr> =
      rbind (sprintf_buf (frame_name user i) (zeros 100)) (\<lambda>nm. rbind (inc32 i) (\<lambda>index.
        Inr (Some (cstr nm), \<lparr>ds_index = index, ds_count = 0\<rparr>)))"
    by (simp add: video_step_def frame_name_def inc32_def in_int32_def)
  then show ?thesis using assms(3) l cstr_NUL [OF n] by (simp add: sprintf_buf_ok inc32_def)
qed

lemma video_step_wait:
  "0 \<le> k \<Longrightarrow> k < 34 \<Longrightarrow> video_step user b \<lparr>ds_index = i, ds_count = k\<rparr> = Inr (None, \<lparr>ds_index = i, ds_count = k + 1\<rparr>)"
  by (simp add: video_step_def inc32_def in_int32_def)

lemma run_video_append:
  "run_video user (fs @ gs) d =
     rbind (run_video user fs d) (\<lambda>(ns, d1). rbind (run_video user gs d1) (\<lambda>(ms, d2). Inr (ns @ ms, d2)))"
  by (induction fs arbitrary: d) (auto simp: rbind_def split: sum.splits prod.splits option.splits)

text \<open>
  in video mode, of n frames the camera delivers, every 35th is sent: n div 35 pictures, each under a name of
  its own, numbered from 1 without a gap.
\<close>

theorem every_35th_frame:
  assumes "no_nul user" and "length user < 70" and "in_int32 (int n)"
  shows "run_video user (replicate n True) video_start =
     Inr (map (\<lambda>i. frame_name user (int i)) [1..<Suc (n div 35)],
          \<lparr>ds_index = int (n div 35) + 1, ds_count = int (n mod 35)\<rparr>)"
  using assms(3)
proof (induction n)
  case (Suc n)
  then have IH: "run_video user (replicate n True) video_start =
     Inr (map (\<lambda>i. frame_name user (int i)) [1..<Suc (n div 35)],
          \<lparr>ds_index = int (n div 35) + 1, ds_count = int (n mod 35)\<rparr>)"
    by (simp add: in_int32_def)
  have step: "run_video user (replicate (Suc n) True) video_start =
      rbind (run_video user (replicate n True) video_start) (\<lambda>(ns, d1).
        rbind (run_video user [True] d1) (\<lambda>(ms, d2). Inr (ns @ ms, d2)))"
    using run_video_append [of user "replicate n True" "[True]" video_start]
    by (simp add: replicate_append_same)
  show ?case
  proof (cases "n mod 35 = 34")
    case True
    have d: "Suc n div 35 = Suc (n div 35)" "Suc n mod 35 = 0" using True by (simp_all add: div_Suc mod_Suc)
    have r: "in_int32 (int (n div 35) + 1 + 1)" "in_int32 (int (n div 35) + 1)"
    proof -
      have "int (n div 35) \<le> int n div 35" by (simp add: zdiv_int)
      with Suc.prems show "in_int32 (int (n div 35) + 1 + 1)" "in_int32 (int (n div 35) + 1)"
        by (simp_all add: in_int32_def)
    qed
    have "int (n mod 35) = 34" using True by simp
    then show ?thesis
      unfolding step IH d using video_step_send [OF assms(1,2) r] by (simp add: add.commute)
  next
    case False
    have "n mod 35 < 35" by simp
    with False have m: "n mod 35 < 34" by linarith
    have d: "Suc n div 35 = n div 35" "Suc n mod 35 = Suc (n mod 35)"
      using False m by (simp_all add: div_Suc mod_Suc)
    have "int (n mod 35) < 34" using m by linarith
    then show ?thesis unfolding step IH d using video_step_wait [of "int (n mod 35)" user True] by (simp add: add.commute)
  qed
qed (simp add: video_start_def)

lemma every_35th_frame_witness:
  "run_video ''me'' (replicate 70 True) video_start =
     Inr ([frame_name ''me'' 1, frame_name ''me'' 2], \<lparr>ds_index = 3, ds_count = 0\<rparr>)"
proof -
  have "[1..<Suc 2] = [1, 2]" by (simp add: upt_rec)
  then show ?thesis using every_35th_frame [of "''me''" 70] by (simp add: in_int32_def)
qed

subsection \<open>Test mode\<close>

text \<open>
  in test mode the very first tick writes 1024 zero bytes into the 100-byte file name on the stack, so every
  client started with \<open>-t\<close> overflows a buffer before it sends anything.
\<close>

theorem test_mode_overflows:
  "test_step stack test_start = Inl BufferOverflow"
proof -
  have "print_int 1 = ''1''" by code_simp
  then show ?thesis
    by (simp add: test_step_def test_start_def inc32_def in_int32_def sprintf_buf_ok write_at_def BUFFER_SIZE_def)
qed

lemma digits_not_sign:
  assumes "list_all is_digit s"
  shows "dropWhile is_space s = s" and "takeWhile is_digit s = s"
    and "s = c # t \<Longrightarrow> c \<noteq> CHR ''-'' \<and> c \<noteq> CHR ''+''"
proof -
  show "takeWhile is_digit s = s" using assms by (simp add: takeWhile_eq_all_conv list_all_iff)
  show "dropWhile is_space s = s" using assms is_digit_not_space by (cases s) auto
  show "s = c # t \<Longrightarrow> c \<noteq> CHR ''-'' \<and> c \<noteq> CHR ''+''" using assms by (auto simp: is_digit_neq)
qed

text \<open>
  a word of digits typed in test mode becomes the new delay, unless it is empty (the end of the input) or above
  the range of \<open>int\<close>: then \<open>stoi\<close> throws, and the client ends. Every other word is ignored.
\<close>

theorem test_input_cases:
  assumes "int (digits_val input) \<le> 9223372036854775807"
  shows "test_input input c =
     (if \<not> list_all is_digit input then Inr c
      else if input = [] \<or> INT_MAX < int (digits_val input) then Inl BadNumber
      else Inr (c\<lparr>cl_delay_time := int (digits_val input)\<rparr>))"
proof (cases "list_all is_digit input \<and> input \<noteq> []")
  case True
  then obtain d ds where i: "input = d # ds" by (cases input) auto
  note d = digits_not_sign [OF conjunct1 [OF True]]
  have s2: "(case input of [] \<Rightarrow> [] | c # t \<Rightarrow> if c = CHR ''-'' \<or> c = CHR ''+'' then t else input) = input"
    using d(3) [OF i] by (simp add: i)
  have t: "takeWhile is_digit (d # ds) = d # ds" using d(2) unfolding i .
  have "strtol input = clamp_long (int (digits_val input))"
    unfolding strtol_def Let_def d(1) unfolding i list.case t using d(3) [OF i] by simp
  then have "strtol input = int (digits_val input)" using assms by (simp add: clamp_long_def)
  moreover have "stoi input = (if \<not> in_int32 (strtol input) then Inl BadNumber else Inr (strtol input))"
    unfolding stoi_def Let_def d(1) s2 d(2) by (simp add: i)
  ultimately show ?thesis using True i by (auto simp: test_input_def in_int32_def)
next
  case False
  then show ?thesis by (cases input) (auto simp: test_input_def stoi_def)
qed

lemma test_input_cases_witness:
  "test_input ''2147483648'' init_client = Inl BadNumber \<and> test_input [] init_client = Inl BadNumber"
proof -
  have "list_all is_digit ''2147483648''" "digits_val ''2147483648'' = 2147483648"
    by (simp_all add: is_digit_def digits_val_def digit_val_def)
  then show ?thesis
    using test_input_cases [of "''2147483648''" init_client] test_input_cases [of "[]" init_client]
    by (simp add: digits_val_def)
qed

subsection \<open>Closing\<close>







end
