(* ===== verification/ImgMatchProps.thy ===== *)
theory ImgMatchProps
  imports ImgMatch
begin

text \<open>
  What matching promises: the image with most accepted votes is the answer unless its share of
  votes is below the threshold; which inputs make a table lookup throw; how the bolt's answer
  relates to the server's; and what locating the object leaves behind.
\<close>

subsection \<open>The matched image\<close>

text \<open>The index table and the table of descriptor counts speak of the same images.\<close>

definition tables_agree :: "int list \<Rightarrow> int list \<Rightarrow> bool" where
  "tables_agree idx cnts \<longleftrightarrow>
     list_all (\<lambda>n. 1 \<le> n \<and> n \<le> int (length cnts) \<and> in_int32 n) idx \<and> list_all in_int32 cnts"

lemma accepted_subset: "rows_in_range idx rows \<Longrightarrow> set (accepted idx rows) \<subseteq> set idx"
  by (auto simp: accepted_def rows_in_range_def list_all_iff)

lemma vote_rows_0 [vote_simps]:
  "rows_in_range idx rows \<Longrightarrow> vote_rows idx rows [] = Inr (votes_of (accepted idx rows))"
  using vote_rows_accepted [of idx rows "[]"] by simp

lemma elected_index:
  assumes "tables_agree idx cnts" and "rows_in_range idx rows" and "accepted idx rows \<noteq> []"
  defines "w \<equiv> elected (accepted idx rows)"
  shows "1 \<le> w" "w \<le> int (length cnts)" "in_int32 w"
    "vec_at cnts (w - 1) = Inr (cnts ! nat (w - 1))" "in_int32 (cnts ! nat (w - 1))" "in_int32 (w - 1)"
proof -
  have "w \<in> set idx" unfolding w_def
    using elected_in_accepted [OF assms(3)] accepted_subset [OF assms(2)] by blast
  with assms(1) show a: "1 \<le> w" "w \<le> int (length cnts)" "in_int32 w"
    by (auto simp: tables_agree_def list_all_iff)
  then have b: "0 \<le> w - 1" "nat (w - 1) < length cnts" by linarith+
  then show "vec_at cnts (w - 1) = Inr (cnts ! nat (w - 1))" by simp
  from b(2) assms(1) show "in_int32 (cnts ! nat (w - 1))"
    by (auto simp: tables_agree_def list_all_iff)
  from a show "in_int32 (w - 1)" by (simp add: in_int32_def)
qed

text \<open>The answer the specification gives for a list of accepted votes and a threshold.\<close>

definition answer :: "int \<Rightarrow> int \<Rightarrow> int list \<Rightarrow> int list \<Rightarrow> int" where
  "answer num den cnts acc =
     (if acc = [] then 0
      else if num * int (count_list acc (elected acc)) < den * cnts ! nat (elected acc - 1) then 0
      else elected acc)"

lemma matchImg_answer:
  fixes knn :: "'d list option \<Rightarrow> 'd list \<Rightarrow> knn_row list"
  assumes "imread path = Some img" and "surf (minHessian db) img = (kps, desp)" and "desp \<noteq> []"
    and "tables_agree (index_IMG db) (dscCnt_IMG db)"
    and "rows_in_range (index_IMG db) (knn (flannIndex db) desp)"
  shows "\<exists>im'. matchImg imread surf knn path db im = Inr im' \<and>
     getMatchedImgIndex im' =
       answer 200 3 (dscCnt_IMG db) (accepted (index_IMG db) (knn (flannIndex db) desp))"
proof -
  define acc where "acc = accepted (index_IMG db) (knn (flannIndex db) desp)"
  have v: "vote_rows (index_IMG db) (knn (flannIndex db) desp) [] = Inr (votes_of acc)"
    using assms(5) by (simp add: vote_simps acc_def)
  show ?thesis
  proof (cases "acc = []")
    case True
    with v assms(1,2,3) show ?thesis
      by (simp add: matchImg_def Let_def election getMatchedImgIndex_def answer_def acc_def)
  next
    case False
    note ix = elected_index [OF assms(4,5), folded acc_def, OF False]
    have b: "below_015 (int (count_list acc (elected acc))) (dscCnt_IMG db ! nat (elected acc - 1)) \<longleftrightarrow>
        200 * int (count_list acc (elected acc)) < 3 * dscCnt_IMG db ! nat (elected acc - 1)"
      using ix(5) by (intro below_015_exact) simp_all
    have nz: "elected acc \<noteq> 0" using ix(1) by linarith
    from False v assms(1,2,3) ix nz show ?thesis
      unfolding acc_def [symmetric]
      by (simp add: matchImg_def Let_def election getMatchedImgIndex_def
          answer_def b)
  qed
qed

text \<open>
  C13: when every table lookup is in range, \<open>matchImg\<close> does not fault and reports the image elected by the
  accepted votes (the most frequent, the last to appear among equals), unless it has fewer
  votes than exactly 3/200 of its descriptors, or there is no vote: then it reports 0. The
  rounding of the double product never changes the comparison.
\<close>

theorem matchImg_elects:
  fixes knn :: "'d list option \<Rightarrow> 'd list \<Rightarrow> knn_row list"
  assumes "imread path = Some img" and "surf (minHessian db) img = (kps, desp)" and "desp \<noteq> []"
    and "tables_agree (index_IMG db) (dscCnt_IMG db)"
    and "rows_in_range (index_IMG db) (knn (flannIndex db) desp)"
  shows "\<exists>im'. matchImg imread surf knn path db im = Inr im' \<and>
     getMatchedImgIndex im' =
       answer 200 3 (dscCnt_IMG db) (accepted (index_IMG db) (knn (flannIndex db) desp))"
  using assms by (rule matchImg_answer)

text \<open>An object as the constructor leaves it.\<close>

definition blank_match :: "(unit, unit, bool, unit) img_match" where
  "blank_match = fst (new_ImgMatch 0 init_statics)"

lemma matchImg_elects_witness:
  "\<exists>im'. matchImg (\<lambda>_. Some ()) (\<lambda>_ _. ([()], [True, False]))
       (\<lambda>_ _. [(0, Fin 4, Infty), (2, Fin 1, Infty), (1, NaN, Infty), (3, Fin 9, Infty)]) ''a.jpg''
       (init_statics\<lparr>index_IMG := [1, 1, 2, 2], dscCnt_IMG := [2, 2]\<rparr>) blank_match = Inr im' \<and>
     getMatchedImgIndex im' = 2"
proof -
  let ?db = "init_statics\<lparr>index_IMG := [1, 1, 2, 2], dscCnt_IMG := [2, 2]\<rparr> :: bool img_db"
  let ?rows = "[(0, Fin 4, Infty), (2, Fin 1, Infty), (1, NaN, Infty), (3, Fin 9, Infty)]"
  have a: "accepted (index_IMG ?db) ?rows = [1, 2, 2]"
    by (simp add: accepted_def ratio_ok_def numeral_eq_Suc)
  have "filter (is_winner [1, 2, 2]) (first_occs [1, 2, 2 :: int]) = [2]"
    by (simp add: is_winner_def first_occs_def)
  then have "elected [1, 2, 2] = 2" by (simp add: elected_def)
  then have "answer 200 3 (dscCnt_IMG ?db) (accepted (index_IMG ?db) ?rows) = 2"
    unfolding a by (simp add: answer_def init_statics_def)
  moreover have "tables_agree (index_IMG ?db) (dscCnt_IMG ?db)"
    by (simp add: tables_agree_def init_statics_def in_int32_def)
  moreover have "rows_in_range (index_IMG ?db) ?rows"
    by (simp add: rows_in_range_def init_statics_def)
  ultimately show ?thesis
    using matchImg_elects [of "\<lambda>_. Some ()" "''a.jpg''" "()" "\<lambda>_ _. ([()], [True, False])" ?db
        "[()]" "[True, False]" "\<lambda>_ _. ?rows" blank_match] by simp
qed

text \<open>
  C29: \<open>matchImg\<close> throws \<open>out_of_range\<close>, which ends the server, exactly when an accepted match has an index outside
  the index table or the elected image has no entry in the table of descriptor counts.
\<close>

theorem matchImg_throws_iff:
  fixes knn :: "'d list option \<Rightarrow> 'd list \<Rightarrow> knn_row list"
  assumes "imread path = Some img" and "surf (minHessian db) img = (kps, desp)" and "desp \<noteq> []"
    and "list_all (\<lambda>n. 0 \<le> n \<and> in_int32 n) (index_IMG db)"
  shows "matchImg imread surf knn path db im = Inl OutOfRange \<longleftrightarrow>
     \<not> rows_in_range (index_IMG db) (knn (flannIndex db) desp) \<or>
     int (length (dscCnt_IMG db)) < elected (accepted (index_IMG db) (knn (flannIndex db) desp))"
proof (cases "rows_in_range (index_IMG db) (knn (flannIndex db) desp)")
  case False
  from vote_rows_fault [OF this, of "[]"] False assms(1,2,3) show ?thesis
    by (simp add: matchImg_def Let_def)
next
  case True
  define acc where "acc = accepted (index_IMG db) (knn (flannIndex db) desp)"
  have v: "vote_rows (index_IMG db) (knn (flannIndex db) desp) [] = Inr (votes_of acc)"
    using True by (simp add: vote_simps acc_def)
  have "0 \<le> elected acc \<and> in_int32 (elected acc - 1)"
  proof (cases "acc = []")
    case False
    then have "elected acc \<in> set (index_IMG db)"
      using elected_in_accepted [of acc] accepted_subset [OF True] by (auto simp: acc_def)
    with assms(4) have "0 \<le> elected acc \<and> in_int32 (elected acc)" by (auto simp: list_all_iff)
    then show ?thesis by (simp add: in_int32_def)
  qed (simp add: in_int32_def)
  then have w: "0 \<le> elected acc" "in_int32 (elected acc - 1)" by simp_all
  note go = matchImg_def Let_def election
  show ?thesis
  proof (cases "int (length (dscCnt_IMG db)) < elected acc")
    case big: True
    then have "vec_at (dscCnt_IMG db) (elected acc - 1) = Inl OutOfRange" "elected acc \<noteq> 0"
      by (simp_all add: vec_at_def)
    with v w assms(1,2,3) have "matchImg imread surf knn path db im = Inl OutOfRange"
      by (simp add: go del: vec_at_Inl)
    with big show ?thesis by (simp add: acc_def)
  next
    case small: False
    have "matchImg imread surf knn path db im \<noteq> Inl OutOfRange"
    proof (cases "elected acc = 0")
      case True
      with v assms(1,2,3) show ?thesis by (simp add: go)
    next
      case False
      with small w have "0 \<le> elected acc - 1" "nat (elected acc - 1) < length (dscCnt_IMG db)"
        by linarith+
      with False v w assms(1,2,3) show ?thesis by (simp add: go)
    qed
    with True small show ?thesis by (simp add: acc_def)
  qed
qed

lemma matchImg_throws_iff_witness:
  "matchImg (\<lambda>_. Some ()) (\<lambda>_ _. ([()], [True])) (\<lambda>_ _. [(2, Fin 4, Infty)]) ''a.jpg''
     (init_statics\<lparr>index_IMG := [1, 1, 3], dscCnt_IMG := [2, 1]\<rparr>) blank_match = Inl OutOfRange"
proof -
  have "accepted [1, 1, 3] [(2, Fin 4, Infty)] = [3]"
    by (simp add: accepted_def ratio_ok_def)
  moreover have "elected [3] = 3"
    by (simp add: elected_def first_occs_def is_winner_def)
  ultimately show ?thesis
    using matchImg_throws_iff [of "\<lambda>_. Some ()" "''a.jpg''" "()" "\<lambda>_ _. ([()], [True])"
        "init_statics\<lparr>index_IMG := [1, 1, 3], dscCnt_IMG := [2, 1]\<rparr>" "[()]" "[True]"
        "\<lambda>_ _. [(2, Fin 4, Infty)]" blank_match]
    by (simp add: in_int32_def)
qed

text \<open>
  every descriptor that votes is strictly nearer to its first neighbour than to its second: after the
  single-precision rounding of the product, the ratio test never accepts a tie.
\<close>

theorem vote_strictly_nearer:
  assumes "ratio_ok (i, d0, d1)" and "f32_ok d1"
  shows "f32_less d0 d1 \<and> d0 \<noteq> d1"
proof -
  from assms have l: "f32_less d0 d1"
    using ratio_test_less [of d1 d0] by (simp add: ratio_ok_def)
  moreover have "d0 \<noteq> d1" using l by (cases d0) auto
  ultimately show ?thesis by blast
qed

lemma vote_strictly_nearer_witness: "f32_less (Fin 7) Infty \<and> Fin 7 \<noteq> Infty"
  using vote_strictly_nearer [of 0 "Fin 7" Infty] by (simp add: ratio_ok_def f32_ok_def)

subsection \<open>The bolt\<close>

lemma matchImg_storm_answer:
  fixes knn :: "'d list option \<Rightarrow> 'd list \<Rightarrow> knn_row list"
  assumes "nat sz \<le> length bytes" and "imdecode (take (nat sz) bytes) = Some img"
    and "surf (minHessian db) img = (kps, desp)" and "desp \<noteq> []"
    and "tables_agree (index_IMG db) (dscCnt_IMG db)"
    and "rows_in_range (index_IMG db) (knn (flannIndex db) desp)"
  shows "\<exists>im'. matchImg_storm imdecode surf knn bytes sz db im =
      Inr (print_int (getMatchedImgIndex im') @ '',0,0,0,0,0,0,0,0,'', im') \<and>
     getMatchedImgIndex im' =
       answer 50 1 (dscCnt_IMG db) (accepted (index_IMG db) (knn (flannIndex db) desp))"
proof -
  define acc where "acc = accepted (index_IMG db) (knn (flannIndex db) desp)"
  have v: "vote_rows (index_IMG db) (knn (flannIndex db) desp) [] = Inr (votes_of acc)"
    using assms(6) by (simp add: vote_simps acc_def)
  have p0: "print_int 0 = ''0''" by code_simp
  have r: "read_at 0 (nat sz) bytes = Inr (take (nat sz) bytes)"
    using assms(1) by (simp add: read_at_def)
  show ?thesis
  proof (cases "acc = []")
    case True
    with v r assms(2,3,4) show ?thesis
      by (simp add: matchImg_storm_def Let_def getMatchedImgIndex_def answer_def acc_def p0)
  next
    case False
    note ix = elected_index [OF assms(5,6), folded acc_def, OF False]
    have b: "below_02 (int (count_list acc (elected acc))) (dscCnt_IMG db ! nat (elected acc - 1)) \<longleftrightarrow>
        50 * int (count_list acc (elected acc)) < dscCnt_IMG db ! nat (elected acc - 1)"
      using ix(5) by (intro below_02_exact) simp_all
    have nz: "elected acc \<noteq> 0" using ix(1) by linarith
    from False v r assms(2,3,4) ix nz show ?thesis
      unfolding acc_def [symmetric]
      by (simp add: matchImg_storm_def Let_def election getMatchedImgIndex_def
          answer_def b p0)
  qed
qed

lemma answer_02_015:
  assumes "answer 50 1 cnts acc \<noteq> 0"
  shows "answer 200 3 cnts acc = answer 50 1 cnts acc"
proof -
  from assms have "acc \<noteq> []" "cnts ! nat (elected acc - 1) \<le> 50 * int (count_list acc (elected acc))"
    by (auto simp: answer_def split: if_splits)
  then show ?thesis by (simp add: answer_def)
qed

text \<open>
  C21: on the same image and tables, the bolt's reply \<open>"<index>,0,0,0,0,0,0,0,0,"\<close> names either no image or the image
  the server itself reports: its threshold of exactly 1/50 only drops answers.
\<close>

theorem bolt_refines_server:
  fixes knn :: "'d list option \<Rightarrow> 'd list \<Rightarrow> knn_row list"
  assumes "nat sz \<le> length bytes" and "imdecode (take (nat sz) bytes) = Some img"
    and "imread path = Some img"
    and "surf (minHessian db) img = (kps, desp)" and "desp \<noteq> []"
    and "tables_agree (index_IMG db) (dscCnt_IMG db)"
    and "rows_in_range (index_IMG db) (knn (flannIndex db) desp)"
  shows "\<exists>ib sv. matchImg_storm imdecode surf knn bytes sz db im =
       Inr (print_int (getMatchedImgIndex ib) @ '',0,0,0,0,0,0,0,0,'', ib) \<and>
     matchImg imread surf knn path db im = Inr sv \<and>
     getMatchedImgIndex ib \<in> {0, getMatchedImgIndex sv}"
proof -
  let ?acc = "accepted (index_IMG db) (knn (flannIndex db) desp)"
  from matchImg_storm_answer [of sz bytes imdecode img surf db kps desp knn im] assms obtain ib where
    ib: "matchImg_storm imdecode surf knn bytes sz db im =
         Inr (print_int (getMatchedImgIndex ib) @ '',0,0,0,0,0,0,0,0,'', ib)"
      "getMatchedImgIndex ib = answer 50 1 (dscCnt_IMG db) ?acc" by blast
  have "\<exists>sv. matchImg imread surf knn path db im = Inr sv \<and>
      getMatchedImgIndex sv = answer 200 3 (dscCnt_IMG db) ?acc"
    using assms(3-7) by (rule matchImg_answer)
  then obtain sv where sv: "matchImg imread surf knn path db im = Inr sv"
      "getMatchedImgIndex sv = answer 200 3 (dscCnt_IMG db) ?acc" by blast
  have "getMatchedImgIndex ib \<in> {0, getMatchedImgIndex sv}"
    unfolding ib(2) sv(2) using answer_02_015 by fastforce
  with ib(1) sv(1) show ?thesis by blast
qed

lemma bolt_refines_server_witness:
  "\<exists>ib sv. matchImg_storm (\<lambda>_. Some ()) (\<lambda>_ _. ([()], [True])) (\<lambda>_ _. [(1, Fin 4, Infty)]) ''JPEG'' 3
       (init_statics\<lparr>index_IMG := [1, 2], dscCnt_IMG := [1, 60]\<rparr>) blank_match =
       Inr (print_int (getMatchedImgIndex ib) @ '',0,0,0,0,0,0,0,0,'', ib) \<and>
     matchImg (\<lambda>_. Some ()) (\<lambda>_ _. ([()], [True])) (\<lambda>_ _. [(1, Fin 4, Infty)]) ''p''
       (init_statics\<lparr>index_IMG := [1, 2], dscCnt_IMG := [1, 60]\<rparr>) blank_match = Inr sv \<and>
     getMatchedImgIndex ib \<in> {0, getMatchedImgIndex sv}"
proof -
  let ?db = "init_statics\<lparr>index_IMG := [1, 2], dscCnt_IMG := [1, 60]\<rparr> :: bool img_db"
  have "tables_agree (index_IMG ?db) (dscCnt_IMG ?db)"
    and "rows_in_range (index_IMG ?db) [(1, Fin 4, Infty)]"
    by (simp_all add: tables_agree_def rows_in_range_def in_int32_def)
  then show ?thesis
    using bolt_refines_server [of 3 "''JPEG''" "\<lambda>_. Some ()" "()" "\<lambda>_. Some ()" "''p''" "\<lambda>_ _. ([()], [True])"
        ?db "[()]" "[True]" "\<lambda>_ _. [(1, Fin 4, Infty)]" blank_match] by simp
qed

text \<open>
  an image that does not decode makes the bolt build a \<open>std::string\<close> from \<open>NULL\<close>, whatever the tables hold:
  the fault ends the worker, where the server reports index 0 for the same photograph.
\<close>

theorem bolt_undecodable_faults:
  assumes "nat sz \<le> length bytes" and "imdecode (take (nat sz) bytes) = None" and "imread path = None"
  shows "matchImg_storm imdecode surf knn bytes sz db im = Inl NullPointer \<and>
     (\<exists>im'. matchImg imread surf knn path db im = Inr im' \<and> getMatchedImgIndex im' = 0)"
  using assms by (simp add: matchImg_storm_def matchImg_def read_at_def getMatchedImgIndex_def)

lemma bolt_undecodable_faults_witness:
  "matchImg_storm (\<lambda>_. None) (\<lambda>_ _. ([], [])) (\<lambda>_ _. []) ''not a jpeg'' 10 init_statics im = Inl NullPointer"
  using bolt_undecodable_faults [of 10 "''not a jpeg''" "\<lambda>_. None" "\<lambda>_. None" "''p''"
      "\<lambda>_ _. ([], [])" "\<lambda>_ _. []" init_statics im] by simp

subsection \<open>Locating the object\<close>





lemma foldl_min_le:
  "foldl (\<lambda>m d. if f32_less (distance d) m then distance d else m) (Fin 0) ms = Fin 0"
proof (induction ms)
  case (Cons d ms)
  have "\<not> f32_less (distance d) (Fin 0)" by (cases "distance d") simp_all
  with Cons show ?case by simp
qed simp

lemma min_dist_zero: "d \<in> set ms \<Longrightarrow> distance d = Fin 0 \<Longrightarrow> min_dist ms = Fin 0"
proof -
  assume d: "d \<in> set ms" "distance d = Fin 0"
  then obtain xs ys where ms: "ms = xs @ d # ys" by (meson split_list)
  define m where "m = foldl (\<lambda>m d. if f32_less (distance d) m then distance d else m) (Fin (100 * 2 ^ 149)) xs"
  have "(if f32_less (distance d) m then distance d else m) = Fin 0"
  proof (cases m)
    case (Fin k)
    with d show ?thesis by simp
  next
    case Infty
    with d show ?thesis by simp
  next
    case NaN
    have "foldl (\<lambda>m d. if f32_less (distance d) m then distance d else m) (Fin k) zs \<noteq> NaN" for k zs
    proof (induction zs arbitrary: k)
      case (Cons z zs)
      then show ?case by (cases "distance z") auto
    qed simp
    from this [of "100 * 2 ^ 149" xs] NaN show ?thesis unfolding m_def by blast
  qed
  then show ?thesis unfolding min_dist_def ms foldl_append foldl_Cons m_def [symmetric]
    by (simp only: foldl_min_le)
qed

text \<open>
  a photograph that contains the database image exactly is never located: when one match has distance 0 the
  bound "three times the least distance" is 0, no match is below it, and a new object's location
  stays empty, so that \<open>locateDrawRect\<close> on it throws.
\<close>

theorem exact_match_not_located:
  assumes "matchedImgIndex im \<noteq> 0" and "matchedLocation im = []"
    and "surf (minHessian db) (imread (''/demo/img/'' @ print_int (matchedImgIndex im) @ ''.jpg'')) = (kps, desp)"
    and "length (match desp (despSRC im)) = length desp"
    and "d \<in> set (match desp (despSRC im))" and "distance d = Fin 0"
  shows "\<exists>im'. calLocation imread surf match findH corners fo db im = Inr ([], im') \<and>
     locateDrawRect [] im' = Inl OutOfRange"
proof -
  have z: "min_dist (match desp (despSRC im)) = Fin 0" using assms(5,6) by (rule min_dist_zero)
  have "\<not> f32_less (distance x) (Fin 0)" for x :: DMatch by (cases "distance x") simp_all
  with z have "good_matches (match desp (despSRC im)) = []"
    by (simp add: good_matches_def filter_empty_conv)
  with assms show ?thesis
    by (simp add: calLocation_def Let_def locateDrawRect_def vec_at_def)
qed

lemma exact_match_not_located_witness:
  fixes im :: "(unit, unit, bool, int) img_match"
  defines "im \<equiv> (fst (new_ImgMatch 3 init_statics))\<lparr>despSRC := [True]\<rparr>"
  shows "\<exists>im'. calLocation (\<lambda>_. Some ()) (\<lambda>_ _. ([()], [True]))
       (\<lambda>_ _. [\<lparr>queryIdx = 0, trainIdx = 0, distance = Fin 0\<rparr>]) (\<lambda>_ _. ()) (\<lambda>_ _. []) undefined
       init_statics im = Inr ([], im') \<and> locateDrawRect [] im' = Inl OutOfRange"
  by (rule exact_match_not_located [where kps = "[()]" and desp = "[True]"
        and d = "\<lparr>queryIdx = 0, trainIdx = 0, distance = Fin 0\<rparr>"])
    (simp_all add: im_def new_ImgMatch_def)

end
