(* ===== verification/ResultProps.thy ===== *)
theory ResultProps
  imports Results
begin

text \<open>
  What the reply messages promise: a well-formed info text reaches the client's display field
  by field; texts too long or with too few fields fault on one side or the other; the way over
  the Storm bolt gives the same text.
\<close>

subsection \<open>The direct path\<close>

lemma result_reply_size:
  assumes "idx \<noteq> 0"
  shows "result_reply idx info stack =
     (if length (cstr info) + length (print_int idx) + 18 < 200
      then Inr (cstr info @ CHR '','' # commas (print_int idx # zero_fields) @ NUL #
             drop (length (cstr info) + length (print_int idx) + 19) (stack_array 200 stack))
      else Inl BufferOverflow)"
proof -
  have l: "length (cstr info @ CHR '','' # commas (print_int idx # zero_fields)) =
      length (cstr info) + length (print_int idx) + 18"
    by (simp add: length_zero_fields)
  show ?thesis
    unfolding result_reply_nonzero [OF assms] sprintf_buf_def write_at_def
    using l by (simp add: add_ac)
qed

text \<open>
  the reply for a matched image is exactly 200 bytes, and it is written past the end of the array exactly when
  the info text and the decimal index together have 182 characters or more.
\<close>

theorem result_reply_overflow_iff:
  assumes "idx \<noteq> 0"
  shows "(result_reply idx info stack = Inl BufferOverflow \<longleftrightarrow>
       182 \<le> length (cstr info) + length (print_int idx)) \<and>
     (\<forall>msg. result_reply idx info stack = Inr msg \<longrightarrow> length msg = 200)"
  unfolding result_reply_size [OF assms] by (auto simp: length_zero_fields)

lemma result_reply_overflow_iff_witness:
  "result_reply 7 (replicate 190 CHR ''x'') (\<lambda>_. NUL) = Inl BufferOverflow"
proof -
  have "cstr (replicate 190 CHR ''x'') = replicate 190 CHR ''x''"
    by (rule cstr_id) (simp add: no_nul_def)
  then show ?thesis
    using result_reply_overflow_iff [of 7 "replicate 190 CHR ''x''" "\<lambda>_. NUL"] by simp
qed

text \<open>A received reply: the text, its NUL and other bytes, in the client's cleared array.\<close>

lemma cstr_not_none:
  assumes "is_field a" and "list_all is_field ts" and "length ts > 0"
  shows "cstr (commas (a # ts) @ NUL # rest) \<noteq> ''none''"
proof -
  have "cstr (commas (a # ts) @ NUL # rest) = commas (a # ts)"
    using assms(1,2) by (intro cstr_NUL no_nul_commas) simp
  moreover have "CHR '','' \<in> set (commas (a # ts))" by simp
  moreover have "CHR '','' \<notin> set ''none''" by simp
  ultimately show ?thesis by metis
qed

lemma show_result_fields:
  assumes "list_all is_field [a, b, c, i]" and "list_all is_field cs" and "length cs = 8"
  shows "show_result (commas ([a, b, c, i] @ cs) @ NUL # rest) ui =
     Inr (ui\<lparr>drawResult := 1, result_title := ''Title: '' @ a, result_artist := ''Artist: '' @ b,
             result_date := ''Date: '' @ c, matchIndex := i, coord := cs\<rparr>)"
proof -
  let ?rest = "commas cs @ NUL # rest"
  let ?pre = "concat (map (\<lambda>t. t @ [NUL]) [a, b, c, i])"
  have n: "cstr (commas ([a, b, c, i] @ cs) @ NUL # rest) \<noteq> ''none''"
    using cstr_not_none [of a "[b, c, i] @ cs" rest] assms by simp
  have s1: "strtoks '','' 4 (commas ([a, b, c, i] @ cs) @ NUL # rest) 0 =
      Inr ([a, b, c, i], ?pre @ ?rest, length (commas [a, b, c, i]))"
    using strtoks_commas [OF assms(1), of "[]" 0 ?rest] by (simp add: numeral_eq_Suc)
  have "length ?pre = length (commas [a, b, c, i])" by simp
  from strtoks_commas [OF assms(2) this, of "NUL # rest"]
  have s2: "strtoks '','' 8 (?pre @ ?rest) (length (commas [a, b, c, i])) =
      Inr (cs, ?pre @ concat (map (\<lambda>t. t @ [NUL]) cs) @ NUL # rest,
           length (commas [a, b, c, i]) + length (commas cs))"
    using assms(3) by simp
  show ?thesis
    unfolding show_result_def using n s1 s2 by (simp add: numeral_eq_Suc)
qed

text \<open>The display after a reply with the three fields of an info text, an index and no location.\<close>

abbreviation painting_ui :: "string \<Rightarrow> string \<Rightarrow> string \<Rightarrow> int \<Rightarrow> shown \<Rightarrow> shown" where
  "painting_ui title artist date idx ui \<equiv> ui\<lparr>drawResult := 1, result_title := ''Title: '' @ title,
               result_artist := ''Artist: '' @ artist, result_date := ''Date: '' @ date,
               matchIndex := print_int idx, coord := replicate 8 ''0''\<rparr>"

text \<open>The reply is shown whatever lies behind it in the client's buffer.\<close>

lemma reply_shown_any:
  assumes "list_all is_field [title, artist, date]" and "idx \<noteq> 0"
    and "length title + length artist + length date + length (print_int idx) < 180"
  shows "\<exists>msg. result_reply idx (title @ '','' @ artist @ '','' @ date) stack = Inr msg \<and> length msg = 200 \<and>
     (\<forall>rest. show_result (msg @ rest) ui = Inr (painting_ui title artist date idx ui))"
proof -
  let ?info = "title @ '','' @ artist @ '','' @ date"
  have c: "cstr ?info = ?info" using assms(1) by (intro cstr_id) (simp add: is_field_def)
  define tl' where "tl' = drop (length ?info + length (print_int idx) + 19) (stack_array 200 stack)"
  define msg where "msg = ?info @ CHR '','' # commas (print_int idx # zero_fields) @ NUL # tl'"
  have "result_reply idx ?info stack = Inr msg"
    using result_reply_size [OF assms(2), of ?info stack] assms(3) c by (simp add: msg_def tl'_def)
  moreover have "length msg = 200"
    using assms(3) by (simp add: msg_def tl'_def length_zero_fields)
  moreover have "msg @ rest = commas ([title, artist, date, print_int idx] @ zero_fields) @ NUL # (tl' @ rest)" for rest
    by (simp add: msg_def)
  moreover have "list_all is_field [title, artist, date, print_int idx]" using assms(1) by simp
  from show_result_fields [OF this is_field_0]
  have "show_result (commas ([title, artist, date, print_int idx] @ zero_fields) @ NUL # (tl' @ rest)) ui =
      Inr (painting_ui title artist date idx ui)" for rest
    by (simp add: zero_fields_def)
  ultimately show ?thesis by metis
qed

lemma reply_shown:
  assumes "list_all is_field [title, artist, date]" and "idx \<noteq> 0"
    and "length title + length artist + length date + length (print_int idx) < 180"
  shows "\<exists>msg. result_reply idx (title @ '','' @ artist @ '','' @ date) stack = Inr msg \<and>
     show_result (fill msg (zeros 1024)) ui =
       Inr (painting_ui title artist date idx ui)"
  using reply_shown_any [OF assms, of stack ui] by (auto simp: fill_fits)

lemma buffer_displayed:
  assumes "rl_counter rl = 1" and "0 < n" and "show_result (fill buffer (zeros 1024)) (rl_ui rl) = Inr ui"
  shows "\<exists>rl'. result_step 1 consume n buffer rl = Inr rl' \<and> rl_ui rl' = ui"
  using assms by (simp add: result_step_def in_int32_def Let_def)

text \<open>
  when the info text of the matched image is three non-empty fields without further commas and fits, the client
  that receives the reply shows exactly these fields as title, artist and date, the index, and
  eight zero coordinates.
\<close>

theorem result_reaches_display:
  assumes "list_all is_field [title, artist, date]" and "idx \<noteq> 0"
    and "length title + length artist + length date + length (print_int idx) < 180"
  shows "\<exists>msg. result_reply idx (title @ '','' @ artist @ '','' @ date) stack = Inr msg \<and>
     show_result (fill msg (zeros 1024)) ui =
       Inr (painting_ui title artist date idx ui)"
  using assms by (rule reply_shown)

lemma result_reaches_display_witness:
  "\<exists>msg. result_reply 12 ''Mona Lisa,Leonardo,1503'' (\<lambda>_. CHR ''?'') = Inr msg \<and>
     (\<exists>ui. show_result (fill msg (zeros 1024)) init_shown = Inr ui \<and> result_artist ui = ''Artist: Leonardo'')"
proof -
  have "list_all is_field [''Mona Lisa'', ''Leonardo'', ''1503'']"
    by (simp add: is_field_def no_char_def no_nul_def)
  moreover have "length (print_int 12) = 2" by code_simp
  ultimately show ?thesis
    using result_reaches_display [of "''Mona Lisa''" "''Leonardo''" "''1503''" 12 "\<lambda>_. CHR ''?''" init_shown]
    by auto
qed

lemma strtoks_short:
  assumes "list_all is_field all" and "4 \<le> length all" and "length all < 12" and "length pre = p"
  shows "rbind (strtoks '','' 4 (pre @ commas all @ NUL # rest) p)
     (\<lambda>(ts, b, q). rbind (strtoks '','' 8 b q) (F ts)) = Inl NullPointer"
proof -
  let ?xs = "take 4 all" and ?ys = "drop 4 all"
  let ?pre = "pre @ concat (map (\<lambda>t. t @ [NUL]) ?xs)"
  have all: "all = ?xs @ ?ys" by simp
  have f: "list_all is_field ?xs" "list_all is_field ?ys"
    using assms(1) by (metis all list_all_append)+
  have l: "length ?xs = 4" "length ?ys < 8" using assms(2,3) by simp_all
  have e: "pre @ commas all @ NUL # rest = pre @ commas ?xs @ (commas ?ys @ NUL # rest)"
    by (subst all) (simp only: commas_append append.assoc)
  have lc: "length (concat (map (\<lambda>t. t @ [NUL]) ts)) = length (commas ts)" for ts
    by (induction ts) simp_all
  have s1: "strtoks '','' 4 (pre @ commas all @ NUL # rest) p =
      Inr (?xs, ?pre @ commas ?ys @ NUL # rest, p + length (commas ?xs))"
    unfolding e using strtoks_commas [OF f(1) assms(4), of "commas ?ys @ NUL # rest"] l(1) by simp
  have "length ?pre = p + length (commas ?xs)" using assms(4) lc by simp
  from strtoks_too_many [OF f(2) this l(2)] s1 show ?thesis by simp
qed

lemma show_result_short:
  assumes "list_all is_field all" and "4 \<le> length all" and "length all < 12"
  shows "show_result (commas all @ NUL # rest) ui = Inl NullPointer"
    and "show_result (CHR '','' # commas all @ NUL # rest) ui = Inl NullPointer"
proof -
  obtain a ts where all: "all = a # ts" using assms(2) by (cases all) auto
  then have ts: "0 < length ts" using assms(2) by auto
  have "cstr (commas all @ NUL # rest) \<noteq> ''none''"
    using cstr_not_none [of a ts rest] assms(1) ts unfolding all by simp
  moreover have "strtoks '','' 4 (CHR '','' # commas all @ NUL # rest) 0 =
      strtoks '','' 4 ([CHR '',''] @ commas all @ NUL # rest) 1"
    using strtoks_skip [of "CHR '',''" "'',''" "[]" 0 3 "commas all @ NUL # rest"]
    by (simp add: numeral_eq_Suc)
  moreover have "cstr (CHR '','' # commas all @ NUL # rest) \<noteq> ''none''"
    by (simp add: cstr_def)
  ultimately show "show_result (commas all @ NUL # rest) ui = Inl NullPointer"
    and "show_result (CHR '','' # commas all @ NUL # rest) ui = Inl NullPointer"
    using strtoks_short [OF assms, of "[]" 0 rest] strtoks_short [OF assms, of "[CHR '','']" 1 rest]
    unfolding show_result_def by simp_all
qed

text \<open>
  C38: an info text with fewer than three fields crashes the client that is to show it: the reply then has fewer
  fields than the client reads, and it dereferences the null pointer of the last \<open>strtok\<close>. This
  includes the empty text the server sends for an image without an info file.
\<close>

theorem short_info_crashes_client:
  assumes "list_all is_field fs" and "length fs < 3" and "idx \<noteq> 0"
    and "result_reply idx (join fs) stack = Inr msg"
  shows "show_result (fill msg (zeros 1024)) ui = Inl NullPointer"
proof -
  let ?all = "fs @ print_int idx # zero_fields"
  have c: "cstr (join fs) = join fs" using no_nul_join [OF assms(1)] by simp
  have all: "list_all is_field ?all" "4 \<le> length ?all" "length ?all < 12"
    using assms(1,2) is_field_0 by (simp_all add: zero_fields_def)
  from assms(4) obtain tl' where m: "msg = join fs @ CHR '','' # commas (print_int idx # zero_fields) @ NUL # tl'"
    unfolding result_reply_size [OF assms(3)] c by (auto split: if_splits)
  have "length msg = 200"
    using assms(4) unfolding result_reply_size [OF assms(3)] by (auto simp: length_zero_fields split: if_splits)
  then have f: "fill msg (zeros 1024) = msg @ drop (length msg) (zeros 1024)"
    by (intro fill_fits) simp
  show ?thesis
  proof (cases "fs = []")
    case True
    with show_result_short(2) [OF all, of "tl' @ drop (length msg) (zeros 1024)" ui] m f
    show ?thesis by simp
  next
    case False
    then have "msg = commas ?all @ NUL # tl'" unfolding m by (simp add: join_commas)
    with show_result_short(1) [OF all, of "tl' @ drop (length msg) (zeros 1024)" ui] f
    show ?thesis by simp
  qed
qed

lemma short_info_crashes_client_witness:
  "\<exists>msg. result_reply 5 [] (\<lambda>_. NUL) = Inr msg \<and> show_result (fill msg (zeros 1024)) init_shown = Inl NullPointer"
proof -
  have "length (print_int 5) = 1" by code_simp
  then obtain msg where "result_reply 5 [] (\<lambda>_. NUL) = Inr msg"
    using result_reply_size [of 5 "[]" "\<lambda>_. NUL"] by (auto simp: cstr_def)
  with short_info_crashes_client [of "[]" 5 "\<lambda>_. NUL" msg init_shown] show ?thesis by auto
qed

subsection \<open>Bursts\<close>

fun run_results :: "int \<Rightarrow> bool \<Rightarrow> bytes list \<Rightarrow> result_loop \<Rightarrow> result_loop res" where
  "run_results k c [] st = Inr st"
| "run_results k c (m # ms) st =
     rbind (result_step k c (int (length m)) m st) (run_results k c ms)"

lemma run_results_skip:
  assumes "list_all (\<lambda>m. m \<noteq> []) ms" and "int (length ms) < rl_counter st" and "in_int32 (rl_counter st)"
  shows "run_results k c (ms @ ns) st =
     run_results k c ns (st\<lparr>rl_counter := rl_counter st - int (length ms)\<rparr>)"
  using assms
proof (induction ms arbitrary: st)
  case (Cons m ms)
  have i: "in_int32 (rl_counter st - 1)" using Cons.prems by (simp add: in_int32_def)
  have "result_step k c (int (length m)) m st = Inr (st\<lparr>rl_counter := rl_counter st - 1\<rparr>)"
    using Cons.prems i by (simp add: result_step_def)
  moreover have "run_results k c (ms @ ns) (st\<lparr>rl_counter := rl_counter st - 1\<rparr>) =
      run_results k c ns (st\<lparr>rl_counter := rl_counter st - 1\<rparr>
        \<lparr>rl_counter := rl_counter (st\<lparr>rl_counter := rl_counter st - 1\<rparr>) - int (length ms)\<rparr>)"
    using Cons.prems i by (intro Cons.IH) simp_all
  ultimately show ?case by (simp add: algebra_simps)
qed simp

text \<open>
  with \<open>size_per_time = k\<close> requests per picture, the client shows the last of each \<open>k\<close> replies and only that
  one, whatever the others hold, and is ready for the next \<open>k\<close>.
\<close>

theorem burst_shows_last:
  assumes "list_all (\<lambda>m. m \<noteq> []) ms" and "m \<noteq> []" and "k = int (Suc (length ms))" and "in_int32 k"
    and "rl_counter st = k"
    and "show_result (fill m (zeros 1024)) (rl_ui st) = Inr ui"
  shows "\<exists>st'. run_results k False (ms @ [m]) st = Inr st' \<and> rl_ui st' = ui \<and>
     rl_counter st' = k \<and> rl_stop st' = rl_stop st"
proof -
  let ?st = "st\<lparr>rl_counter := 1\<rparr>"
  have "run_results k False (ms @ [m]) st = run_results k False [m] ?st"
    using run_results_skip [OF assms(1), of st k False "[m]"] assms(3,4,5) by simp
  moreover have "result_step k False (int (length m)) m ?st = Inr (st\<lparr>rl_counter := k, rl_ui := ui\<rparr>)"
    using assms(2,6) by (simp add: result_step_def in_int32_def)
  ultimately show ?thesis by simp
qed

lemma burst_shows_last_witness:
  "\<exists>st'. run_results 2 False [''anything'', none_msg]
       \<lparr>rl_counter = 2, rl_stop = False, rl_ui = init_shown\<lparr>drawResult := 1\<rparr>, rl_times = []\<rparr> = Inr st' \<and>
     rl_ui st' = init_shown"
proof -
  have "cstr (fill none_msg (zeros 1024)) = ''none''"
    by (simp add: fill_def cstr_def)
  then have "show_result (fill none_msg (zeros 1024)) (init_shown\<lparr>drawResult := 1\<rparr>) = Inr init_shown"
    by (simp add: show_result_def init_shown_def)
  then show ?thesis
    using burst_shows_last [of "[''anything'']" none_msg 2
        "\<lparr>rl_counter = 2, rl_stop = False, rl_ui = init_shown\<lparr>drawResult := 1\<rparr>, rl_times = []\<rparr>" init_shown]
    by (auto simp: in_int32_def)
qed

subsection \<open>The path over the bolt\<close>

lemma stoi_print_int:
  assumes "in_int32 i"
  shows "stoi (print_int i) = Inr i"
proof -
  have "\<bar>i\<bar> \<le> 9223372036854775807" using assms unfolding in_int32_def by arith
  then have v: "strtol (print_int i) = i"
    using strtol_print_int [of "[]" i] by (simp add: stops_number_def)
  have d: "dropWhile is_space (print_int i) = print_int i"
    using dropWhile_space_print_int [of i "[]"] by simp
  obtain c t where ct: "dec_nat (nat \<bar>i\<bar>) = c # t" by (cases "dec_nat (nat \<bar>i\<bar>)") auto
  then have c: "is_digit c" by (metis dec_nat_digit list.set_intros(1))
  show ?thesis
  proof (cases "i < 0")
    case True
    then have "print_int i = CHR ''-'' # c # t" using ct by (simp add: print_int_def)
    then show ?thesis using d v assms c by (simp add: stoi_def)
  next
    case False
    then have "print_int i = c # t" using ct by (simp add: print_int_def)
    then show ?thesis using d v assms c is_digit_neq(3,5) [OF c] by (simp add: stoi_def)
  qed
qed

lemma length_print_int32: "in_int32 i \<Longrightarrow> length (print_int i) \<le> 11"
proof -
  assume "in_int32 i"
  then have "\<bar>i\<bar> < 10 ^ 10" unfolding in_int32_def by (simp add: abs_less_iff)
  then have "nat \<bar>i\<bar> < 10 ^ 10" by (simp add: nat_less_iff)
  then have "length (dec_nat (nat \<bar>i\<bar>)) \<le> 10" by (intro length_dec_nat_le) simp_all
  then show ?thesis by (cases "i < 0") (simp_all add: print_int_def)
qed

lemma bolt_text: "print_int idx @ '',0,0,0,0,0,0,0,0,'' = commas (print_int idx # zero_fields)"
  by (simp add: zero_fields_def numeral_eq_Suc)

lemma storm_reply_bolt:
  assumes "in_int32 idx"
  shows "storm_reply (print_int idx @ '',0,0,0,0,0,0,0,0,'') info_of stack =
      (if idx = 0 then Inr (0, none_msg)
       else rbind (sprintf_buf (cstr (info_of idx) @ '','' @ commas (print_int idx # zero_fields)) (stack_array 1024 stack))
                  (\<lambda>reply. Inr (idx, reply)))"
proof -
  define d where "d = commas (print_int idx # zero_fields)"
  have nd: "no_nul d" using is_field_0 by (simp add: d_def no_nul_commas del: commas_simps)
  have ld: "length d \<le> 28" using length_print_int32 [OF assms] by (simp add: d_def length_zero_fields)
  then have f: "fill d (zeros 1024) = d @ drop (length d) (zeros 1024)" by (intro fill_fits) simp
  have z: "drop (length d) (zeros 1024) = NUL # zeros (1023 - length d)"
  proof -
    have "1024 - length d = Suc (1023 - length d)" using ld by simp
    then show ?thesis by (simp add: zeros_def)
  qed
  have cb: "cstr (fill d (zeros 1024)) = d" unfolding f z using nd by simp
  have n: "NUL \<in> set (fill d (zeros 1024))" unfolding f z by simp
  have "\<exists>t. strtok '','' (fill d (zeros 1024)) 0 = Some t \<and> tok t = print_int idx"
    using strtok_field [of "[]" 0 "print_int idx" "'',''" "CHR '',''" "commas zero_fields @ NUL # zeros (1023 - length d)"]
    unfolding f z by (simp add: d_def)
  then obtain t where t: "strtok '','' (fill d (zeros 1024)) 0 = Some t" "tok t = print_int idx" by blast
  show ?thesis
    unfolding storm_reply_def Let_def bolt_text d_def [symmetric]
    using n t stoi_print_int [OF assms] cb by simp
qed

lemma storm_reply_shown:
  assumes "list_all is_field [title, artist, date]" and "idx \<noteq> 0" and "in_int32 idx"
    and "info_of idx = title @ '','' @ artist @ '','' @ date"
    and "length title + length artist + length date + length (print_int idx) < 180"
  shows "\<exists>msg. storm_reply (print_int idx @ '',0,0,0,0,0,0,0,0,'') info_of stack = Inr (idx, msg) \<and>
     length msg = 1024 \<and>
     show_result (fill msg (zeros 1024)) ui =
       Inr (painting_ui title artist date idx ui)"
proof -
  let ?info = "title @ '','' @ artist @ '','' @ date"
  let ?txt = "?info @ '','' @ commas (print_int idx # zero_fields)"
  have c: "cstr ?info = ?info" using assms(1) by (intro cstr_id) (simp add: is_field_def)
  have l: "length ?txt < 1024" using assms(5) by (simp add: length_zero_fields)
  define rest where "rest = drop (Suc (length ?txt)) (stack_array 1024 stack)"
  have r: "storm_reply (print_int idx @ '',0,0,0,0,0,0,0,0,'') info_of stack = Inr (idx, ?txt @ NUL # rest)"
    unfolding storm_reply_bolt [OF assms(3)] assms(4) c
    using assms(2) sprintf_buf_ok [of ?txt "stack_array 1024 stack"] l by (simp add: rest_def)
  have len: "length (?txt @ NUL # rest) = 1024" using l by (simp add: rest_def)
  then have "fill (?txt @ NUL # rest) (zeros 1024) = ?txt @ NUL # rest"
    using fill_fits [of "?txt @ NUL # rest" "zeros 1024"] by simp
  moreover have "?txt @ NUL # rest = commas ([title, artist, date, print_int idx] @ zero_fields) @ NUL # rest" by simp
  ultimately have f: "fill (?txt @ NUL # rest) (zeros 1024) = \<dots>" by argo
  have "list_all is_field [title, artist, date, print_int idx]" using assms(1) by simp
  from show_result_fields [OF this is_field_0, of rest ui] r len
  show ?thesis unfolding f [symmetric] by (auto simp: zero_fields_def)
qed

text \<open>
  C30: a match found by the bolt reaches the client with the same text as one found by the server itself: the
  datagram \<open>"<index>,0,0,0,0,0,0,0,0,"\<close> becomes a reply whose C string equals that of
  \<open>result_child\<close> for the same index, and index 0 becomes \<open>none\<close> on both paths.
\<close>

theorem storm_same_text:
  assumes "in_int32 idx" and "result_reply idx (info_of idx) stack = Inr m"
  shows "\<exists>m'. storm_reply (print_int idx @ '',0,0,0,0,0,0,0,0,'') info_of stack' = Inr (idx, m') \<and>
     cstr m' = cstr m"
proof (cases "idx = 0")
  case True
  with assms(2) show ?thesis unfolding storm_reply_bolt [OF assms(1)] by (simp add: result_reply_def)
next
  case False
  let ?d = "commas (print_int idx # zero_fields)"
  let ?txt = "cstr (info_of idx) @ CHR '','' # ?d"
  have r: "sprintf_buf ?txt (stack_array 200 stack) = Inr m"
    using assms(2) result_reply_nonzero [OF False] by simp
  then have l: "length ?txt < 200" by (auto simp: sprintf_buf_def write_at_def split: if_splits)
  have nn: "no_nul ?txt" using is_field_0 by (simp add: no_nul_commas del: commas_simps)
  have "sprintf_buf ?txt (stack_array 1024 stack') =
      Inr (?txt @ NUL # drop (Suc (length ?txt)) (stack_array 1024 stack'))"
    using l by (intro sprintf_buf_ok) simp
  moreover have "m = ?txt @ NUL # drop (Suc (length ?txt)) (stack_array 200 stack)"
    using r sprintf_buf_ok [of ?txt "stack_array 200 stack"] l by simp
  moreover have "cstr (?txt @ NUL # x) = ?txt" for x using nn by (rule cstr_NUL)
  ultimately show ?thesis unfolding storm_reply_bolt [OF assms(1)] using False by simp
qed

lemma storm_same_text_witness:
  "\<exists>m. storm_reply (print_int 4 @ '',0,0,0,0,0,0,0,0,'') (\<lambda>_. ''a,b,c'') (\<lambda>_. CHR ''y'') = Inr (4, m) \<and>
     cstr m = ''a,b,c,4,0,0,0,0,0,0,0,0,''"
proof -
  have c: "cstr ''a,b,c'' = ''a,b,c''" by (rule cstr_id) simp
  have p: "print_int 4 = ''4''" by code_simp
  define rest where "rest = drop 24 (stack_array 200 (\<lambda>_. CHR ''x''))"
  have r: "result_reply 4 ''a,b,c'' (\<lambda>_. CHR ''x'') =
      Inr (''a,b,c'' @ CHR '','' # commas (print_int 4 # zero_fields) @ NUL # 
        drop (length (cstr ''a,b,c'') + length (print_int 4) + 19) (stack_array 200 (\<lambda>_. CHR ''x'')))"
    using result_reply_size [of 4 "''a,b,c''" "\<lambda>_. CHR ''x''"] c p by simp
  have t: "''a,b,c'' @ CHR '','' # commas (print_int 4 # zero_fields) = ''a,b,c,4,0,0,0,0,0,0,0,0,''"
    by (simp add: p zero_fields_def numeral_eq_Suc)
  have "cstr (''a,b,c,4,0,0,0,0,0,0,0,0,'' @ NUL # x) = ''a,b,c,4,0,0,0,0,0,0,0,0,''" for x
    by (rule cstr_NUL) simp
  with t have u: "cstr (''a,b,c'' @ CHR '','' # commas (print_int 4 # zero_fields) @ NUL # x) = ''a,b,c,4,0,0,0,0,0,0,0,0,''" for x
    by (metis append.assoc append_Cons)
  have "in_int32 4" by (simp add: in_int32_def)
  from storm_same_text [OF this, of "\<lambda>_. ''a,b,c''", OF r, of "\<lambda>_. CHR ''y''"] show ?thesis
    unfolding u .
qed

end
