(* ===== verification/ImgDBProps.thy ===== *)
theory ImgDBProps
  imports ImgDB ImgMatchProps
begin

text \<open>
  Training and loading fit together when every image has descriptors: what the server loads is
  what the training computed, and the two tables agree. An image without descriptors makes
  the counting loop miscount the images after it.
\<close>

subsection \<open>The counting loop\<close>

fun blocks :: "int \<Rightarrow> nat list \<Rightarrow> int list" where
  "blocks n [] = []"
| "blocks n (k # ks) = replicate k (n + 1) @ blocks (n + 1) ks"

lemma count_step_same [db_simps]:
  "ds \<noteq> [] \<Longrightarrow> n = int (length ds) \<Longrightarrow>
     count_step n (n, n, ds) = Inr (n, n, n, ds[length ds - 1 := last ds + 1])"
  by (simp add: count_step.simps vec_at_def nat_diff_distrib' last_conv_nth Suc_le_eq)

lemma count_step_next [db_simps]:
  "n = int (length ds) \<Longrightarrow> t \<noteq> n \<Longrightarrow> count_step t (n, n, ds) = Inr (n + 1, n + 1, n + 1, ds @ [1])"
  by (cases ds) (simp_all add: count_step.simps Let_def)

lemma count_loop_append:
  "count_loop (xs @ ys) st =
     rbind (count_loop xs st) (\<lambda>(xs', st'). rbind (count_loop ys st') (\<lambda>(ys', st''). Inr (xs' @ ys', st'')))"
proof (induction xs arbitrary: st)
  case Nil
  show ?case by (cases "count_loop ys st") (simp_all split: prod.splits)
next
  case (Cons x xs)
  show ?case
  proof (cases "count_step x st")
    case (Inr b)
    then show ?thesis
      using Cons [of "snd b"]
      by (cases b; cases "count_loop xs (snd b)") (auto simp: rbind_def split: sum.splits prod.splits)
  qed simp
qed

lemma count_loop_same:
  "n = int (Suc (length ds)) \<Longrightarrow>
     count_loop (replicate k n) (n, n, ds @ [c]) = Inr (replicate k n, n, n, ds @ [c + int k])"
proof (induction k arbitrary: c)
  case (Suc k)
  have "count_step n (n, n, ds @ [c]) = Inr (n, n, n, ds @ [c + 1])"
    using count_step_same [of "ds @ [c]" n] Suc.prems by (simp add: list_update_append)
  with Suc show ?case by (simp add: add.assoc)
qed simp

lemma count_loop_block:
  assumes "n = int (length ds)" and "0 < k"
  shows "count_loop (replicate k (n + 1)) (n, n, ds) =
     Inr (replicate k (n + 1), n + 1, n + 1, ds @ [int k])"
proof -
  from assms(2) obtain j where k: "k = Suc j" by (cases k) auto
  have "count_step (n + 1) (n, n, ds) = Inr (n + 1, n + 1, n + 1, ds @ [1])"
    by (rule count_step_next [OF assms(1)]) simp
  with count_loop_same [of "n + 1" ds j 1] assms(1) show ?thesis by (simp add: k)
qed

lemma count_loop_blocks:
  "n = int (length ds) \<Longrightarrow> list_all (\<lambda>k. 0 < k) ks \<Longrightarrow>
     count_loop (blocks n ks) (n, n, ds) =
       Inr (blocks n ks, n + int (length ks), n + int (length ks), ds @ map int ks)"
proof (induction ks arbitrary: n ds)
  case (Cons k ks)
  from Cons.prems have "count_loop (replicate k (n + 1)) (n, n, ds) =
      Inr (replicate k (n + 1), n + 1, n + 1, ds @ [int k])" by (intro count_loop_block) simp_all
  moreover have "count_loop (blocks (n + 1) ks) (n + 1, n + 1, ds @ [int k]) =
      Inr (blocks (n + 1) ks, n + 1 + int (length ks), n + 1 + int (length ks), (ds @ [int k]) @ map int ks)"
    using Cons.prems by (intro Cons.IH) simp_all
  ultimately show ?case by (simp add: count_loop_append add.assoc)
qed simp

lemma set_blocks: "set (blocks n ks) \<subseteq> {n + 1..n + int (length ks)}"
proof (induction ks arbitrary: n)
  case (Cons k ks)
  from Cons [of "n + 1"] show ?case by auto
qed simp

subsection \<open>Scanning the database\<close>

definition desp_of :: "(string \<Rightarrow> 'img option) \<Rightarrow> (int \<Rightarrow> 'img \<Rightarrow> 'kp list \<times> 'd list) \<Rightarrow> string \<Rightarrow> int \<Rightarrow> 'd list" where
  "desp_of imread surf add_DB i =
     (case imread (add_DB @ print_int i @ ''.jpg'') of None \<Rightarrow> [] | Some img \<Rightarrow> snd (surf 2500 img))"

lemma scan_DB_all:
  assumes "\<forall>i \<in> set is'. imread (add_DB @ print_int i @ ''.jpg'') \<noteq> None"
  shows "scan_DB imread surf add_DB is' db =
     (db\<lparr>featureCluster := featureCluster db @ concat (map (desp_of imread surf add_DB) is'),
         index_IMG := index_IMG db @
           concat (map (\<lambda>i. replicate (length (desp_of imread surf add_DB i)) i) is')\<rparr>, True)"
  using assms
proof (induction is' arbitrary: db)
  case (Cons i is')
  then obtain img where "imread (add_DB @ print_int i @ ''.jpg'') = Some img" by auto
  with Cons show ?case by (simp add: desp_of_def split: prod.splits)
qed simp

lemma blocks_upto:
  "concat (map (\<lambda>i. replicate (f i) i) [n + 1..n + int m]) = blocks n (map f [n + 1..n + int m])"
proof (induction m arbitrary: n)
  case (Suc m)
  have u: "[n + 1..n + int (Suc m)] = (n + 1) # [n + 1 + 1..n + 1 + int m]"
    by (subst upto.simps) (simp add: add.assoc)
  from Suc [of "n + 1"] show ?case unfolding u by simp
qed simp

lemma init_statics_simps [simp]:
  "index_IMG init_statics = []" "dscCnt_IMG init_statics = []" "featureCluster init_statics = []"
  "lastIndex init_statics = 0" "imgCount init_statics = 0"
  by (simp_all add: init_statics_def)

lemma set_dbSize_simps [simp]:
  "index_IMG (set_dbSize s db) = index_IMG db" "dscCnt_IMG (set_dbSize s db) = dscCnt_IMG db"
  "featureCluster (set_dbSize s db) = featureCluster db" "lastIndex (set_dbSize s db) = lastIndex db"
  "imgCount (set_dbSize s db) = imgCount db"
  by (simp_all add: set_dbSize_def)

text \<open>
  Training on \<open>n\<close> readable images that all have descriptors, in a fresh process, writes files from which
  a fresh server loads the index table, the counts and the descriptors of exactly these images, in
  order; the two tables agree, so no later match can throw because of them.
\<close>

lemma train_then_load:
  assumes "0 \<le> n" and "in_int32 n"
    and "\<forall>i \<in> {1..n}. imread (add_DB @ print_int i @ ''.jpg'') \<noteq> None"
    and "\<forall>i \<in> {1..n}. desp_of imread surf add_DB i \<noteq> [] \<and>
           in_int32 (int (length (desp_of imread surf add_DB i)))"
    and "indexAdd \<noteq> ''indexDscNo''"
  shows "\<exists>tr dk'. init_DB imread surf n add_DB indexAdd clusterAdd init_statics dk = Inr (tr, dk') \<and>
     (let db = init_matchImg indexAdd clusterAdd infoAdd dk' init_statics
      in index_IMG db = concat (map (\<lambda>i. replicate (length (desp_of imread surf add_DB i)) i) [1..n]) \<and>
         dscCnt_IMG db = map (\<lambda>i. int (length (desp_of imread surf add_DB i))) [1..n] \<and>
         featureCluster db = concat (map (desp_of imread surf add_DB) [1..n]) \<and>
         flannIndex db = Some (featureCluster db) \<and>
         tables_agree (index_IMG db) (dscCnt_IMG db))"
proof -
  let ?k = "\<lambda>i. length (desp_of imread surf add_DB i)"
  define ks where "ks = map ?k [1..n]"
  define idx where "idx = concat (map (\<lambda>i. replicate (?k i) i) [1..n])"
  have lk: "length ks = nat n" by (simp add: ks_def)
  have ib: "idx = blocks 0 ks"
    using blocks_upto [of ?k 0 "nat n"] assms(1) by (simp add: idx_def ks_def)
  have pos: "list_all (\<lambda>k. 0 < k) ks" using assms(4) by (simp add: ks_def list_all_iff)
  have loop: "count_loop idx (0, 0, []) = Inr (idx, n, n, map int ks)"
    using count_loop_blocks [of 0 "[]" ks] pos lk assms(1) by (simp add: ib)
  have sub: "set idx \<subseteq> {1..n}" using set_blocks [of 0 ks] lk assms(1) by (simp add: ib)
  have r1: "list_all in_int32 idx"
    using sub assms(1,2) by (fastforce simp: list_all_iff in_int32_def)
  have r2: "list_all in_int32 (map int ks)"
    using assms(4) by (simp add: ks_def list_all_iff)
  have t: "tables_agree idx (map int ks)"
    using sub r1 r2 lk assms(1) by (fastforce simp: tables_agree_def list_all_iff)
  have sc: "scan_DB imread surf add_DB [1..n] (set_dbSize n init_statics) =
      ((set_dbSize n init_statics)\<lparr>featureCluster := concat (map (desp_of imread surf add_DB) [1..n]),
         index_IMG := idx\<rparr>, True)"
    using scan_DB_all [of "[1..n]" imread add_DB surf "set_dbSize n init_statics"] assms(3)
    by (simp add: idx_def)
  show ?thesis
    using loop assms(5) t r1 r2
    by (simp add: init_DB_def sc Let_def init_matchImg_def init_matchImg_at_def read_table_def
        read_write_ints idx_def [symmetric] ks_def [symmetric]) (simp add: ks_def comp_def)
qed

text \<open>
  an image without descriptors breaks the count of the next one. If image 1 has \<open>a\<close> descriptors, image 2
  none and image 3 \<open>b\<close>, the table of counts is \<open>[a, 1]\<close> for \<open>b = 1\<close>, so that image 3 has no entry
  and a match with it throws, and \<open>[a, 1, b - 1]\<close> otherwise, one too few.
\<close>

theorem empty_image_miscounted:
  assumes "0 < a" and "0 < b"
  shows "\<exists>idx li. count_loop (replicate a 1 @ replicate b 3) (0, 0, []) =
     Inr (idx, li, li, if b = 1 then [int a, 1] else [int a, 1, int b - 1])"
proof -
  have A: "count_loop (replicate a 1) (0, 0, []) = Inr (replicate a 1, 1, 1, [int a])"
    using count_loop_block [of 0 "[]" a] assms(1) by simp
  from assms(2) obtain c where b: "b = Suc c" by (cases b) auto
  have S: "count_step 3 (1, 1, [int a]) = Inr (2, 2, 2, [int a, 1])"
    using count_step_next [of 1 "[int a]" 3] by simp
  show ?thesis
  proof (cases c)
    case 0
    with A S show ?thesis by (simp add: b count_loop_append)
  next
    case (Suc d)
    have "count_loop (replicate (Suc d) 3) (2, 2, [int a, 1]) =
        Inr (replicate (Suc d) 3, 3, 3, [int a, 1, int (Suc d)])"
      using count_loop_block [of 2 "[int a, 1]" "Suc d"] by simp
    with A S Suc show ?thesis by (simp add: b count_loop_append del: replicate_Suc) (simp add: b)
  qed
qed

lemma empty_image_miscounted_witness:
  "\<exists>idx li. count_loop [1, 1, 3] (0, 0, []) = Inr (idx, li, li, [2, 1])"
  using empty_image_miscounted [of 2 1] by (simp add: numeral_eq_Suc)

subsection \<open>The info text of an image\<close>

lemma lines_of_line:
  assumes "NL \<notin> set l"
  shows "lines_of (l @ NL # s) = l # lines_of s"
proof -
  have "takeWhile (\<lambda>c. c \<noteq> NL) (l @ NL # s) = l" using assms by (induction l) auto
  moreover have "dropWhile (\<lambda>c. c \<noteq> NL) (l @ NL # s) = NL # s"
    using assms by (induction l) auto
  ultimately show ?thesis by (subst lines_of.simps) simp
qed

lemma lines_of_unlines [db_simps]:
  assumes "list_all (\<lambda>l. NL \<notin> set l) ls" and "NL \<notin> set t"
  shows "lines_of (concat (map (\<lambda>l. l @ [NL]) ls) @ t) = (if t = [] then ls else ls @ [t])"
  using assms(1)
proof (induction ls)
  case Nil
  have t: "takeWhile (\<lambda>c. c \<noteq> NL) t = t" "tl (dropWhile (\<lambda>c. c \<noteq> NL) t) = []"
    using assms(2) by (induction t) auto
  have "lines_of [] = []" by (subst lines_of.simps) simp
  then show ?case using t by (subst lines_of.simps) (simp only: t list.map concat.simps append_Nil if_P)
next
  case (Cons l ls)
  then show ?case by (simp add: lines_of_line)
qed

text \<open>
  the info text of an image is the last line of its file, whether or not that line ends with a newline, and
  the empty string when there is no file.
\<close>

theorem getInfo_last_line:
  assumes "list_all (\<lambda>l. NL \<notin> set l) ls" and "NL \<notin> set t" and "ls \<noteq> [] \<or> t \<noteq> []"
  shows "(text_files dk (''/demo/info/'' @ print_int (matchedImgIndex im) @ ''.txt'') =
       Some (concat (map (\<lambda>l. l @ [NL]) ls) @ t) \<longrightarrow>
     getInfo dk im = (if t = [] then last ls else t)) \<and>
     (text_files dk (''/demo/info/'' @ print_int (matchedImgIndex im) @ ''.txt'') = None \<longrightarrow>
     getInfo dk im = [])"
  using assms lines_of_unlines [OF assms(1,2)]
  by (auto simp: getInfo_def getInfo_index_def split: list.splits)

lemma getInfo_last_line_witness:
  "getInfo \<lparr>text_files = (\<lambda>_. Some (''Mona Lisa,Leonardo,1503'' @ [NL])), yml_files = \<lambda>_. None\<rparr> im
     = ''Mona Lisa,Leonardo,1503''"
  using getInfo_last_line [of "[''Mona Lisa,Leonardo,1503'']" "[]"
      "\<lparr>text_files = (\<lambda>_. Some (''Mona Lisa,Leonardo,1503'' @ [NL])), yml_files = \<lambda>_. None\<rparr>" im]
  by simp

end
