(* ===== verification/Bolt.thy ===== *)
theory Bolt
  imports ImgDBProps Results
begin

text \<open>
  The Storm bolt's side of the image matching: the functions the Java bolt calls through JNI
  (\<open>JniImageMatching.cpp\<close>) and the bolt's own \<open>calLocation\<close>, which returns a text instead of a
  vector. The conversion of Java strings and arrays is the identity on their bytes.
\<close>

subsection \<open>JNI\<close>

definition jni_initiate :: "string \<Rightarrow> string \<Rightarrow> string \<Rightarrow> 'd disk \<Rightarrow> 'd img_db \<Rightarrow> 'd img_db" where
  "jni_initiate indexImgTable_addr imgIndex_yml_addr info_database_addr dk db =
     init_matchImg_storm (cstr indexImgTable_addr) (cstr imgIndex_yml_addr) (cstr info_database_addr) dk db"

definition jni_matchingIndex ::
  "(bytes \<Rightarrow> 'img option) \<Rightarrow> (int \<Rightarrow> 'img \<Rightarrow> 'kp list \<times> 'd list) \<Rightarrow>
   ('d list option \<Rightarrow> 'd list \<Rightarrow> knn_row list) \<Rightarrow> bytes \<Rightarrow> int \<Rightarrow> 'd img_db \<Rightarrow> (string \<times> 'd img_db) res" where
  "jni_matchingIndex imdecode surf knnSearch img sz db =
     (let (matcher, db') = new_ImgMatch 0 db :: ('img, 'kp, 'd, unit) img_match \<times> 'd img_db
      in rbind (matchImg_storm imdecode surf knnSearch img sz db' matcher) (\<lambda>(ret, _). Inr (cstr ret, db')))"

subsection \<open>calLocation\<close>

definition no_location :: string where
  "no_location = ''0,0,0,0,0,0,0,0,''"

text \<open>\<open>shw\<close> is the output of a \<open>float\<close> to a stream.\<close>

fun location_text :: "('f \<Rightarrow> string) \<Rightarrow> 'f list \<Rightarrow> int list \<Rightarrow> string res" where
  "location_text shw loc [] = Inr []"
| "location_text shw loc (i # is') =
     rbind (vec_at loc i) (\<lambda>f. rbind (location_text shw loc is') (\<lambda>s. Inr (shw f @ '','' @ s)))"

definition calLocation_storm ::
  "(string \<Rightarrow> 'img option) \<Rightarrow> (int \<Rightarrow> 'img option \<Rightarrow> 'kp list \<times> 'd list) \<Rightarrow>
   ('d list \<Rightarrow> 'd list \<Rightarrow> DMatch list) \<Rightarrow> ('kp list \<Rightarrow> 'kp list \<Rightarrow> 'h) \<Rightarrow>
   ('img option \<Rightarrow> 'h \<Rightarrow> ('f \<times> 'f) list) \<Rightarrow> 'f float_ops \<Rightarrow> ('f \<Rightarrow> string) \<Rightarrow> 'd img_db \<Rightarrow>
   ('img, 'kp, 'd, 'f) img_match \<Rightarrow> (string \<times> ('img, 'kp, 'd, 'f) img_match) res" where
  "calLocation_storm imread surf match findHomography corners fo shw db im =
     (if matchedImgIndex im = 0 then Inr (no_location, im)
      else
        (let mimg = imread (''/demo/img/'' @ print_int (matchedImgIndex im) @ ''.jpg'');
             (kps, despDB) = surf (minHessian db) mimg;
             im1 = im\<lparr>keyPoints2 := kps\<rparr>;
             matches = match despDB (despSRC im)
         in if length matches < length despDB then Inl OverRead
            else
              (let good = good_matches (take (length despDB) matches)
               in if length good < 4 then Inr (no_location, im1)
                  else rbind (pair_points kps (keyPoints1 im) good) (\<lambda>(obj, scene).
                    (let kept = (if 8 \<le> length (matchedLocation im) then [] else matchedLocation im);
                         loc = kept @ location_of fo (corners mimg (findHomography obj scene))
                     in rbind (location_text shw loc [0, 1, 2, 3, 4, 5, 6, 7]) (\<lambda>s.
                          Inr (s, im1\<lparr>matchedLocation := loc\<rparr>)))))))"

lemma location_of_11:
  "length cs = 4 \<Longrightarrow> \<exists>a b c d e f g h r. location_of fo cs = [a, b, c, d, e, f, g, h] @ r"
  by (auto simp: location_of_def Let_def numeral_eq_Suc length_Suc_conv)

lemma location_text_8:
  "location_text shw ([a, b, c, d, e, f, g, h] @ r) [0, 1, 2, 3, 4, 5, 6, 7] =
     Inr (concat (map (\<lambda>x. shw x @ '','') [a, b, c, d, e, f, g, h]))"
  by (simp add: vec_at_def numeral_eq_Suc)

text \<open>
  on a fresh object the bolt's \<open>calLocation\<close> does the same as the server's, faults included, and returns as a
  text the eight coordinates the server returns as numbers, or eight zeros where it returns none.
\<close>

theorem bolt_location_same:
  fixes corners :: "'img option \<Rightarrow> 'h \<Rightarrow> ('f \<times> 'f) list"
  assumes "matchedLocation im = []" and "\<forall>i h. length (corners i h) = 4"
  shows "calLocation_storm imread surf match findH corners fo shw db im =
     rbind (calLocation imread surf match findH corners fo db im) (\<lambda>(loc, im').
       Inr (if loc = [] then no_location else concat (map (\<lambda>x. shw x @ '','') (take 8 loc)), im'))"
proof -
  have l: "\<exists>a b c d e f g h' r. location_of fo (corners i h) = [a, b, c, d, e, f, g, h'] @ r" for i h
    using location_of_11 [of "corners i h" fo] assms(2) by simp
  have t: "location_text shw (location_of fo (corners i h)) [0, 1, 2, 3, 4, 5, 6, 7] =
      Inr (concat (map (\<lambda>x. shw x @ '','') (take 8 (location_of fo (corners i h)))))"
    and n: "location_of fo (corners i h) \<noteq> []" for i h
    using l [of i h] location_text_8 [of shw] by auto
  show ?thesis
    unfolding calLocation_storm_def calLocation_def
    using assms(1) t n by (auto simp: Let_def rbind_def simp del: location_text.simps split: prod.splits sum.splits)
qed

lemma bolt_location_same_witness:
  "calLocation_storm (\<lambda>_. None) (\<lambda>_ _. ([], [])) (\<lambda>_ _. []) (\<lambda>_ _. ())
     (\<lambda>_ _. [(0, 0), (0, 0), (0, 0), (0, 0)]) undefined print_int init_statics
     (fst (new_ImgMatch 3 init_statics) :: (unit, unit, bool, int) img_match) =
   Inr (no_location, fst (new_ImgMatch 3 init_statics))"
proof -
  let ?im = "fst (new_ImgMatch 3 init_statics) :: (unit, unit, bool, int) img_match"
  have m: "matchedLocation ?im = []" by (simp add: new_ImgMatch_def)
  show ?thesis
    using bolt_location_same [OF m, of "\<lambda>_ _. [(0, 0), (0, 0), (0, 0), (0, 0)]" "\<lambda>_. None" "\<lambda>_ _. ([], [])"
        "\<lambda>_ _. []" "\<lambda>_ _. ()" undefined print_int init_statics]
    by (simp add: calLocation_def good_matches_def new_ImgMatch_def)
qed

end
