(* ===== verification/Pipeline.thy ===== *)
theory Pipeline
  imports ClientProps ImgMatchProps ResultProps Bolt
begin

text \<open>
  One picture through the whole system, in the order the threads run it: the server's
  transmit thread takes the upload and wakes the result thread (\<open>picture_queued\<close>). It hands the
  image to a child, which replies (\<open>serve_queued\<close>, after a TCP upload \<open>serve_picture\<close>), or waits for
  the datagram the Storm cluster sends for what the spout has received and replies itself
  (\<open>storm_picture\<close>). Either way the reply goes to the client's result thread.
\<close>

definition picture_queued ::
  "config \<Rightarrow> string \<Rightarrow> nat \<Rightarrow> nat \<Rightarrow> storm_env \<Rightarrow> string \<Rightarrow> bytes \<Rightarrow> 'd server \<Rightarrow> (nat \<times> 'd server) option res" where
  "picture_queued cfg user s a e name img st =
     rbind (transmit_image cfg a name img True e st) (\<lambda>(goes_on, st1).
       if \<not> goes_on then Inr None
       else rbind (transmit_signal user (Some s) st1) (\<lambda>r. case r of None \<Rightarrow> Inr None
       | Some (s', st2) \<Rightarrow>
           rbind (result_wait user s (Some a) st2) (\<lambda>r. case r of
             Some (ImageReady a', st3) \<Rightarrow> Inr (Some (a', st3))
           | _ \<Rightarrow> Inr None)))"

definition serve_queued ::
  "('img, 'kp, 'd) vision \<Rightarrow> config \<Rightarrow> string \<Rightarrow> int \<Rightarrow> nat \<Rightarrow> nat \<Rightarrow> (nat \<Rightarrow> char) \<Rightarrow>
   storm_env \<Rightarrow> string \<Rightarrow> bytes \<Rightarrow> 'd server \<Rightarrow> 'd server option res" where
  "serve_queued v cfg user sock s a stack e name img st =
     rbind (picture_queued cfg user s a e name img st) (\<lambda>r. case r of None \<Rightarrow> Inr None
     | Some (a', st1) \<Rightarrow>
         rbind (result_dispatch sock s a' st1) (\<lambda>r. case r of None \<Rightarrow> Inr None
         | Some st2 \<Rightarrow> rbind (result_child v cfg s True stack st2) (\<lambda>st3. Inr (Some st3))))"

definition serve_picture ::
  "('img, 'kp, 'd) vision \<Rightarrow> config \<Rightarrow> string \<Rightarrow> int \<Rightarrow> nat \<Rightarrow> nat \<Rightarrow> (nat \<Rightarrow> char) \<Rightarrow> (nat \<Rightarrow> char) \<Rightarrow>
   storm_env \<Rightarrow> bytes \<Rightarrow> recv_event list \<Rightarrow> 'd server \<Rightarrow> 'd server option res" where
  "serve_picture v cfg user sock s a heap stack e announcement es st =
     rbind (transmit_receive_tcp heap announcement es) (\<lambda>r. case r of None \<Rightarrow> Inr None
     | Some (name, img, rest) \<Rightarrow> serve_queued v cfg user sock s a stack e name img st)"

text \<open>\<open>cluster\<close> is the datagram the cluster answers to the messages of one connection to the spout.\<close>

definition storm_picture ::
  "config \<Rightarrow> (bytes list \<Rightarrow> bytes option) \<Rightarrow> string \<Rightarrow> int \<Rightarrow> nat \<Rightarrow> nat \<Rightarrow> (nat \<Rightarrow> char) \<Rightarrow> (nat \<Rightarrow> char) \<Rightarrow>
   storm_env \<Rightarrow> bytes \<Rightarrow> recv_event list \<Rightarrow> 'd server \<Rightarrow> 'd server option res" where
  "storm_picture cfg cluster user sock s a heap stack e announcement es st =
     rbind (transmit_receive_tcp heap announcement es) (\<lambda>r. case r of None \<Rightarrow> Inr None
     | Some (name, img, rest) \<Rightarrow>
         rbind (picture_queued cfg user s a e name img st) (\<lambda>r. case r of None \<Rightarrow> Inr None
         | Some (a', st1) \<Rightarrow>
             rbind (result_storm cfg sock a' (cluster (drop (length (sv_storm st)) (sv_storm st1))) True stack st1)
               (\<lambda>(goes_on, st2). Inr (if goes_on then Some st2 else None))))"

text \<open>
  The documented behaviour of the Java topology (\<open>StormMatch.java\<close>): the image the spout received goes to a
  bolt, which sends the text of \<open>matchingIndex\<close> back.
\<close>

definition cluster_runs_bolt ::
  "('img, 'kp, 'd) vision \<Rightarrow> 'd img_db \<Rightarrow> (bytes list \<Rightarrow> bytes option) \<Rightarrow> bool" where
  "cluster_runs_bolt v bdb cluster \<longleftrightarrow>
     (\<forall>size img ret bdb'. jni_matchingIndex (v_decode v) (v_surf v) (v_knn v) img (int (length img)) bdb = Inr (ret, bdb') \<longrightarrow>
        cluster [size, img] = Some ret)"

subsection \<open>The session takes a picture\<close>

lemma picture_ready:
  assumes "transmit_image cfg a name img True e st = Inr (True, st1)"
    and "queues st1 a = Some [name]" and "sems st1 s = Some 0"
  shows "picture_queued cfg user s a e name img st = Inr (Some (a, st1\<lparr>sems := (sems st1)(s \<mapsto> 0)\<rparr>))"
  using assms
  by (simp add: picture_queued_def transmit_signal_def sem_post_at_def result_wait_def sem_wait_at_def)

subsection \<open>The server matches itself\<close>

lemma matchImg_imread:
  "imread p = imread' p \<Longrightarrow> matchImg imread surf knn p db im = matchImg imread' surf knn p db im"
  by (simp add: matchImg_def)

lemma serve_queued_reply:
  assumes "length name < 60" and "\<not> storm cfg" and "queues st a = Some []" and "sems st s = Some 0"
    and "process_sem st = Suc k" and "in_int32 (request_submitted (sv_metrics st) + 1)"
    and "in_int32 (request_finished (sv_metrics st) + 1)"
    and "matchImg (\<lambda>_. v_decode v img) (v_surf v) (v_knn v) name (snd (new_ImgMatch 0 (sv_db st) :: ('img, 'kp, 'd, unit) img_match \<times> _))
           (fst (new_ImgMatch 0 (sv_db st)) :: ('img, 'kp, 'd, unit) img_match) = Inr im"
    and "result_reply (getMatchedImgIndex im) (getInfo (sv_disk st) im) stack = Inr msg"
  shows "\<exists>st'. serve_queued v cfg user sock s a stack e name img st = Inr (Some st') \<and>
     sv_out st' = sv_out st @ [(sock, msg)] \<and> process_sem st' = process_sem st \<and>
     queues st' a = Some [] \<and> sems st' s = Some 0 \<and>
     get_num_ongoing (sv_metrics st') = get_num_ongoing (sv_metrics st)"
proof -
  define m1 where "m1 = (sv_metrics st)\<lparr>request_submitted := request_submitted (sv_metrics st) + 1\<rparr>"
  have sub: "submit_request (sv_metrics st) = Inr m1"
    using assms(6) by (simp add: submit_request_def inc32_def m1_def)
  define m2 where "m2 = m1\<lparr>request_finished := request_finished m1 + 1\<rparr>"
  have fin: "finish_request m1 = Inr m2"
    using assms(7) by (simp add: finish_request_def inc32_def m1_def m2_def)
  define st1 where "st1 = st\<lparr>sv_metrics := m1, pics := (pics st)(name \<mapsto> img), queues := (queues st)(a \<mapsto> [name])\<rparr>"
  have 1: "transmit_image cfg a name img True e st = Inr (True, st1)"
    using sub assms(2,3) by (simp add: transmit_image_def push_image_def st1_def)
  define st3 where "st3 = st1\<lparr>sems := (sems st1)(s \<mapsto> 0)\<rparr>"
  have 3: "picture_queued cfg user s a e name img st = Inr (Some (a, st3))"
    unfolding st3_def using 1 assms(4) by (intro picture_ready) (simp_all add: st1_def)
  define st4 where "st4 = st3\<lparr>process_sem := k, queues := (queues st3)(a \<mapsto> []), slots := (slots st3)(s \<mapsto> (sock, name))\<rparr>"
  have 4: "result_dispatch sock s a st3 = Inr (Some st4)"
    using assms(1,5) by (simp add: result_dispatch_def pop_image_def st1_def st3_def st4_def)
  have r: "imread_pics v st4 name = v_decode v img"
    by (simp add: imread_pics_def st1_def st3_def st4_def)
  have db: "sv_db st4 = sv_db st" by (simp add: st1_def st3_def st4_def)
  have m: "matchImg (imread_pics v st4) (v_surf v) (v_knn v) name (snd (new_ImgMatch 0 (sv_db st4) :: ('img, 'kp, 'd, unit) img_match \<times> _))
      (fst (new_ImgMatch 0 (sv_db st4)) :: ('img, 'kp, 'd, unit) img_match) = Inr im"
    unfolding matchImg_imread [of "imread_pics v st4" name "\<lambda>_. v_decode v img", OF r] db by (rule assms(8))
  have d: "sv_disk st4 = sv_disk st" "slots st4 s = Some (sock, name)" "sv_metrics st4 = m1"
    by (simp_all add: st1_def st3_def st4_def)
  define st5 where "st5 = (reply sock msg st4)\<lparr>sv_db := snd (new_ImgMatch 0 (sv_db st4) :: ('img, 'kp, 'd, unit) img_match \<times> _),
    sv_metrics := m2, process_sem := Suc (process_sem st4)\<rparr>"
  have 5: "result_child v cfg s True stack st4 = Inr st5"
    using m d fin assms(9) by (simp add: result_child_def case_prod_beta st5_def)
  have out: "sv_out st5 = sv_out st @ [(sock, msg)]" "process_sem st5 = process_sem st"
    "queues st5 a = Some []" "sems st5 s = Some 0" "sv_metrics st5 = m2"
    using assms(5) by (simp_all add: st5_def reply_def st1_def st3_def st4_def)
  have "get_num_ongoing m2 = get_num_ongoing (sv_metrics st)"
    by (simp add: get_num_ongoing_def m1_def m2_def)
  with out show ?thesis
    using 3 4 5 by (simp add: serve_queued_def)
qed

lemma serve_picture_queued:
  "transmit_receive_tcp heap ann es = Inr (Some (name, img, [])) \<Longrightarrow>
     serve_picture v cfg user sock s a heap stack e ann es st = serve_queued v cfg user sock s a stack e name img st"
  by (simp add: serve_picture_def)

subsection \<open>Storm matches\<close>

lemma cstr_bolt_text [simp]: "cstr (print_int i @ '',0,0,0,0,0,0,0,0,'') = print_int i @ '',0,0,0,0,0,0,0,0,''"
  by (intro cstr_id) (use is_field_print_int [of i] in \<open>simp add: is_field_def\<close>)

lemma jni_answer:
  fixes decode :: "bytes \<Rightarrow> 'img option" and surf :: "int \<Rightarrow> 'img \<Rightarrow> 'kp list \<times> 'd list"
    and knn :: "'d list option \<Rightarrow> 'd list \<Rightarrow> knn_row list"
  assumes "decode img = Some pic" and "surf 1500 pic = (kps, desp)" and "desp \<noteq> []"
    and "tables_agree (index_IMG db) (dscCnt_IMG db)"
    and "rows_in_range (index_IMG db) (knn (flannIndex db) desp)"
  shows "jni_matchingIndex decode surf knn img (int (length img)) db =
     Inr (print_int (answer 50 1 (dscCnt_IMG db) (accepted (index_IMG db) (knn (flannIndex db) desp))) @
       '',0,0,0,0,0,0,0,0,'', db\<lparr>minHessian := 1500\<rparr>)"
proof -
  let ?db = "db\<lparr>minHessian := 1500\<rparr>"
  let ?im = "fst (new_ImgMatch 0 db) :: ('img, 'kp, 'd, unit) img_match"
  obtain im' where "matchImg_storm decode surf knn img (int (length img)) ?db ?im =
      Inr (print_int (getMatchedImgIndex im') @ '',0,0,0,0,0,0,0,0,'', im')"
    "getMatchedImgIndex im' = answer 50 1 (dscCnt_IMG ?db) (accepted (index_IMG ?db) (knn (flannIndex ?db) desp))"
    using matchImg_storm_answer [of "int (length img)" img decode pic surf ?db kps desp knn ?im] assms by auto
  then show ?thesis
    by (simp add: jni_matchingIndex_def new_ImgMatch_def Let_def)
qed

lemma local_answer:
  fixes v :: "('img, 'kp, 'd) vision"
  assumes "v_decode v img = Some pic" and "v_surf v 1500 pic = (kps, desp)" and "desp \<noteq> []"
    and "tables_agree (index_IMG bdb) (dscCnt_IMG bdb)"
    and "rows_in_range (index_IMG bdb) (v_knn v (flannIndex bdb) desp)"
    and "index_IMG db = index_IMG bdb" and "dscCnt_IMG db = dscCnt_IMG bdb" and "flannIndex db = flannIndex bdb"
    and "answer 50 1 (dscCnt_IMG bdb) (accepted (index_IMG bdb) (v_knn v (flannIndex bdb) desp)) \<noteq> 0"
  shows "\<exists>im :: ('img, 'kp, 'd, unit) img_match. matchImg (\<lambda>_. v_decode v img) (v_surf v) (v_knn v) path
       (snd (new_ImgMatch 0 db :: ('img, 'kp, 'd, unit) img_match \<times> _)) (fst (new_ImgMatch 0 db)) = Inr im \<and>
     getMatchedImgIndex im = answer 50 1 (dscCnt_IMG bdb) (accepted (index_IMG bdb) (v_knn v (flannIndex bdb) desp))"
  using matchImg_answer [of "\<lambda>_. v_decode v img" path pic "v_surf v" "db\<lparr>minHessian := 1500\<rparr>" kps desp "v_knn v"
      "fst (new_ImgMatch 0 db) :: ('img, 'kp, 'd, unit) img_match"] assms answer_02_015 [OF assms(9)]
  by (simp add: new_ImgMatch_def)

lemma answer_in_int32:
  assumes "tables_agree idx cnts" and "rows_in_range idx rows"
  shows "in_int32 (answer num den cnts (accepted idx rows))"
  using elected_index(3) [OF assms] by (simp add: answer_def in_int32_def)

lemma storm_picture_reply:
  assumes "transmit_receive_tcp heap ann es = Inr (Some (name, img, []))"
    and "storm cfg" and "\<not> use_kafka cfg" and "in_int32 (int (length img))"
    and "e_socket (s_spout e)" "e_host (s_spout e)" "e_write_size (s_spout e)" "e_read_reply (s_spout e)" "e_write_img (s_spout e)"
    and "queues st a = Some []" and "sems st s = Some 0"
    and "in_int32 (request_submitted (sv_metrics st) + 1)" and "in_int32 (request_finished (sv_metrics st) + 1)"
    and "\<And>size. cluster [size, img] = Some d"
    and "storm_reply d (getInfo_index (sv_disk st)) stack = Inr (idx, msg)"
  shows "\<exists>st'. storm_picture cfg cluster user sock s a heap stack e ann es st = Inr (Some st') \<and>
     sv_out st' = sv_out st @ [(sock, msg)] \<and> process_sem st' = process_sem st \<and>
     queues st' a = Some [] \<and> sems st' s = Some 0 \<and> pics st' = pics st \<and>
     get_num_ongoing (sv_metrics st') = get_num_ongoing (sv_metrics st)"
proof -
  define m1 where "m1 = (sv_metrics st)\<lparr>request_submitted := request_submitted (sv_metrics st) + 1\<rparr>"
  have sub: "submit_request (sv_metrics st) = Inr m1"
    using assms(12) by (simp add: submit_request_def inc32_def m1_def)
  define m2 where "m2 = m1\<lparr>request_finished := request_finished m1 + 1\<rparr>"
  have fin: "finish_request m1 = Inr m2"
    using assms(13) by (simp add: finish_request_def inc32_def m1_def m2_def)
  obtain size where sz: "spout_transfer (s_spout e) img (int (length img)) = Inr ([size, img], True)"
    using size_message_ok [OF assms(4)] assms(5-9) by (auto simp: spout_transfer_def read_at_def)
  define st1 where "st1 = st\<lparr>sv_metrics := m1, sv_storm := sv_storm st @ [size, img], queues := (queues st)(a \<mapsto> [name])\<rparr>"
  have 1: "transmit_image cfg a name img True e st = Inr (True, st1)"
    using sub sz assms(2,3,10) by (simp add: transmit_image_def transmit_pass_def push_image_def st1_def)
  define st3 where "st3 = st1\<lparr>sems := (sems st1)(s \<mapsto> 0)\<rparr>"
  have 3: "picture_queued cfg user s a e name img st = Inr (Some (a, st3))"
    unfolding st3_def using 1 assms(11) by (intro picture_ready) (simp_all add: st1_def)
  define st5 where "st5 = reply sock msg (st3\<lparr>queues := (queues st3)(a \<mapsto> []), sv_metrics := m2\<rparr>)"
  have "result_storm cfg sock a (cluster [size, img]) True stack st3 = Inr (True, st5)"
    using assms(14,15) fin by (simp add: result_storm_def pop_image_def st1_def st3_def st5_def)
  then have "storm_picture cfg cluster user sock s a heap stack e ann es st = Inr (Some st5)"
    using 3 assms(1) by (simp add: storm_picture_def st1_def st3_def)
  moreover have "get_num_ongoing m2 = get_num_ongoing (sv_metrics st)"
    by (simp add: get_num_ongoing_def m1_def m2_def)
  ultimately show ?thesis by (simp add: st5_def reply_def st1_def st3_def)
qed

subsection \<open>A concrete server and its libraries\<close>

definition demo_vision :: "(bytes, unit, bool) vision" where
  "demo_vision = \<lparr>v_decode = Some, v_surf = (\<lambda>_ _. ([()], [True])), v_knn = (\<lambda>_ _. [(1, Fin 4, Infty)])\<rparr>"

definition demo_server :: "bool server" where
  "demo_server =
     (init_server 5 (init_statics\<lparr>index_IMG := [1, 2], dscCnt_IMG := [1, 60]\<rparr>)
        \<lparr>text_files = (\<lambda>p. if p = ''/demo/info/2.txt'' then Some ''Mona Lisa,Leonardo,1503'' else None),
         yml_files = (\<lambda>_. None)\<rparr>)
       \<lparr>queue_map := [''u'' \<mapsto> 1], sem_map := [''u'' \<mapsto> 0], queues := [1 \<mapsto> []], sems := [0 \<mapsto> 0]\<rparr>"

definition demo_storm_env :: storm_env where
  "demo_storm_env = \<lparr>s_spout = \<lparr>e_socket = True, e_host = True, e_write_size = True, e_read_reply = True,
     e_write_img = True\<rparr>, s_produced = True, s_delivered = 0, s_events = []\<rparr>"

lemma demo_match:
  "\<exists>im :: (bytes, unit, bool, unit) img_match.
     matchImg (\<lambda>_. v_decode demo_vision ''jpg'') (v_surf demo_vision) (v_knn demo_vision) path
       (snd (new_ImgMatch 0 (sv_db demo_server) :: (bytes, unit, bool, unit) img_match \<times> _))
       (fst (new_ImgMatch 0 (sv_db demo_server))) = Inr im \<and>
     getMatchedImgIndex im = 2 \<and>
     getInfo (sv_disk demo_server) im = ''Mona Lisa'' @ '','' @ ''Leonardo'' @ '','' @ ''1503''"
proof -
  define im where "im = (fst (new_ImgMatch 0 (sv_db demo_server)) :: (bytes, unit, bool, unit) img_match)
    \<lparr>srcImg := Some ''jpg'', matchedImgIndex := 2, keyPoints1 := [()], despSRC := [True]\<rparr>"
  have m: "matchImg (\<lambda>_. v_decode demo_vision ''jpg'') (v_surf demo_vision) (v_knn demo_vision) path
      (snd (new_ImgMatch 0 (sv_db demo_server) :: (bytes, unit, bool, unit) img_match \<times> _))
      (fst (new_ImgMatch 0 (sv_db demo_server))) = Inr im"
    by (simp add: im_def matchImg_def demo_vision_def new_ImgMatch_def demo_server_def init_server_def
        ratio_ok_def vec_at_def add_vote_def max_freq_def pick_image_def in_int32_def below_015_exact)
  have p: "print_int 2 = ''2''" by code_simp
  have i: "getInfo (sv_disk demo_server) im = ''Mona Lisa'' @ '','' @ ''Leonardo'' @ '','' @ ''1503''"
    using lines_of_unlines [of "[]" "''Mona Lisa,Leonardo,1503''"]
    by (simp add: getInfo_def getInfo_index_def im_def p demo_server_def init_server_def)
  have x: "getMatchedImgIndex im = 2" by (simp add: im_def getMatchedImgIndex_def)
  show ?thesis using m x i by (intro exI [of _ im]) simp
qed

end
