(* ===== verification/MsgStream.thy ===== *)
theory MsgStream
  imports MsgProps
begin

text \<open>
  A sequence of messages over one socket of the message distributor, from the sender's \<open>send\<close> over
  the frames of the network to the receiver's \<open>listen\<close> and \<open>recv\<close>.
\<close>

subsection \<open>The loops\<close>

fun send_all :: "int \<Rightarrow> (nat \<Rightarrow> char) \<Rightarrow> bytes list \<Rightarrow> msgd \<Rightarrow> bytes list res" where
  "send_all sid stack [] s = Inr []"
| "send_all sid stack (p # ps) s =
     rbind (send sid p (int (length p)) stack 0 s) (\<lambda>(fs, ret).
       rbind (send_all sid stack ps s) (\<lambda>gs. Inr (fs @ gs)))"

fun hear_all :: "(nat \<Rightarrow> char) \<Rightarrow> bytes list \<Rightarrow> msgd \<Rightarrow> msgd res" where
  "hear_all stack [] t = Inr t"
| "hear_all stack (f # fs) t = rbind (listen stack (Some f) t) (\<lambda>(t', ret). hear_all stack fs t')"

text \<open>
  One \<open>recv\<close> into a cleared buffer of \<open>n\<close> bytes (\<open>None\<close>: it fails, or blocks because the
  semaphore is at 0), and one for each of several sizes.
\<close>

definition recv_one :: "int \<Rightarrow> (nat \<Rightarrow> char) \<Rightarrow> nat \<Rightarrow> msgd \<Rightarrow> (bytes \<times> msgd) option res" where
  "recv_one sid heap n t =
     (case recv_enter sid t of
        Inl r \<Rightarrow> Inr None
      | Inr a \<Rightarrow>
          if sem_heap t a = Some 0 then Inr None
          else rbind (recv_wake sid a (zeros n) n heap t) (\<lambda>(t', buffer, r).
            Inr (if r \<le> 0 then None else Some (buffer, t'))))"

fun recv_all :: "int \<Rightarrow> (nat \<Rightarrow> char) \<Rightarrow> nat list \<Rightarrow> msgd \<Rightarrow> (bytes list \<times> msgd) option res" where
  "recv_all sid heap [] t = Inr (Some ([], t))"
| "recv_all sid heap (n # ns) t =
     rbind (recv_one sid heap n t) (\<lambda>r. case r of
       None \<Rightarrow> Inr None
     | Some (b, t') \<Rightarrow> rbind (recv_all sid heap ns t') (\<lambda>r. Inr (map_option (\<lambda>(bs, t''). (b # bs, t'')) r)))"

text \<open>Messages of one side, received by the other with one \<open>recv\<close> each.\<close>

definition carry ::
  "int \<Rightarrow> (nat \<Rightarrow> char) \<Rightarrow> (nat \<Rightarrow> char) \<Rightarrow> bytes list \<Rightarrow> nat list \<Rightarrow> msgd \<Rightarrow> msgd \<Rightarrow>
   (bytes list \<times> msgd) option res" where
  "carry sid stack heap ps ns s t =
     rbind (send_all sid stack ps s) (\<lambda>frames.
       rbind (hear_all stack frames t) (\<lambda>t'. recv_all sid heap ns t'))"

subsection \<open>What they deliver\<close>

definition open_sock :: "int \<Rightarrow> msgd \<Rightarrow> bool" where
  "open_sock sid s \<longleftrightarrow> sock_inv sid s \<and> mfsockid s \<noteq> -1 \<and> stop s = 0 \<and> 0 \<le> sid \<and> sid < 10 ^ 9"

definition sendable :: "bytes \<Rightarrow> bool" where
  "sendable p \<longleftrightarrow> p \<noteq> [] \<and> length p \<le> 40000"

text \<open>From \<open>t\<close> to \<open>t'\<close> at most the queue of socket \<open>sid\<close> has changed; it holds \<open>ps\<close> now.\<close>

definition queue_now :: "int \<Rightarrow> msgd \<Rightarrow> bytes list \<Rightarrow> msgd \<Rightarrow> bool" where
  "queue_now sid t ps t' \<longleftrightarrow> messages sid t' = ps \<and> (\<forall>j. open_sock j t \<longrightarrow> open_sock j t') \<and>
     (\<forall>j. j \<noteq> sid \<longrightarrow> messages j t' = messages j t)"

lemma queue_now_refl: "messages sid t = ps \<Longrightarrow> queue_now sid t ps t"
  by (simp add: queue_now_def)

lemma queue_now_trans: "queue_now sid t ps t1 \<Longrightarrow> queue_now sid t1 qs t2 \<Longrightarrow> queue_now sid t qs t2"
  by (simp add: queue_now_def)

lemma queue_nowD:
  assumes "queue_now sid t ps t'"
  shows "messages sid t' = ps" and "open_sock j t \<Longrightarrow> open_sock j t'" and "j \<noteq> sid \<Longrightarrow> messages j t' = messages j t"
  using assms by (simp_all add: queue_now_def)

lemma queue_now_set:
  assumes "msgd_inv t" and "conn t sid a q"
  shows "queue_now sid t ps (t\<lparr>queue_heap := (queue_heap t)(q \<mapsto> ps), sem_heap := (sem_heap t)(a \<mapsto> length ps)\<rparr>)"
    (is "queue_now _ _ _ ?t")
proof -
  have "sock_inv sid ?t" "messages sid ?t = ps" using set_queue_sock [OF assms refl, of ps] by simp_all
  then show ?thesis
    using messages_other [OF assms] by (simp add: queue_now_def open_sock_def sock_inv_def)
qed

lemma send_one_frame:
  assumes "open_sock sid s" and "sendable p"
  shows "send sid p (int (length p)) stack 0 s = Inr ([sock_frame sid p], 0)"
proof -
  have "1 \<le> int (length p)" using assms(2) by (cases p) (simp_all add: sendable_def)
  moreover have "sem_map s sid \<noteq> None" using assms(1) by (simp add: open_sock_def sock_inv_def)
  ultimately show ?thesis
    using send_frame [of s sid "int (length p)" p 0 stack] assms(1) by (simp add: open_sock_def)
qed

lemma send_all_frames:
  "open_sock sid s \<Longrightarrow> list_all sendable ps \<Longrightarrow> send_all sid stack ps s = Inr (map (sock_frame sid) ps)"
  by (induction ps) (simp_all add: send_one_frame)

lemma hear_one:
  assumes "open_sock sid t" and "sendable p"
  shows "\<exists>t'. listen stack (Some (sock_frame sid p)) t = Inr (t', 0) \<and> queue_now sid t (messages sid t @ [p]) t'"
proof -
  have o: "sock_inv sid t" "mfsockid t \<noteq> -1" "stop t = 0" "0 \<le> sid" "sid < 10 ^ 9"
    using assms(1) by (simp_all add: open_sock_def)
  obtain a q cs where c: "msgd_inv t" "conn t sid a q" "queue_heap t q = Some cs" "messages sid t = cs"
    using o(1) by (rule sock_invE)
  have "length (dec_nat (nat sid)) \<le> 9" using o(4,5) by (intro length_dec_nat_le) (simp_all add: nat_less_iff)
  then have "length (sock_frame sid p) \<le> MAX_CHUNK"
    using assms(2) o(4) by (simp add: length_sock_frame sendable_def MAX_CHUNK_def)
  from listen_sock_frame [OF o(2,4,5) this, of stack] push_message_ok [OF c(1-3), of p] c(2)
  have "listen stack (Some (sock_frame sid p)) t =
      Inr (t\<lparr>queue_heap := (queue_heap t)(q \<mapsto> cs @ [p]), sem_heap := (sem_heap t)(a \<mapsto> length (cs @ [p]))\<rparr>, 0)"
    by (simp add: conn_def)
  with queue_now_set [OF c(1,2), of "cs @ [p]"] c(4) show ?thesis by blast
qed

lemma hear_all_messages:
  "open_sock sid t \<Longrightarrow> list_all sendable ps \<Longrightarrow>
     \<exists>t'. hear_all stack (map (sock_frame sid) ps) t = Inr t' \<and> queue_now sid t (messages sid t @ ps) t'"
proof (induction ps arbitrary: t)
  case (Cons p ps)
  then obtain t1 where t1: "listen stack (Some (sock_frame sid p)) t = Inr (t1, 0)"
    "queue_now sid t (messages sid t @ [p]) t1"
    using hear_one [of sid t p stack] by auto
  from Cons.IH [of t1] Cons.prems queue_nowD [OF t1(2)] obtain t2 where
    "hear_all stack (map (sock_frame sid) ps) t1 = Inr t2" "queue_now sid t1 (messages sid t @ p # ps) t2" by auto
  with t1 queue_now_trans [OF t1(2)] show ?case by auto
qed (simp add: queue_now_refl)

lemma recv_one_takes:
  assumes "open_sock sid t" and "messages sid t = p # ps"
  shows "\<exists>t'. recv_one sid heap n t = Inr (Some (copy_message p n heap, t')) \<and> queue_now sid t ps t'"
proof -
  have o: "sock_inv sid t" "mfsockid t \<noteq> -1" "stop t = 0" using assms(1) by (simp_all add: open_sock_def)
  obtain a q cs where c: "msgd_inv t" "conn t sid a q" "queue_heap t q = Some cs" "messages sid t = cs"
    using o(1) by (rule sock_invE)
  have cs: "cs = p # ps" using c(4) assms(2) by simp
  have sem: "sem_heap t a = Some (Suc (length ps))" using msgd_invD(4) [OF c(1,2)] c(3) cs by (simp add: sock_ok_def)
  show ?thesis
    using recv_wake_registered [OF c(1,2) _ o(3), of p ps n "zeros n" heap] c(2,3) cs sem o(2)
      queue_now_set [OF c(1,2), of ps]
    by (simp add: recv_one_def recv_enter_def conn_def)
qed

lemma recv_all_takes:
  "open_sock sid t \<Longrightarrow> messages sid t = ps \<Longrightarrow> length ns = length ps \<Longrightarrow>
     \<exists>t'. recv_all sid heap ns t = Inr (Some (map2 (\<lambda>p n. copy_message p n heap) ps ns, t')) \<and> queue_now sid t [] t'"
proof (induction ps arbitrary: ns t)
  case (Cons p ps)
  then obtain n ns' where ns: "ns = n # ns'" "length ns' = length ps" by (cases ns) auto
  from recv_one_takes [OF Cons.prems(1,2), of heap n] obtain t1 where
    t1: "recv_one sid heap n t = Inr (Some (copy_message p n heap, t1))" "queue_now sid t ps t1" by auto
  from Cons.IH [of t1 ns'] ns(2) Cons.prems(1) queue_nowD [OF t1(2)] obtain t2 where
    "recv_all sid heap ns' t1 = Inr (Some (map2 (\<lambda>p n. copy_message p n heap) ps ns', t2))" "queue_now sid t1 [] t2" by auto
  with t1(1) ns(1) queue_now_trans [OF t1(2)] show ?case by auto
qed (simp add: queue_now_refl)

lemma copy_message_exact [simp]: "length p = n \<Longrightarrow> copy_message p n heap = p"
  by (auto simp: copy_message_def)

text \<open>
  Every message arrives, in order, cut or lengthened to the size of its \<open>recv\<close>; no other socket of the
  receiver notices.
\<close>

lemma carry_delivers:
  assumes "open_sock sid s" and "open_sock sid t" and "messages sid t = []" and "list_all sendable ps"
    and "length ns = length ps"
  shows "\<exists>t'. carry sid stack heap ps ns s t = Inr (Some (map2 (\<lambda>p n. copy_message p n heap) ps ns, t')) \<and>
     queue_now sid t [] t'"
proof -
  from hear_all_messages [OF assms(2,4), of stack] assms(3) obtain t1 where
    t1: "hear_all stack (map (sock_frame sid) ps) t = Inr t1" "queue_now sid t ps t1" by auto
  have "open_sock sid t1" "messages sid t1 = ps" using queue_nowD [OF t1(2)] assms(2) by simp_all
  from recv_all_takes [OF this assms(5), of heap] obtain t2 where
    "recv_all sid heap ns t1 = Inr (Some (map2 (\<lambda>p n. copy_message p n heap) ps ns, t2))" "queue_now sid t1 [] t2"
    by blast
  with t1 send_all_frames [OF assms(1,4), of stack] queue_now_trans [OF t1(2)] show ?thesis
    by (auto simp: carry_def)
qed

text \<open>Messages received with their own size arrive unchanged.\<close>

lemma carry_exact:
  assumes "open_sock sid s" and "open_sock sid t" and "messages sid t = []" and "list_all sendable ps"
    and "map length ps = ns"
  shows "\<exists>t'. carry sid stack heap ps ns s t = Inr (Some (ps, t')) \<and> queue_now sid t [] t'"
proof -
  have "map2 (\<lambda>p n. copy_message p n heap) ps ns = ps"
    unfolding assms(5) [symmetric] by (induction ps) simp_all
  with carry_delivers [OF assms(1-4), of ns stack heap] assms(5) show ?thesis by auto
qed

end
