(* ===== verification/OrbitPipeline.thy ===== *)
theory OrbitPipeline
  imports Pipeline MsgStream
begin

text \<open>
  One picture over the MobilityFirst network. In orbit mode it goes through the message distributors
  of both programs: the client's \<open>transmit_child\<close> announces it, waits for the server's answer and sends the
  padded blocks; the server's transmit thread collects them with \<open>recv\<close>; the reply goes back over the
  socket of the client's result thread. In new orbit mode (\<open>mf\<close>) the packagers of both programs exchange
  one message each way.
\<close>

text \<open>
  The upload: 100 bytes of announcement, three bytes \<open>ok\<close> in the other direction, of which the client copies
  10, then as many \<open>recv\<close> of 4096 bytes as there are blocks. \<open>None\<close> when a side waits forever, a
  \<open>recv\<close> fails, or the size that was announced asks for another number of blocks.
\<close>

definition orbit_upload ::
  "int \<Rightarrow> (nat \<Rightarrow> char) \<Rightarrow> (nat \<Rightarrow> char) \<Rightarrow> bytes \<Rightarrow> bytes list \<Rightarrow> msgd \<Rightarrow> msgd \<Rightarrow>
   (string \<times> bytes \<times> msgd \<times> msgd) option res" where
  "orbit_upload sock stack heap ann bs cd sd =
     rbind (carry sock stack heap [ann] [100] cd sd) (\<lambda>r. case r of None \<Rightarrow> Inr None
     | Some (header, sd1) \<Rightarrow>
         rbind (carry sock stack heap [ok_msg] [10] sd1 cd) (\<lambda>r. case r of None \<Rightarrow> Inr None
         | Some (_, cd1) \<Rightarrow>
             rbind (carry sock stack heap bs (replicate (length bs) 4096) cd1 sd1) (\<lambda>r. case r of None \<Rightarrow> Inr None
             | Some (chunks, sd2) \<Rightarrow>
                 rbind (transmit_receive_orbit heap (hd header) (map Chunk chunks)) (\<lambda>r.
                   Inr (case r of Some (name, img, 0, []) \<Rightarrow> Some (name, img, cd1, sd2) | _ \<Rightarrow> None)))))"

text \<open>
  The round trip, up to the client's 1024-byte buffer: \<open>tsock\<close> is the socket of the transmit threads,
  \<open>rsock\<close> that of the result threads.
\<close>

definition orbit_picture ::
  "('img, 'kp, 'd) vision \<Rightarrow> config \<Rightarrow> string \<Rightarrow> int \<Rightarrow> int \<Rightarrow> nat \<Rightarrow> nat \<Rightarrow> (nat \<Rightarrow> char) \<Rightarrow> (nat \<Rightarrow> char) \<Rightarrow>
   storm_env \<Rightarrow> bytes \<Rightarrow> bytes list \<Rightarrow> msgd \<Rightarrow> msgd \<Rightarrow> 'd server \<Rightarrow> (bytes list \<times> msgd \<times> msgd \<times> 'd server) option res" where
  "orbit_picture v cfg user tsock rsock s a stack heap e ann bs cd sd st =
     rbind (orbit_upload tsock stack heap ann bs cd sd) (\<lambda>r. case r of None \<Rightarrow> Inr None
     | Some (name, img, cd1, sd1) \<Rightarrow>
         rbind (serve_queued v cfg user rsock s a stack e name img st) (\<lambda>r. case r of None \<Rightarrow> Inr None
         | Some st' \<Rightarrow>
             rbind (carry rsock stack heap (map snd (drop (length (sv_out st)) (sv_out st'))) [1024] sd1 cd1) (\<lambda>r.
               Inr (map_option (\<lambda>(shown, cd2). (shown, cd2, sd1, st')) r))))"

subsection \<open>The upload over the distributors\<close>

lemma orbit_send_blocks: "orbit_send img = map Chunk (map pad_block (file_blocks 4096 img))"
  by (simp add: orbit_send_def)

lemma length_pad_block: "length b \<le> 4096 \<Longrightarrow> length (pad_block b) = 4096"
  by (simp add: pad_block_def)

lemma announce_orbit_length: "announce_orbit spt f k n stack = Inr b \<Longrightarrow> length b = 100"
  by (auto simp: announce_orbit_def rbind_eq_Inr read_at_def split: if_splits)

lemma orbit_upload_sent:
  assumes "cl_orbit c" and "\<not> cl_tcp c" and "is_field file_name" and "length file_name < 60"
    and "in_int32 (cl_fake_id c)" and "cl_size_per_time c = 1 \<or> in_int32 (cl_fake_id c + 1)"
    and "env_ok img ce" and "img \<noteq> []" and "in_int32 (int (length img))"
  shows "\<exists>ann c'. transmit_one file_name ce c = Inr (OrbitUpload ann (orbit_send img), c') \<and> length ann = 100 \<and>
     transmit_receive_orbit heap ann (orbit_send img) = Inr (Some (upload_name file_name c, img, 0, []))"
proof -
  from transmit_one_taken [OF disjI2 [OF assms(1)] assms(3-9), of heap] obtain u c' where
    u: "transmit_one file_name ce c = Inr (u, c')" "server_takes heap u = Some (upload_name file_name c, img)" by blast
  from u(1) assms(1,2,7) obtain ann where a: "u = OrbitUpload ann (orbit_send img)" "length ann = 100"
    by (auto simp: transmit_one_def env_ok_def take_all_blocks rbind_eq_Inr dest!: announce_orbit_length split: if_splits)
  with u(2) have "transmit_receive_orbit heap ann (orbit_send img) = Inr (Some (upload_name file_name c, img, 0, []))"
    by (auto split: sum.splits option.splits prod.splits list.splits nat.splits)
  with u(1) a show ?thesis by blast
qed

lemma orbit_upload_received:
  assumes "open_sock sock cd" and "open_sock sock sd" and "messages sock cd = []" and "messages sock sd = []"
    and "length ann = 100" and "transmit_receive_orbit heap ann (orbit_send img) = Inr (Some (name, img, 0, []))"
  shows "\<exists>cd' sd'. orbit_upload sock stack heap ann (map pad_block (file_blocks 4096 img)) cd sd =
       Inr (Some (name, img, cd', sd')) \<and>
     queue_now sock cd [] cd' \<and> queue_now sock sd [] sd'"
proof -
  let ?bs = "map pad_block (file_blocks 4096 img)"
  have "list_all sendable [ann]" using assms(5) by (auto simp: sendable_def)
  from carry_exact [OF assms(1,2,4) this, of "[100]" stack heap] assms(5) obtain sd1 where
    1: "carry sock stack heap [ann] [100] cd sd = Inr (Some ([ann], sd1))" "queue_now sock sd [] sd1" by auto
  have o1: "open_sock sock sd1" "messages sock sd1 = []" using queue_nowD [OF 1(2)] assms(2) by simp_all
  have "list_all sendable [ok_msg]" by (simp add: sendable_def)
  from carry_delivers [OF o1(1) assms(1,3) this, of "[10]" stack heap] obtain m cd1 where
    2: "carry sock stack heap [ok_msg] [10] sd1 cd = Inr (Some (m, cd1))" "queue_now sock cd [] cd1" by auto
  have o2: "open_sock sock cd1" using queue_nowD [OF 2(2)] assms(1) by simp
  have l: "length b = 4096" if "b \<in> set ?bs" for b
    using that file_blocks_bounds [of _ 4096 img] by (auto intro!: length_pad_block)
  then have "list_all sendable ?bs" by (fastforce simp: list_all_iff sendable_def)
  moreover have "map length ?bs = replicate (length ?bs) 4096"
    by (rule replicate_eqI) (use l in auto)
  ultimately obtain sd2 where
    3: "carry sock stack heap ?bs (replicate (length ?bs) 4096) cd1 sd1 = Inr (Some (?bs, sd2))" "queue_now sock sd1 [] sd2"
    using carry_exact [OF o2 o1, of ?bs _ stack heap] by blast
  have "orbit_upload sock stack heap ann ?bs cd sd = Inr (Some (name, img, cd1, sd2))"
    using 1(1) 2(1) 3(1) assms(6) by (simp add: orbit_upload_def orbit_send_blocks)
  with 2(2) queue_now_trans [OF 1(2) 3(2)] show ?thesis by blast
qed

lemma reply_carried:
  assumes "open_sock sock sd" and "open_sock sock cd" and "messages sock cd = []" and "length msg = 200"
  shows "\<exists>cd'. carry sock stack heap [msg] [1024] sd cd = Inr (Some ([copy_message msg 1024 heap], cd')) \<and>
     queue_now sock cd [] cd' \<and>
     fill (copy_message msg 1024 heap) (zeros 1024) = msg @ take 824 (stack_array 1024 heap)"
proof -
  have "list_all sendable [msg]" using assms(4) by (auto simp: sendable_def)
  from carry_delivers [OF assms(1-3) this, of "[1024]" stack heap] show ?thesis
    using assms(4) by (auto simp: fill_def copy_message_def)
qed

subsection \<open>The round trip\<close>

text \<open>
  C10: a photograph sent by an orbit client to a server whose session of that user is idle, when both distributors have
  both sockets open and empty: the announcement, the answer, all blocks and the reply go through the
  distributors, the server takes exactly the file and answers once, the client's result thread
  shows the fields of the info text and the index although its \<open>recv\<close> copies 824 bytes from behind
  the reply, and all four queues are empty again.
\<close>

theorem orbit_photograph_to_display:
  fixes v :: "('img, 'kp, 'd) vision" and im :: "('img, 'kp, 'd, unit) img_match"
  assumes "cl_orbit c" and "\<not> cl_tcp c" and "cl_size_per_time c = 1" and "is_field file_name" and "length file_name < 60"
    and "in_int32 (cl_fake_id c)" and "env_ok img ce" and "img \<noteq> []" and "in_int32 (int (length img))"
    and "\<forall>k \<in> {tsock, rsock}. open_sock k cd \<and> open_sock k sd \<and> messages k cd = [] \<and> messages k sd = []"
    and "tsock \<noteq> rsock" and "orbit cfg" and "\<not> storm cfg" and "queues st a = Some []" and "sems st s = Some 0"
    and "process_sem st = Suc k" and "in_int32 (request_submitted (sv_metrics st) + 1)"
    and "in_int32 (request_finished (sv_metrics st) + 1)"
    and "matchImg (\<lambda>_. v_decode v img) (v_surf v) (v_knn v) file_name (snd (new_ImgMatch 0 (sv_db st) :: ('img, 'kp, 'd, unit) img_match \<times> _))
           (fst (new_ImgMatch 0 (sv_db st))) = Inr im"
    and "getMatchedImgIndex im = idx" and "idx \<noteq> 0"
    and "getInfo (sv_disk st) im = title @ '','' @ artist @ '','' @ date"
    and "list_all is_field [title, artist, date]"
    and "length title + length artist + length date + length (print_int idx) < 180"
    and "rl_counter rl = 1"
  shows "\<exists>ann bs c' shown cd' sd' st' msg rl'. transmit_one file_name ce c = Inr (OrbitUpload ann (map Chunk bs), c') \<and>
     orbit_picture v cfg user tsock rsock s a stack heap e ann bs cd sd st = Inr (Some ([shown], cd', sd', st')) \<and>
     sv_out st' = sv_out st @ [(rsock, msg)] \<and> queues st' a = Some [] \<and> sems st' s = Some 0 \<and>
     process_sem st' = process_sem st \<and>
     (\<forall>j \<in> {tsock, rsock}. messages j cd' = [] \<and> messages j sd' = []) \<and>
     result_step 1 consume 1 shown rl = Inr rl' \<and> result_title (rl_ui rl') = ''Title: '' @ title \<and>
     result_artist (rl_ui rl') = ''Artist: '' @ artist \<and> result_date (rl_ui rl') = ''Date: '' @ date \<and>
     matchIndex (rl_ui rl') = print_int idx"
proof -
  let ?bs = "map pad_block (file_blocks 4096 img)"
  have f: "upload_name file_name c = file_name" using assms(3) by (simp add: upload_name_def announce_name_def)
  from orbit_upload_sent [OF assms(1,2,4-6) disjI1 [OF assms(3)] assms(7-9), of heap, unfolded f] obtain ann c' where
    u: "transmit_one file_name ce c = Inr (OrbitUpload ann (orbit_send img), c')" "length ann = 100"
    and rx: "transmit_receive_orbit heap ann (orbit_send img) = Inr (Some (file_name, img, 0, []))" by blast
  have o: "open_sock tsock cd" "open_sock tsock sd" "messages tsock cd = []" "messages tsock sd = []"
    "open_sock rsock cd" "open_sock rsock sd" "messages rsock cd = []" "messages rsock sd = []"
    using assms(10) by simp_all
  from orbit_upload_received [OF o(1-4) u(2) rx, of stack] obtain cd1 sd1 where
    up: "orbit_upload tsock stack heap ann ?bs cd sd = Inr (Some (file_name, img, cd1, sd1))"
    and q: "queue_now tsock cd [] cd1" "queue_now tsock sd [] sd1" by blast
  from reply_shown_any [OF assms(23,21,24), of stack "rl_ui rl"] obtain msg where
    r: "result_reply idx (title @ '','' @ artist @ '','' @ date) stack = Inr msg" and lm: "length msg = 200"
    and ui: "\<And>rest. show_result (msg @ rest) (rl_ui rl) = Inr (painting_ui title artist date idx (rl_ui rl))" by blast
  have "result_reply (getMatchedImgIndex im) (getInfo (sv_disk st) im) stack = Inr msg"
    using r by (simp only: assms(20,22))
  from serve_queued_reply [OF assms(5,13-19) this, of user rsock e] obtain st' where
    st': "serve_queued v cfg user rsock s a stack e file_name img st = Inr (Some st')"
      "sv_out st' = sv_out st @ [(rsock, msg)]" "process_sem st' = process_sem st" "queues st' a = Some []"
      "sems st' s = Some 0" by blast
  have oc: "open_sock rsock sd1" "open_sock rsock cd1" "messages rsock cd1 = []"
    using queue_nowD(2) [OF q(2) o(6)] queue_nowD(2) [OF q(1) o(5)] queue_nowD(3) [OF q(1), of rsock] assms(11) o(7) by simp_all
  from reply_carried [OF oc lm, of stack heap] obtain cd2 where
    ret: "carry rsock stack heap [msg] [1024] sd1 cd1 = Inr (Some ([copy_message msg 1024 heap], cd2))"
    and q2: "queue_now rsock cd1 [] cd2"
    and shown: "fill (copy_message msg 1024 heap) (zeros 1024) = msg @ take 824 (stack_array 1024 heap)" by blast
  have pic: "orbit_picture v cfg user tsock rsock s a stack heap e ann ?bs cd sd st =
      Inr (Some ([copy_message msg 1024 heap], cd2, sd1, st'))"
    using up st'(1,2) ret by (simp add: orbit_picture_def)
  have empty: "\<forall>j \<in> {tsock, rsock}. messages j cd2 = [] \<and> messages j sd1 = []"
    using queue_nowD(1) [OF q(1)] queue_nowD(1) [OF q(2)] queue_nowD(3) [OF q(2), of rsock] queue_nowD(1) [OF q2]
      queue_nowD(3) [OF q2, of tsock] assms(11) o(8) by simp
  from buffer_displayed [OF assms(25) zero_less_one shown [THEN arg_cong [of _ _ "\<lambda>b. show_result b (rl_ui rl)"], unfolded ui]]
  obtain rl' where rl': "result_step 1 consume 1 (copy_message msg 1024 heap) rl = Inr rl'"
    "rl_ui rl' = painting_ui title artist date idx (rl_ui rl)" by blast
  show ?thesis using u(1) [unfolded orbit_send_blocks] pic empty st'(2-5) rl'
    by (intro exI [of _ ann] exI [of _ ?bs] exI [of _ c'] exI [of _ "copy_message msg 1024 heap"] exI [of _ cd2]
        exI [of _ sd1] exI [of _ st'] exI [of _ msg] exI [of _ rl']) simp
qed

subsection \<open>New orbit\<close>

text \<open>
  The messages of one upload, received by the server's transmit thread, which names the file itself; the
  reply goes back through the packagers into the cleared 1024-byte buffer of the client's result
  thread. The result is that buffer, what \<open>recvResult\<close> returned, and the server's next file number.
\<close>

definition mf_picture ::
  "('img, 'kp, 'd) vision \<Rightarrow> config \<Rightarrow> int \<Rightarrow> nat \<Rightarrow> nat \<Rightarrow> (nat \<Rightarrow> char) \<Rightarrow> (nat \<Rightarrow> char) \<Rightarrow> storm_env \<Rightarrow>
   bytes list \<Rightarrow> 'd server \<Rightarrow> (bytes \<times> int \<times> int \<times> 'd server) option res" where
  "mf_picture v cfg fake_index s a stack heap e ms st =
     rbind (transmit_receive_mf heap stack fake_index (map Some ms)) (\<lambda>r. case r of None \<Rightarrow> Inr None
     | Some (name, fake_index', img, _) \<Rightarrow>
         rbind (serve_queued v cfg ''mf'' 0 s a stack e name img st) (\<lambda>r. case r of None \<Rightarrow> Inr None
         | Some st' \<Rightarrow>
             (case drop (length (sv_out st)) (sv_out st') of
                [(sock, msg)] \<Rightarrow>
                  rbind (sendResult msg (int (length msg)) 0) (\<lambda>(sent, ret).
                    (let (buffer, n) = recvResult (case sent of [] \<Rightarrow> None | m # _ \<Rightarrow> Some m) (zeros 1024)
                     in Inr (Some (buffer, n, fake_index', st'))))
              | _ \<Rightarrow> Inr None)))"

lemma mf_upload_sent:
  assumes "cl_mf c" and "\<not> cl_tcp c" and "\<not> cl_orbit c" and "env_ok img ce" and "length img \<le> 649990"
  shows "\<exists>ms. transmit_one file_name ce c = Inr (MfUpload ms, c) \<and>
     transmit_receive_mf heap stack k (map Some ms) = Inr (Some (''pics/'' @ print_int k @ ''.jpg'', k + 1, img, []))"
proof -
  have n: "0 \<le> int (length img)" "int (length img) < 10 ^ 9" "nat (int (length img)) \<le> length img" using assms(5) by simp_all
  from sendImage_frame [OF n order_refl, of "ce_stack ce"] obtain m where
    s: "sendImage img (int (length img)) (ce_stack ce) 0 = Inr ([m], 0)" by auto
  have t: "transmit_one file_name ce c = Inr (MfUpload [m], c)"
    using s assms(1-4) by (simp add: transmit_one_def env_ok_def)
  have "mf_send (ce_stack ce) img @ [] = map Some [m]" using s by (simp add: mf_send_def)
  with mf_channel [OF assms(5), of heap stack "ce_stack ce" "[]"]
  have "transmit_receive_mf heap stack k (map Some [m]) = Inr (Some (''pics/'' @ print_int k @ ''.jpg'', k + 1, img, []))"
    by (simp add: transmit_receive_mf_def)
  with t show ?thesis by blast
qed

text \<open>
  C26: a photograph of at most 649990 bytes sent by a new orbit client to an idle server: one message each way, after which
  the session is idle again, the next picture gets the next file name, and the client shows the fields
  of the info text and the index.
\<close>

theorem mf_photograph_to_display:
  fixes v :: "('img, 'kp, 'd) vision" and im :: "('img, 'kp, 'd, unit) img_match"
  assumes "cl_mf c" and "\<not> cl_tcp c" and "\<not> cl_orbit c" and "cl_size_per_time c = 1" and "env_ok img ce" and "length img \<le> 649990"
    and "in_int32 fake_index" and "mf cfg" and "\<not> storm cfg" and "queues st a = Some []" and "sems st s = Some 0"
    and "process_sem st = Suc k" and "in_int32 (request_submitted (sv_metrics st) + 1)"
    and "in_int32 (request_finished (sv_metrics st) + 1)"
    and "matchImg (\<lambda>_. v_decode v img) (v_surf v) (v_knn v) (''pics/'' @ print_int fake_index @ ''.jpg'')
           (snd (new_ImgMatch 0 (sv_db st) :: ('img, 'kp, 'd, unit) img_match \<times> _)) (fst (new_ImgMatch 0 (sv_db st))) = Inr im"
    and "getMatchedImgIndex im = idx" and "idx \<noteq> 0"
    and "getInfo (sv_disk st) im = title @ '','' @ artist @ '','' @ date"
    and "list_all is_field [title, artist, date]"
    and "length title + length artist + length date + length (print_int idx) < 180"
    and "rl_counter rl = 1"
  shows "\<exists>ms buffer n st' msg rl'. transmit_one file_name ce c = Inr (MfUpload ms, c) \<and>
     mf_picture v cfg fake_index s a stack heap e ms st = Inr (Some (buffer, n, fake_index + 1, st')) \<and>
     sv_out st' = sv_out st @ [(0, msg)] \<and> queues st' a = Some [] \<and> sems st' s = Some 0 \<and>
     process_sem st' = process_sem st \<and>
     result_step 1 consume n buffer rl = Inr rl' \<and> result_title (rl_ui rl') = ''Title: '' @ title \<and>
     result_artist (rl_ui rl') = ''Artist: '' @ artist \<and> result_date (rl_ui rl') = ''Date: '' @ date \<and>
     matchIndex (rl_ui rl') = print_int idx"
proof -
  let ?name = "''pics/'' @ print_int fake_index @ ''.jpg''"
  from mf_upload_sent [OF assms(1-3,5,6), of file_name heap stack fake_index] obtain ms where
    u: "transmit_one file_name ce c = Inr (MfUpload ms, c)"
    and rx: "transmit_receive_mf heap stack fake_index (map Some ms) = Inr (Some (?name, fake_index + 1, img, []))" by blast
  have nm: "length ?name < 60" using length_print_int_le [OF assms(7)] by simp
  from reply_shown_any [OF assms(19,17,20), of stack "rl_ui rl"] obtain msg where
    r: "result_reply idx (title @ '','' @ artist @ '','' @ date) stack = Inr msg" and lm: "length msg = 200"
    and ui: "\<And>rest. show_result (msg @ rest) (rl_ui rl) = Inr (painting_ui title artist date idx (rl_ui rl))" by blast
  have "result_reply (getMatchedImgIndex im) (getInfo (sv_disk st) im) stack = Inr msg"
    using r by (simp only: assms(16,18))
  from serve_queued_reply [OF nm assms(9-15) this, of "''mf''" 0 e] obtain st' where
    st': "serve_queued v cfg ''mf'' 0 s a stack e ?name img st = Inr (Some st')"
      "sv_out st' = sv_out st @ [(0, msg)]" "process_sem st' = process_sem st" "queues st' a = Some []"
      "sems st' s = Some 0" by blast
  let ?b = "fill msg (zeros 1024)"
  have pic: "mf_picture v cfg fake_index s a stack heap e ms st = Inr (Some (?b, 200, fake_index + 1, st'))"
    using rx st'(1,2) lm by (simp add: mf_picture_def sendResult_def read_at_def recvResult_def)
  have b: "fill ?b (zeros 1024) = msg @ drop 200 (zeros 1024)"
    using lm by (simp add: fill_def)
  from buffer_displayed [OF assms(21) _ b [THEN arg_cong [of _ _ "\<lambda>b. show_result b (rl_ui rl)"], unfolded ui], of 200]
  obtain rl' where "result_step 1 consume 200 ?b rl = Inr rl'"
    "rl_ui rl' = painting_ui title artist date idx (rl_ui rl)" by auto
  then show ?thesis using u pic st'(2-5)
    by (intro exI [of _ ms] exI [of _ ?b] exI [of _ 200] exI [of _ st'] exI [of _ msg] exI [of _ rl']) simp
qed

subsection \<open>Concrete instances\<close>

definition demo_two :: msgd where
  "demo_two = register_connection 6 (register_connection 5 (new_msgd\<lparr>mfsockid := 6\<rparr>))"

lemma demo_two_open: "\<forall>k \<in> {5, 6}. open_sock k demo_two \<and> messages k demo_two = []"
proof -
  have "msgd_inv demo_two"
    unfolding demo_two_def
    by (intro inv_register inv_frame [OF inv_new_msgd]) (simp_all add: new_msgd_def register_connection_def Let_def)
  then show ?thesis
    by (simp add: open_sock_def sock_inv_def messages_def demo_two_def register_connection_def new_msgd_def Let_def)
qed

lemma orbit_photograph_to_display_witness:
  "\<exists>ann bs c' shown cd' sd' st' msg rl'. transmit_one ''pics/u-1.jpg''
       \<lparr>ce_file = Some ''jpg'', ce_io = True, ce_opens = True, ce_cut = 9, ce_stack = (\<lambda>_. NUL)\<rparr>
       (init_client\<lparr>cl_tcp := False, cl_orbit := True\<rparr>) = Inr (OrbitUpload ann (map Chunk bs), c') \<and>
     orbit_picture demo_vision (demo_cfg\<lparr>tcp := False, orbit := True\<rparr>) ''u'' 6 5 0 1 (\<lambda>_. NUL) (\<lambda>_. NUL)
       demo_storm_env ann bs demo_two demo_two demo_server = Inr (Some ([shown], cd', sd', st')) \<and>
     sv_out st' = [(5, msg)] \<and>
     result_step 1 False 1 shown \<lparr>rl_counter = 1, rl_stop = False, rl_ui = init_shown, rl_times = []\<rparr> = Inr rl' \<and>
     result_artist (rl_ui rl') = ''Artist: Leonardo''"
proof -
  let ?ce = "\<lparr>ce_file = Some ''jpg'', ce_io = True, ce_opens = True, ce_cut = 9, ce_stack = (\<lambda>_. NUL)\<rparr>"
  let ?rl = "\<lparr>rl_counter = 1, rl_stop = False, rl_ui = init_shown, rl_times = []\<rparr>"
  let ?c = "init_client\<lparr>cl_tcp := False, cl_orbit := True\<rparr>" and ?cfg = "demo_cfg\<lparr>tcp := False, orbit := True\<rparr>"
  from demo_match [of "''pics/u-1.jpg''"] obtain im :: "(bytes, unit, bool, unit) img_match" where
    m: "matchImg (\<lambda>_. v_decode demo_vision ''jpg'') (v_surf demo_vision) (v_knn demo_vision) ''pics/u-1.jpg''
      (snd (new_ImgMatch 0 (sv_db demo_server) :: (bytes, unit, bool, unit) img_match \<times> _))
      (fst (new_ImgMatch 0 (sv_db demo_server))) = Inr im"
    and x: "getMatchedImgIndex im = 2"
    and i: "getInfo (sv_disk demo_server) im = ''Mona Lisa'' @ '','' @ ''Leonardo'' @ '','' @ ''1503''" by blast
  have p: "print_int 2 = ''2''" by code_simp
  have f: "is_field ''pics/u-1.jpg''" "list_all is_field [''Mona Lisa'', ''Leonardo'', ''1503'']"
    by (simp_all add: is_field_def)
  have s: "\<forall>k \<in> {6, 5}. open_sock k demo_two \<and> open_sock k demo_two \<and> messages k demo_two = [] \<and> messages k demo_two = []"
    using demo_two_open by auto
  have h: "cl_orbit ?c" "\<not> cl_tcp ?c" "cl_size_per_time ?c = 1" "in_int32 (cl_fake_id ?c)"
    "env_ok ''jpg'' ?ce" "in_int32 (int (length ''jpg''))" "orbit ?cfg" "\<not> storm ?cfg"
    "queues demo_server 1 = Some []" "sems demo_server 0 = Some 0" "process_sem demo_server = Suc 4"
    "in_int32 (request_submitted (sv_metrics demo_server) + 1)"
    "in_int32 (request_finished (sv_metrics demo_server) + 1)" "sv_out demo_server = []" "rl_counter ?rl = 1"
    by (simp_all add: init_client_def env_ok_def in_int32_def demo_cfg_def demo_server_def init_server_def new_Metrics_def)
  from orbit_photograph_to_display [OF h(1-3) f(1) _ h(4,5) _ h(6) s _ h(7-13) m x _ i f(2) _ h(15),
      where heap = "\<lambda>_. NUL" and user = "''u''" and stack = "\<lambda>_. NUL" and e = demo_storm_env and consume = False]
  obtain ann bs c' shown cd' sd' st' msg rl' where
    "transmit_one ''pics/u-1.jpg'' ?ce ?c = Inr (OrbitUpload ann (map Chunk bs), c')"
    "orbit_picture demo_vision ?cfg ''u'' 6 5 0 1 (\<lambda>_. NUL) (\<lambda>_. NUL) demo_storm_env ann bs demo_two demo_two demo_server =
       Inr (Some ([shown], cd', sd', st'))"
    "sv_out st' = sv_out demo_server @ [(5, msg)]" "result_step 1 False 1 shown ?rl = Inr rl'"
    "result_artist (rl_ui rl') = ''Artist: '' @ ''Leonardo''" by (auto simp: p)
  then show ?thesis using h(14) by (intro exI conjI) simp_all
qed

lemma mf_photograph_to_display_witness:
  "\<exists>ms buffer n st' msg rl'. transmit_one ''pics/u-1.jpg''
       \<lparr>ce_file = Some ''jpg'', ce_io = True, ce_opens = True, ce_cut = 9, ce_stack = (\<lambda>_. NUL)\<rparr>
       (init_client\<lparr>cl_tcp := False, cl_mf := True\<rparr>) = Inr (MfUpload ms, init_client\<lparr>cl_tcp := False, cl_mf := True\<rparr>) \<and>
     mf_picture demo_vision (demo_cfg\<lparr>tcp := False, mf := True\<rparr>) 1 0 1 (\<lambda>_. NUL) (\<lambda>_. NUL)
       demo_storm_env ms demo_server = Inr (Some (buffer, n, 2, st')) \<and>
     sv_out st' = [(0, msg)] \<and>
     result_step 1 False n buffer \<lparr>rl_counter = 1, rl_stop = False, rl_ui = init_shown, rl_times = []\<rparr> = Inr rl' \<and>
     result_artist (rl_ui rl') = ''Artist: Leonardo''"
proof -
  let ?ce = "\<lparr>ce_file = Some ''jpg'', ce_io = True, ce_opens = True, ce_cut = 9, ce_stack = (\<lambda>_. NUL)\<rparr>"
  let ?rl = "\<lparr>rl_counter = 1, rl_stop = False, rl_ui = init_shown, rl_times = []\<rparr>"
  let ?c = "init_client\<lparr>cl_tcp := False, cl_mf := True\<rparr>" and ?cfg = "demo_cfg\<lparr>tcp := False, mf := True\<rparr>"
  from demo_match [of "''pics/'' @ print_int 1 @ ''.jpg''"] obtain im :: "(bytes, unit, bool, unit) img_match" where
    m: "matchImg (\<lambda>_. v_decode demo_vision ''jpg'') (v_surf demo_vision) (v_knn demo_vision) (''pics/'' @ print_int 1 @ ''.jpg'')
      (snd (new_ImgMatch 0 (sv_db demo_server) :: (bytes, unit, bool, unit) img_match \<times> _))
      (fst (new_ImgMatch 0 (sv_db demo_server))) = Inr im"
    and x: "getMatchedImgIndex im = 2"
    and i: "getInfo (sv_disk demo_server) im = ''Mona Lisa'' @ '','' @ ''Leonardo'' @ '','' @ ''1503''" by blast
  have p: "print_int 2 = ''2''" by code_simp
  have f: "list_all is_field [''Mona Lisa'', ''Leonardo'', ''1503'']" by (simp add: is_field_def)
  have h: "cl_mf ?c" "\<not> cl_tcp ?c" "\<not> cl_orbit ?c" "cl_size_per_time ?c = 1" "env_ok ''jpg'' ?ce" "in_int32 1"
    "mf ?cfg" "\<not> storm ?cfg" "queues demo_server 1 = Some []" "sems demo_server 0 = Some 0" "process_sem demo_server = Suc 4"
    "in_int32 (request_submitted (sv_metrics demo_server) + 1)"
    "in_int32 (request_finished (sv_metrics demo_server) + 1)" "sv_out demo_server = []" "rl_counter ?rl = 1"
    by (simp_all add: init_client_def env_ok_def in_int32_def demo_cfg_def demo_server_def init_server_def new_Metrics_def)
  from mf_photograph_to_display [OF h(1-5) _ h(6-13) m x _ i f _ h(15),
      where heap = "\<lambda>_. NUL" and stack = "\<lambda>_. NUL" and e = demo_storm_env and consume = False and file_name = "''pics/u-1.jpg''"]
  obtain ms buffer n st' msg rl' where
    "transmit_one ''pics/u-1.jpg'' ?ce ?c = Inr (MfUpload ms, ?c)"
    "mf_picture demo_vision ?cfg 1 0 1 (\<lambda>_. NUL) (\<lambda>_. NUL) demo_storm_env ms demo_server = Inr (Some (buffer, n, 1 + 1, st'))"
    "sv_out st' = sv_out demo_server @ [(0, msg)]" "result_step 1 False n buffer ?rl = Inr rl'"
    "result_artist (rl_ui rl') = ''Artist: '' @ ''Leonardo''" by (auto simp: p)
  then show ?thesis using h(14) by (intro exI conjI) simp_all
qed

end
