(* ===== verification/Users.thy ===== *)
theory Users
  imports SessionInv
begin

text \<open>
  The whole server at work: any number of users who log in, send images and leave at the same
  time, over one \<open>process_sem\<close>, one set of maps and one heap. A user's two connections log in one
  after the other, as the client does (the result connection first), each in two steps, the entry
  in \<open>user_map\<close> (\<open>serverThread\<close>) and the set-up of the thread; everything may happen in between.
  Then its threads take the steps of \<open>Session\<close>. What \<open>Session\<close> assumes of the other threads is
  shown here: a step of one user leaves the sessions of all others alone.
\<close>

subsection \<open>State\<close>

text \<open>
  How far a user's login is: the result thread counted, waiting, the transmit thread counted. The
  flag is false when the result thread could not bind its socket and has ended; the user's
  transmit thread is then an orphan.
\<close>

datatype login_phase = LCounted | LWait bool nat | LTransmit bool nat | LOrphan nat nat

text \<open>A user's threads; the fields are those of a session without the server.\<close>

record user_threads =
  u_name :: string
  u_sock :: int
  u_sem :: nat
  u_queue :: nat
  u_tpos :: tpc
  u_rpos :: rpc
  u_children :: nat
  u_received :: "string list"
  u_popped :: "string list"

text \<open>
  \<open>y_lost\<close> counts the children that ended without a reply. \<open>y_port\<close>: the port for the cluster's datagrams is
  bound by a socket of this process. Nothing resets it: a result thread whose client has left
  returns before the \<open>close(fd)\<close> at the end of \<open>server_result\<close>.
\<close>

record 'd system =
  y_srv :: "'d server"
  y_half :: "string \<Rightarrow> (int \<times> login_phase) option"
  y_users :: "user_threads list"
  y_lost :: nat
  y_port :: bool

definition session_of :: "'d server \<Rightarrow> user_threads \<Rightarrow> 'd session" where
  "session_of st u =
     \<lparr>srv = st, tpos = u_tpos u, rpos = u_rpos u, children = u_children u,
      received = u_received u, popped = u_popped u\<rparr>"

definition threads_of :: "user_threads \<Rightarrow> 'd session \<Rightarrow> user_threads" where
  "threads_of u x =
     u\<lparr>u_tpos := tpos x, u_rpos := rpos x, u_children := children x,
       u_received := received x, u_popped := popped x\<rparr>"

abbreviation user_step ::
  "('img, 'kp, 'd) vision \<Rightarrow> config \<Rightarrow> user_threads \<Rightarrow> 'd session \<Rightarrow> 'd session \<Rightarrow> bool" where
  "user_step v cfg u \<equiv> own_step v cfg (u_name u) (u_sock u) (u_sem u) (u_queue u)"

definition new_user :: "string \<Rightarrow> int \<Rightarrow> nat \<Rightarrow> nat \<Rightarrow> user_threads" where
  "new_user user sock s a =
     \<lparr>u_name = user, u_sock = sock, u_sem = s, u_queue = a, u_tpos = TRecv None, u_rpos = RWait None,
      u_children = 0, u_received = [], u_popped = []\<rparr>"

text \<open>A child that is gone while nothing was sent.\<close>

definition lost_child :: "'d session \<Rightarrow> 'd session \<Rightarrow> nat" where
  "lost_child x y = (if children y < children x \<and> sv_out (srv y) = sv_out (srv x) then 1 else 0)"

subsection \<open>Steps\<close>

text \<open>
  \<open>connect_result\<close> has the one assumption on the clients: nobody opens a second result connection
  under a name that is logging in. \<open>init_result\<close> has the documented behaviour of \<open>bind\<close>: it fails on a port
  that this process has already bound (it may fail for other reasons). All other guards are the
  code's. A thread that faults ends the process, so an orphan has no step after its login.
  Connections with an unknown command, which \<open>serverThread\<close> only counts (\<open>unknown_commands_lock_out\<close>), and
  the two threads of \<open>mfThread\<close>, whose session is the only one of its server, are not among the steps.
\<close>

inductive srv_step ::
  "('img, 'kp, 'd) vision \<Rightarrow> config \<Rightarrow> 'd system \<Rightarrow> 'd system \<Rightarrow> bool"
  for v cfg
where
  connect_result: "serverThread cfg m sock (y_srv x) = Inr (DoResult user, st) \<Longrightarrow> y_half x user = None \<Longrightarrow>
      srv_step v cfg x (x\<lparr>y_srv := st, y_half := (y_half x)(user \<mapsto> (sock, LCounted))\<rparr>)"
| init_result: "y_half x user = Some (sock, LCounted) \<Longrightarrow>
      server_result_init cfg sock user True (y_srv x) = Inr (s, st) \<Longrightarrow>
      (storm cfg \<and> y_port x \<longrightarrow> \<not> bind_ok) \<Longrightarrow> server_result_bind cfg bind_ok s st = (up, st') \<Longrightarrow>
      srv_step v cfg x (x\<lparr>y_srv := st', y_half := (y_half x)(user \<mapsto> (sock, LWait up s)),
                          y_port := y_port x \<or> storm cfg \<and> up\<rparr>)"
| connect_transmit: "y_half x user = Some (sock, LWait up s) \<Longrightarrow>
      serverThread cfg m tsock (y_srv x) = Inr (DoTransmit user, st) \<Longrightarrow>
      srv_step v cfg x (x\<lparr>y_srv := st, y_half := (y_half x)(user \<mapsto> (sock, LTransmit up s))\<rparr>)"
| init_orphan: "y_half x user = Some (sock, LTransmit False s) \<Longrightarrow>
      server_transmit_init cfg tsock user True (y_srv x) = (Some a, st) \<Longrightarrow>
      srv_step v cfg x (x\<lparr>y_srv := st, y_half := (y_half x)(user \<mapsto> (sock, LOrphan s a))\<rparr>)"
| init_transmit: "y_half x user = Some (sock, LTransmit True s) \<Longrightarrow>
      server_transmit_init cfg tsock user True (y_srv x) = (Some a, st) \<Longrightarrow>
      srv_step v cfg x (x\<lparr>y_srv := st, y_half := (y_half x)(user := None),
                          y_users := y_users x @ [new_user user sock s a]\<rparr>)"
| rejected: "serverThread cfg m sock (y_srv x) = Inr (Rejected, st) \<Longrightarrow>
      srv_step v cfg x (x\<lparr>y_srv := st\<rparr>)"
| threads: "i < length (y_users x) \<Longrightarrow> u = y_users x ! i \<Longrightarrow>
      user_step v cfg u (session_of (y_srv x) u) z \<Longrightarrow>
      srv_step v cfg x
        (x\<lparr>y_srv := srv z, y_users := (y_users x)[i := threads_of u z],
           y_lost := y_lost x + lost_child (session_of (y_srv x) u) z\<rparr>)"

definition srv_start :: "nat \<Rightarrow> 'd img_db \<Rightarrow> 'd disk \<Rightarrow> 'd system" where
  "srv_start max_image db dk =
     \<lparr>y_srv = init_server max_image db dk, y_half = (\<lambda>_. None), y_users = [], y_lost = 0,
      y_port = False\<rparr>"

inductive srv_reachable ::
  "('img, 'kp, 'd) vision \<Rightarrow> config \<Rightarrow> nat \<Rightarrow> 'd system \<Rightarrow> bool"
  for v cfg max_image
where
  start: "srv_reachable v cfg max_image (srv_start max_image db dk)"
| step: "srv_reachable v cfg max_image x \<Longrightarrow> srv_step v cfg x y \<Longrightarrow> srv_reachable v cfg max_image y"

subsection \<open>What the steps leave alone\<close>

lemma session_of_sel [simp]:
  "srv (session_of st u) = st" "tpos (session_of st u) = u_tpos u" "rpos (session_of st u) = u_rpos u"
  "children (session_of st u) = u_children u" "received (session_of st u) = u_received u"
  "popped (session_of st u) = u_popped u"
  by (simp_all add: session_of_def)

lemma threads_of_sel [simp]:
  "u_name (threads_of u x) = u_name u" "u_sock (threads_of u x) = u_sock u"
  "u_sem (threads_of u x) = u_sem u" "u_queue (threads_of u x) = u_queue u"
  "u_tpos (threads_of u x) = tpos x" "u_rpos (threads_of u x) = rpos x"
  "u_children (threads_of u x) = children x" "u_received (threads_of u x) = received x"
  "u_popped (threads_of u x) = popped x"
  by (simp_all add: threads_of_def)

lemma session_of_threads_of [simp]: "session_of (srv x) (threads_of u x) = x"
  by (simp add: session_of_def)

lemma session_of_srv: "session_of st' u = (session_of st u)\<lparr>srv := st'\<rparr>"
  by (simp add: session_of_def)

lemma new_user_sel [simp]:
  "u_name (new_user user sock s a) = user" "u_sock (new_user user sock s a) = sock"
  "u_sem (new_user user sock s a) = s" "u_queue (new_user user sock s a) = a"
  "u_tpos (new_user user sock s a) = TRecv None" "u_rpos (new_user user sock s a) = RWait None"
  "u_children (new_user user sock s a) = 0" "u_received (new_user user sock s a) = []"
  "u_popped (new_user user sock s a) = []"
  by (simp_all add: new_user_def)

end
