(* ===== verification/UsersFrame.thy ===== *)
theory UsersFrame
  imports Users
begin

text \<open>
  What the steps of the server leave alone: the footprint of a session's own steps, which is its
  semaphore, its queue, its slot and its name, and the effect of the login operations.
\<close>

subsection \<open>The footprint of a session's own steps\<close>

definition touches_only :: "string \<Rightarrow> nat \<Rightarrow> nat \<Rightarrow> 'd server \<Rightarrow> 'd server \<Rightarrow> bool" where
  "touches_only user s a st st' \<longleftrightarrow>
     (\<forall>k. k \<noteq> s \<longrightarrow> sems st' k = sems st k \<and> slots st' k = slots st k) \<and>
     (\<forall>k. k \<noteq> a \<longrightarrow> queues st' k = queues st k) \<and>
     (\<forall>nm. nm \<noteq> user \<longrightarrow> queue_map st' nm = queue_map st nm \<and> sem_map st' nm = sem_map st nm \<and>
        user_map st' nm = user_map st nm) \<and>
     next_addr st' = next_addr st"

definition same_maps :: "'d server \<Rightarrow> 'd server \<Rightarrow> bool" where
  "same_maps st st' \<longleftrightarrow> queue_map st' = queue_map st \<and> sem_map st' = sem_map st \<and> user_map st' = user_map st"

lemma touches_onlyI:
  "same_maps st st' \<Longrightarrow> next_addr st' = next_addr st \<Longrightarrow>
   (\<And>k. k \<noteq> s \<Longrightarrow> sems st' k = sems st k) \<Longrightarrow> (\<And>k. k \<noteq> s \<Longrightarrow> slots st' k = slots st k) \<Longrightarrow>
   (\<And>k. k \<noteq> a \<Longrightarrow> queues st' k = queues st k) \<Longrightarrow> touches_only user s a st st'"
  by (simp add: touches_only_def same_maps_def)

lemma transmit_pass_frame:
  assumes "transmit_pass cfg e img st = Inr (ok, st')"
  shows "\<exists>p o'. st' = st\<lparr>producer := p, sv_storm := o'\<rparr>"
proof (cases "use_kafka cfg")
  case True
  with assms obtain k' where "st' = st\<lparr>producer := Some k', sv_storm := sv_storm st\<rparr>"
    by (auto simp: transmit_pass_def res_simps split: option.splits)
  then show ?thesis by blast
next
  case False
  with assms obtain sent where "st' = st\<lparr>producer := producer st, sv_storm := sv_storm st @ sent\<rparr>"
    by (auto simp: transmit_pass_def res_simps)
  then show ?thesis by blast
qed

lemma push_image_frame:
  "push_image a name st = Inr st' \<Longrightarrow>
     \<exists>q. queues st a = Some q \<and> st' = st\<lparr>queues := (queues st)(a \<mapsto> q @ [name])\<rparr>"
  by (auto simp: push_image_def split: option.splits)

lemma transmit_image_touches:
  assumes "transmit_image cfg a name img True e st = Inr (True, st')"
  shows "touches_only user s a st st' \<and> same_maps st st' \<and> slots st' = slots st"
proof (cases "storm cfg")
  case True
  with assms show ?thesis
    by (auto simp: transmit_image_def touches_only_def same_maps_def Let_def res_simps
        dest!: transmit_pass_frame push_image_frame split: if_splits)
next
  case False
  with assms show ?thesis
    by (auto simp: transmit_image_def touches_only_def same_maps_def Let_def res_simps dest!: push_image_frame)
qed

lemma transmit_signal_touches:
  assumes "transmit_signal user so st = Inr (Some (s, st'))"
  shows "touches_only user s a st st' \<and> same_maps st st' \<and> slots st' = slots st"
  using assms
  by (auto simp: transmit_signal_def sem_post_at_def touches_only_def same_maps_def res_simps split: option.splits)

lemma transmit_disconnect_touches:
  assumes "transmit_disconnect (Some s) st = Inr st'"
  shows "touches_only user s a st st' \<and> same_maps st st' \<and> slots st' = slots st"
  using assms
  by (auto simp: transmit_disconnect_def sem_post_at_def touches_only_def same_maps_def split: option.splits)

lemma result_dispatch_touches:
  assumes "result_dispatch sock s a st = Inr (Some st')"
  shows "touches_only user s a st st' \<and> same_maps st st' \<and>
     slots st' s = Some (sock, hd (image_items a st)) \<and> image_items a st \<noteq> []"
  using assms
  by (auto simp: result_dispatch_def touches_only_def same_maps_def image_items_def res_simps dest!: pop_image_frame split: if_splits)

lemma result_storm_touches:
  assumes "result_storm cfg sock a datagram w stack st = Inr (True, st')"
  shows "touches_only user s a st st' \<and> same_maps st st' \<and> slots st' = slots st"
  using assms
  by (auto simp: result_storm_def reply_def touches_only_def same_maps_def res_simps dest!: pop_image_frame
      split: if_splits option.splits)

lemma result_child_touches:
  assumes "result_child v cfg slot ok stack st = Inr st'"
  shows "touches_only user s a st st' \<and> same_maps st st' \<and> slots st' = slots st \<and> sems st' = sems st \<and> queues st' = queues st"
  using assms
  by (auto simp: result_child_def touches_only_def same_maps_def reply_def res_simps Let_def
      split: option.splits if_splits prod.splits)

lemma result_wait_cases:
  assumes "result_wait user s qo st = Inr (Some (w, st'))"
  obtains (ready) n a where "w = ImageReady a" "st' = st\<lparr>sems := (sems st)(s \<mapsto> n)\<rparr>"
  | (gone) a where "w = ClientGone" "(case qo of Some a \<Rightarrow> Some a | None \<Rightarrow> queue_map st user) = Some a"
      "st' = st\<lparr>sem_map := (sem_map st)(user := None), queue_map := (queue_map st)(user := None),
                user_map := (user_map st)(user := None), sems := (sems st)(s := None),
                queues := (queues st)(a := None), slots := (slots st)(s := None)\<rparr>"
proof -
  from assms obtain n where n: "sems st s = Some (Suc n)"
    by (auto simp: result_wait_def sem_wait_at_def split: option.splits nat.splits)
  obtain a where a: "(case qo of Some a \<Rightarrow> Some a | None \<Rightarrow> queue_map st user) = Some a"
    using assms n by (cases qo) (auto simp: result_wait_def sem_wait_at_def split: option.splits)
  obtain q where q: "queues st a = Some q"
    using assms n a by (auto simp: result_wait_def sem_wait_at_def split: option.splits)
  show thesis
    using assms n a q ready gone by (cases qo; cases q) (auto simp: result_wait_def sem_wait_at_def)
qed

lemma result_wait_ready_touches:
  assumes "result_wait user s qo st = Inr (Some (ImageReady a', st'))"
  shows "touches_only user s a st st' \<and> same_maps st st' \<and> slots st' = slots st"
  using assms by (cases rule: result_wait_cases) (auto simp: touches_only_def same_maps_def)

lemma result_wait_gone_touches:
  assumes "result_wait user s qo st = Inr (Some (ClientGone, st'))"
    and "queue_map st user = Some a" and "\<forall>b. qo = Some b \<longrightarrow> b = a"
  shows "touches_only user s a st st' \<and> user_map st' user = None \<and> slots st' s = None"
  using assms(1)
proof (cases rule: result_wait_cases)
  case (gone b)
  then have "b = a" using assms(2,3) by (cases qo) auto
  then show ?thesis using gone by (auto simp: touches_only_def)
qed simp

lemma own_step_ended:
  assumes "own_step v cfg user sock s a x y" and "sess_inv user s a x" and "rpos x = RGone"
  obtains n w stack st where "children x = Suc n" "result_child v cfg s w stack (srv x) = Inr st"
    "y = x\<lparr>srv := st, children := n\<rparr>"
proof -
  from assms(2,3) have "tpos x = TGone" by (simp add: sess_inv_def)
  with assms(1,3) show thesis
    by (cases rule: own_step.cases) (use that in auto)
qed

text \<open>What a session's own step may change, and that it gives the name back when it is the last.\<close>

lemma own_step_touches:
  assumes "own_step v cfg user sock s a x y" and "sess_inv user s a x"
  shows "touches_only user s a (srv x) (srv y) \<and>
     (if rpos x \<noteq> RGone \<and> rpos y = RGone then user_map (srv y) user = None \<and> slots (srv y) s = None
      else same_maps (srv x) (srv y))"
proof (cases "rpos x = RGone")
  case True
  with assms show ?thesis by (auto elim!: own_step_ended dest!: result_child_touches)
next
  case False
  with assms(2) have live: "live_inv user s a x" by (simp add: sess_inv_def)
  have addr: "queue_map (srv x) user = Some a" "sem_map (srv x) user = Some s"
    "\<And>b. tpos x = TRecv (Some b) \<or> tpos x = TSignal (Some b) \<Longrightarrow> b = s"
    "\<And>b. rpos x = RWait (Some b) \<Longrightarrow> b = a" "\<And>b. rpos x = RDispatch b \<Longrightarrow> b = a"
    using live by (auto simp: live_inv_def)
  from assms(1) show ?thesis
  proof (cases rule: own_step.cases)
    case (image so name e st)
    with transmit_image_touches [OF image(4)] False show ?thesis by simp
  next
    case (signal so s' st)
    have "s' = s" using signal(3) addr(2) addr(3) [of s'] signal(2)
      by (cases so) (auto simp: transmit_signal_def res_simps)
    with signal have "transmit_signal user so (srv x) = Inr (Some (s, st))" by simp
    from transmit_signal_touches [OF this] signal False show ?thesis by simp
  next
    case (disconnect so st)
    then obtain b where "so = Some b" by (cases so) (auto simp: transmit_disconnect_def)
    with disconnect addr(3) [of b] have "transmit_disconnect (Some s) (srv x) = Inr st" by simp
    from transmit_disconnect_touches [OF this] disconnect False show ?thesis by simp
  next
    case (wake q a' st)
    with result_wait_ready_touches [OF wake(3)] show ?thesis by simp
  next
    case (gone q st)
    with result_wait_gone_touches [OF gone(3) addr(1)] addr(4) False show ?thesis by simp
  next
    case (dispatch a' st)
    with result_dispatch_touches [of sock s a "srv x" st user] addr(5) [of a'] show ?thesis by simp
  next
    case (storm_result a' datagram stack st)
    with result_storm_touches [of cfg sock a datagram True stack "srv x" st user s] addr(5) [of a'] show ?thesis by simp
  next
    case (child n w stack st)
    with result_child_touches [OF child(3)] False show ?thesis by simp
  qed
qed

subsection \<open>Logging in\<close>

lemma serverThread_cases:
  assumes "serverThread cfg m sock st = Inr (l, st')"
  obtains (closed) "l = LoginClosed"
  | (rejected) "l = Rejected" "st' = reply sock (''failed'' @ [NUL]) st"
  | (counted) ty user n where "l = login_dispatch ty user" "user_map st user \<in> {None, Some 1}"
      "n = (if user_map st user = None then 1 else 2)" "st' = st\<lparr>user_map := (user_map st)(user \<mapsto> n)\<rparr>"
proof (cases "tcp cfg \<and> m = None")
  case True
  with assms closed show thesis by (simp add: serverThread_def)
next
  case False
  define h where "h = login_header (fill (case m of None \<Rightarrow> [] | Some m \<Rightarrow> m) (zeros 100))"
  have s: "rbind h (\<lambda>(ty, user). case user_map st user of
      None \<Rightarrow> Inr (login_dispatch ty user, st\<lparr>user_map := (user_map st)(user \<mapsto> 1)\<rparr>)
    | Some n \<Rightarrow> if n = 1 then Inr (login_dispatch ty user, st\<lparr>user_map := (user_map st)(user \<mapsto> 2)\<rparr>)
                else Inr (Rejected, reply sock (''failed'' @ [NUL]) st)) = Inr (l, st')"
    using assms False unfolding serverThread_def h_def [symmetric] by (simp split: if_splits)
  then obtain ty user where h: "h = Inr (ty, user)" by (cases h) auto
  show thesis
  proof (cases "user_map st user")
    case None
    with s h counted [of ty user 1] show thesis by simp
  next
    case (Some n)
    with s h counted [of ty user 2] rejected show thesis by (cases "n = 1") simp_all
  qed
qed

lemma login_dispatch_cases [simp]:
  "login_dispatch ty user = DoResult user' \<longleftrightarrow> ty = ''result'' \<and> user' = user"
  "login_dispatch ty user = DoTransmit user' \<longleftrightarrow> ty = ''transmit'' \<and> user' = user"
  "login_dispatch ty user \<noteq> Rejected" "login_dispatch ty user \<noteq> LoginClosed"
  "DoResult user' = login_dispatch ty user \<longleftrightarrow> ty = ''result'' \<and> user' = user"
  "DoTransmit user' = login_dispatch ty user \<longleftrightarrow> ty = ''transmit'' \<and> user' = user"
  "Rejected \<noteq> login_dispatch ty user"
  by (auto simp: login_dispatch_def)

lemma serverThread_counts:
  assumes "serverThread cfg m sock st = Inr (l, st')" and "l = DoResult user \<or> l = DoTransmit user"
  shows "user_map st user \<in> {None, Some 1} \<and>
     st' = st\<lparr>user_map := (user_map st)(user \<mapsto> (if user_map st user = None then 1 else 2))\<rparr>"
  using assms(1) by (cases rule: serverThread_cases) (use assms(2) in auto)

lemma serverThread_Rejected:
  assumes "serverThread cfg m sock st = Inr (Rejected, st')"
  shows "st' = reply sock (''failed'' @ [NUL]) st"
  using assms by (cases rule: serverThread_cases) auto

lemma server_result_init_frame:
  assumes "server_result_init cfg sock user True st = Inr (s, st')"
  shows "s = next_addr st \<and> (\<exists>out. st' = st\<lparr>sems := (sems st)(s \<mapsto> 0), next_addr := Suc s,
     sem_map := (sem_map st)(user \<mapsto> s), sv_out := out\<rparr>)"
proof (cases "tcp cfg \<or> orbit cfg")
  case True
  with assms show ?thesis by (auto simp: server_result_init_def reply_def Let_def)
next
  case False
  with assms have "s = next_addr st \<and> st' = st\<lparr>sems := (sems st)(s \<mapsto> 0), next_addr := Suc s,
      sem_map := (sem_map st)(user \<mapsto> s), sv_out := sv_out st\<rparr>"
    by (auto simp: server_result_init_def Let_def)
  then show ?thesis by blast
qed

text \<open>The result thread up to its loop: when its socket cannot be bound the semaphore is deleted.\<close>

lemma server_result_begin_frame:
  assumes "server_result_init cfg sock user True st = Inr (s, st1)" and "server_result_bind cfg ok s st1 = (up, st')"
  shows "s = next_addr st \<and> up = (storm cfg \<longrightarrow> ok) \<and> (\<exists>out. st' = st\<lparr>sems := (sems st)(s := if up then Some 0 else None),
     next_addr := Suc s, sem_map := (sem_map st)(user \<mapsto> s), sv_out := out\<rparr>)"
proof -
  from server_result_init_frame [OF assms(1)] obtain out where s: "s = next_addr st" and
    st1: "st1 = st\<lparr>sems := (sems st)(s \<mapsto> 0), next_addr := Suc s, sem_map := (sem_map st)(user \<mapsto> s), sv_out := out\<rparr>"
    by blast
  show ?thesis
    by (intro conjI s exI [of _ out]) (use assms(2) in \<open>auto simp: server_result_bind_def st1 split: if_splits\<close>)
qed

lemma server_transmit_init_frame:
  assumes "server_transmit_init cfg sock user True st = (Some a, st')"
  shows "a = next_addr st \<and> (\<exists>out. st' = st\<lparr>queues := (queues st)(a \<mapsto> []), next_addr := Suc a,
     queue_map := (queue_map st)(user \<mapsto> a), sv_out := out\<rparr>)"
proof (cases "tcp cfg \<or> orbit cfg")
  case True
  with assms show ?thesis by (auto simp: server_transmit_init_def reply_def Let_def)
next
  case False
  with assms have "a = next_addr st \<and> st' = st\<lparr>queues := (queues st)(a \<mapsto> []), next_addr := Suc a,
      queue_map := (queue_map st)(user \<mapsto> a), sv_out := sv_out st\<rparr>"
    by (auto simp: server_transmit_init_def Let_def)
  then show ?thesis by blast
qed

subsection \<open>Slots\<close>

lemma own_step_slots:
  assumes "own_step v cfg user sock s a x y"
  shows "set (popped x) \<subseteq> set (popped y) \<and>
     (slots (srv y) s = slots (srv x) s \<or> slots (srv y) s = None \<or>
      (\<exists>nm \<in> set (popped y). slots (srv y) s = Some (sock, nm)))"
  using assms
proof (cases rule: own_step.cases)
  case (image so name e st)
  with transmit_image_touches [OF image(4)] show ?thesis by simp
next
  case (signal so s' st)
  with transmit_signal_touches [OF signal(3)] show ?thesis by simp
next
  case (disconnect so st)
  then show ?thesis by (auto simp: transmit_disconnect_def sem_post_at_def split: option.splits)
next
  case (wake q a' st)
  with result_wait_ready_touches [OF wake(3)] show ?thesis by simp
next
  case (gone q st)
  from gone(3) show ?thesis by (cases rule: result_wait_cases) (use gone in auto)
next
  case (dispatch a' st)
  with result_dispatch_touches [OF dispatch(4)] show ?thesis by auto
next
  case (storm_result a' datagram stack st)
  with result_storm_touches [OF storm_result(4)] show ?thesis by auto
next
  case (child n w stack st)
  with result_child_touches [OF child(3)] show ?thesis by simp
qed

lemma own_step_stays_ended:
  "own_step v cfg user sock s a x y \<Longrightarrow> sess_inv user s a x \<Longrightarrow> rpos x = RGone \<Longrightarrow> rpos y = RGone"
  by (auto elim!: own_step_ended)

end
