(* ===== verification/UsersInv.thy ===== *)
theory UsersInv
  imports UsersFrame
begin

text \<open>
  The invariant of the server with all its users: addresses are fresh and shared by nobody, names
  in use are distinct, and every user's part of the state is a reachable session in the sense of
  \<open>Session\<close>. Each step of one user meets what the sessions of the others rely on.
\<close>

subsection \<open>The invariant\<close>

text \<open>The semaphore of a login and its value; that of a failed one is deleted, and still in \<open>sem_map\<close>.\<close>

fun phase_sem :: "login_phase \<Rightarrow> (nat \<times> nat option) option" where
  "phase_sem LCounted = None"
| "phase_sem (LWait up s) = Some (s, if up then Some 0 else None)"
| "phase_sem (LTransmit up s) = Some (s, if up then Some 0 else None)"
| "phase_sem (LOrphan s a) = Some (s, None)"

definition half_sem :: "(string \<Rightarrow> (int \<times> login_phase) option) \<Rightarrow> string \<Rightarrow> (nat \<times> nat option) option" where
  "half_sem h user = (case h user of None \<Rightarrow> None | Some (_, ph) \<Rightarrow> phase_sem ph)"

fun logins :: "login_phase \<Rightarrow> nat" where
  "logins LCounted = 1"
| "logins (LWait up s) = 1"
| "logins _ = 2"

definition live :: "user_threads \<Rightarrow> bool" where
  "live u \<longleftrightarrow> u_rpos u \<noteq> RGone"

definition addrs_ok :: "'d system \<Rightarrow> bool" where
  "addrs_ok y \<longleftrightarrow>
     distinct (map u_sem (y_users y)) \<and> distinct (map u_queue (y_users y)) \<and>
     (\<forall>u \<in> set (y_users y). u_sem u < next_addr (y_srv y) \<and> u_queue u < next_addr (y_srv y)) \<and>
     (\<forall>nm s n. half_sem (y_half y) nm = Some (s, n) \<longrightarrow> s < next_addr (y_srv y) \<and> s \<notin> u_sem ` set (y_users y) \<and>
        (\<forall>nm' n'. half_sem (y_half y) nm' = Some (s, n') \<longrightarrow> nm' = nm))"

definition names_ok :: "'d system \<Rightarrow> bool" where
  "names_ok y \<longleftrightarrow>
     distinct (map u_name (filter live (y_users y))) \<and>
     (\<forall>u \<in> set (y_users y). live u \<longrightarrow> y_half y (u_name u) = None \<and> user_map (y_srv y) (u_name u) = Some 2) \<and>
     (\<forall>nm k ph. y_half y nm = Some (k, ph) \<longrightarrow> user_map (y_srv y) nm = Some (logins ph)) \<and>
     (\<forall>nm s n. half_sem (y_half y) nm = Some (s, n) \<longrightarrow> sems (y_srv y) s = n \<and> sem_map (y_srv y) nm = Some s) \<and>
     (\<forall>nm. user_map (y_srv y) nm \<noteq> None \<longrightarrow>
        y_half y nm \<noteq> None \<or> (\<exists>u \<in> set (y_users y). live u \<and> u_name u = nm))"

definition slots_ok :: "'d system \<Rightarrow> bool" where
  "slots_ok y \<longleftrightarrow>
     (\<forall>k. k \<notin> u_sem ` set (y_users y) \<longrightarrow> slots (y_srv y) k = None) \<and>
     (\<forall>u \<in> set (y_users y). \<forall>k nm. slots (y_srv y) (u_sem u) = Some (k, nm) \<longrightarrow>
        k = u_sock u \<and> nm \<in> set (u_popped u)) \<and>
     (\<forall>u \<in> set (y_users y). \<not> live u \<longrightarrow> slots (y_srv y) (u_sem u) = None)"

definition sessions_ok :: "('img, 'kp, 'd) vision \<Rightarrow> config \<Rightarrow> 'd system \<Rightarrow> bool" where
  "sessions_ok v cfg y \<longleftrightarrow>
     (\<forall>u \<in> set (y_users y).
        sess_reachable v cfg (u_name u) (u_sock u) (u_sem u) (u_queue u) (session_of (y_srv y) u))"

definition srv_inv :: "('img, 'kp, 'd) vision \<Rightarrow> config \<Rightarrow> 'd system \<Rightarrow> bool" where
  "srv_inv v cfg y \<longleftrightarrow> addrs_ok y \<and> names_ok y \<and> slots_ok y \<and> sessions_ok v cfg y"

lemma srv_inv_start: "srv_inv v cfg (srv_start max_image db dk)"
  by (simp add: srv_inv_def addrs_ok_def names_ok_def slots_ok_def sessions_ok_def srv_start_def half_sem_def
      init_server_def)

text \<open>A session goes on when others step, as long as they leave it alone.\<close>

lemma reachable_others:
  assumes "sess_reachable v cfg (u_name u) (u_sock u) (u_sem u) (u_queue u) (session_of st u)"
    and "live u \<Longrightarrow> same_session (u_name u) (u_sem u) (u_queue u) st st'"
  shows "sess_reachable v cfg (u_name u) (u_sock u) (u_sem u) (u_queue u) (session_of st' u)"
proof -
  have "sess_step v cfg (u_name u) (u_sock u) (u_sem u) (u_queue u) (session_of st u) ((session_of st u)\<lparr>srv := st'\<rparr>)"
    by (rule sess_step.others) (use assms(2) in \<open>auto simp: live_def\<close>)
  then show ?thesis using assms(1) sess_reachable.step session_of_srv by metis
qed

subsection \<open>Logging in keeps the invariant\<close>

lemma half_sem_upd [simp]:
  "half_sem (h(user \<mapsto> (k, ph))) = (half_sem h)(user := phase_sem ph)"
  "half_sem (h(user := None)) = (half_sem h)(user := None)"
  by (auto simp: half_sem_def fun_eq_iff)

lemma half_sem_phase:
  "h user = None \<Longrightarrow> half_sem h user = None"
  "h user = Some (k, ph) \<Longrightarrow> half_sem h user = phase_sem ph"
  by (simp_all add: half_sem_def)

text \<open>A name that is neither logging in nor in use is not in \<open>user_map\<close>.\<close>

lemma unused_name:
  assumes "names_ok x" and "y_half x user = None" and "user_map (y_srv x) user \<in> {None, Some 1}"
  shows "user_map (y_srv x) user = None"
proof (rule ccontr)
  assume "user_map (y_srv x) user \<noteq> None"
  then obtain u where "u \<in> set (y_users x)" "live u" "u_name u = user"
    using assms(1,2) unfolding names_ok_def by blast
  with assms(1) have "user_map (y_srv x) user = Some 2" unfolding names_ok_def by blast
  with assms(3) show False by simp
qed

lemma names_okD:
  assumes "names_ok x" and "u \<in> set (y_users x)" and "live u"
  shows "y_half x (u_name u) = None" "user_map (y_srv x) (u_name u) = Some 2"
  using assms unfolding names_ok_def by blast+

lemma sessions_ok_others:
  assumes "sessions_ok v cfg x"
    and "\<And>u. u \<in> set (y_users x) \<Longrightarrow> live u \<Longrightarrow> same_session (u_name u) (u_sem u) (u_queue u) (y_srv x) st"
  shows "sessions_ok v cfg (x\<lparr>y_srv := st\<rparr>)"
  using assms reachable_others unfolding sessions_ok_def by fastforce

lemma inv_connect_result:
  assumes "srv_inv v cfg x" and "serverThread cfg m sock (y_srv x) = Inr (DoResult user, st)" and "y_half x user = None"
  shows "srv_inv v cfg (x\<lparr>y_srv := st, y_half := (y_half x)(user \<mapsto> (sock, LCounted))\<rparr>)"
proof -
  have inv: "addrs_ok x" "names_ok x" "slots_ok x" "sessions_ok v cfg x" using assms(1) by (simp_all add: srv_inv_def)
  have n: "user_map (y_srv x) user = None"
    using unused_name [OF inv(2) assms(3)] serverThread_counts [OF assms(2)] by blast
  then have st: "st = y_srv x\<lparr>user_map := (user_map (y_srv x))(user \<mapsto> 1)\<rparr>"
    using serverThread_counts [OF assms(2)] by simp
  have nm: "u_name u \<noteq> user" if "u \<in> set (y_users x)" "live u" for u
    using names_okD [OF inv(2) that] n by auto
  have h: "half_sem (y_half x) user = None" using assms(3) by (rule half_sem_phase)
  then have h': "(half_sem (y_half x))(user := None) = half_sem (y_half x)" by auto
  have "addrs_ok (x\<lparr>y_srv := st, y_half := (y_half x)(user \<mapsto> (sock, LCounted))\<rparr>)"
    using inv(1) unfolding addrs_ok_def by (simp add: st h')
  moreover have "names_ok (x\<lparr>y_srv := st, y_half := (y_half x)(user \<mapsto> (sock, LCounted))\<rparr>)"
    using inv(2) nm unfolding names_ok_def by (auto simp: st h')
  moreover have "slots_ok (x\<lparr>y_srv := st, y_half := (y_half x)(user \<mapsto> (sock, LCounted))\<rparr>)"
    using inv(3) unfolding slots_ok_def by (simp add: st)
  moreover have "sessions_ok v cfg (x\<lparr>y_srv := st\<rparr>)"
    by (rule sessions_ok_others [OF inv(4)]) (use nm in \<open>auto simp: st same_session_def\<close>)
  ultimately show ?thesis by (simp add: srv_inv_def sessions_ok_def)
qed

lemma inv_init_result:
  assumes "srv_inv v cfg x" and "y_half x user = Some (sock, LCounted)"
    and "server_result_init cfg sock user True (y_srv x) = Inr (s, st1)" and "server_result_bind cfg ok s st1 = (up, st)"
  shows "srv_inv v cfg (x\<lparr>y_srv := st, y_half := (y_half x)(user \<mapsto> (sock, LWait up s)), y_port := p\<rparr>)"
    (is "srv_inv v cfg ?y")
proof -
  have inv: "addrs_ok x" "names_ok x" "slots_ok x" "sessions_ok v cfg x" using assms(1) by (simp_all add: srv_inv_def)
  from server_result_begin_frame [OF assms(3,4)] obtain out where s: "s = next_addr (y_srv x)"
    and st: "st = y_srv x\<lparr>sems := (sems (y_srv x))(s := if up then Some 0 else None), next_addr := Suc s,
      sem_map := (sem_map (y_srv x))(user \<mapsto> s), sv_out := out\<rparr>"
    by blast
  have nm: "u_name u \<noteq> user" if "u \<in> set (y_users x)" "live u" for u
    using names_okD [OF inv(2) that] assms(2) by auto
  have old: "u_sem u < s" "u_queue u < s" if "u \<in> set (y_users x)" for u
    using inv(1) that unfolding addrs_ok_def s by blast+
  have hold: "k < s" if "half_sem (y_half x) nm = Some (k, n)" for nm k n
    using inv(1) that unfolding addrs_ok_def s by blast
  have um: "user_map (y_srv x) user = Some 1" using inv(2) assms(2) unfolding names_ok_def by fastforce
  have "addrs_ok ?y"
    unfolding addrs_ok_def
  proof (intro conjI)
    show "\<forall>nm k n. half_sem (y_half ?y) nm = Some (k, n) \<longrightarrow>
        k < next_addr (y_srv ?y) \<and>
        k \<notin> u_sem ` set (y_users ?y) \<and>
        (\<forall>nm' n'. half_sem (y_half ?y) nm' = Some (k, n') \<longrightarrow> nm' = nm)"
      using inv(1) old hold unfolding addrs_ok_def by (simp add: st) (metis less_SucI less_irrefl imageE)
  qed (use inv(1) old in \<open>auto simp: addrs_ok_def st s less_Suc_eq\<close>)
  moreover have "names_ok ?y"
    using inv(2) nm hold um unfolding names_ok_def by (auto simp: st)
  moreover have "slots_ok ?y"
    using inv(3) unfolding slots_ok_def by (simp add: st)
  moreover have "sessions_ok v cfg (x\<lparr>y_srv := st\<rparr>)"
    by (rule sessions_ok_others [OF inv(4)]) (use nm old in \<open>fastforce simp: st same_session_def\<close>)
  ultimately show ?thesis by (simp add: srv_inv_def sessions_ok_def)
qed

lemma inv_connect_transmit:
  assumes "srv_inv v cfg x" and "y_half x user = Some (sock, LWait up s)"
    and "serverThread cfg m tsock (y_srv x) = Inr (DoTransmit user, st)"
  shows "srv_inv v cfg (x\<lparr>y_srv := st, y_half := (y_half x)(user \<mapsto> (sock, LTransmit up s))\<rparr>)"
proof -
  have inv: "addrs_ok x" "names_ok x" "slots_ok x" "sessions_ok v cfg x" using assms(1) by (simp_all add: srv_inv_def)
  have um: "user_map (y_srv x) user = Some 1" using inv(2) assms(2) unfolding names_ok_def by fastforce
  then have st: "st = y_srv x\<lparr>user_map := (user_map (y_srv x))(user \<mapsto> 2)\<rparr>"
    using serverThread_counts [OF assms(3)] by simp
  have nm: "u_name u \<noteq> user" if "u \<in> set (y_users x)" "live u" for u
    using names_okD [OF inv(2) that] um by auto
  have h: "half_sem (y_half x) user = phase_sem (LTransmit up s)" using half_sem_phase(2) [of "y_half x", OF assms(2)] by simp
  then have h': "half_sem ((y_half x)(user \<mapsto> (sock, LTransmit up s))) = half_sem (y_half x)"
    unfolding half_sem_upd by (metis fun_upd_triv)
  have "addrs_ok (x\<lparr>y_srv := st, y_half := (y_half x)(user \<mapsto> (sock, LTransmit up s))\<rparr>)"
    using inv(1) unfolding addrs_ok_def by (simp add: st h' del: half_sem_upd)
  moreover have "names_ok (x\<lparr>y_srv := st, y_half := (y_half x)(user \<mapsto> (sock, LTransmit up s))\<rparr>)"
    using inv(2) nm unfolding names_ok_def by (auto simp: st h' simp del: half_sem_upd)
  moreover have "slots_ok (x\<lparr>y_srv := st, y_half := (y_half x)(user \<mapsto> (sock, LTransmit up s))\<rparr>)"
    using inv(3) unfolding slots_ok_def by (simp add: st)
  moreover have "sessions_ok v cfg (x\<lparr>y_srv := st\<rparr>)"
    by (rule sessions_ok_others [OF inv(4)]) (use nm in \<open>auto simp: st same_session_def\<close>)
  ultimately show ?thesis by (simp add: srv_inv_def sessions_ok_def)
qed

text \<open>An orphan's transmit thread enters a queue that no session uses.\<close>

lemma inv_init_orphan:
  assumes "srv_inv v cfg x" and "y_half x user = Some (sock, LTransmit False s)"
    and "server_transmit_init cfg tsock user True (y_srv x) = (Some a, st)"
  shows "srv_inv v cfg (x\<lparr>y_srv := st, y_half := (y_half x)(user \<mapsto> (sock, LOrphan s a))\<rparr>)" (is "srv_inv v cfg ?y")
proof -
  have inv: "addrs_ok x" "names_ok x" "slots_ok x" "sessions_ok v cfg x" using assms(1) by (simp_all add: srv_inv_def)
  from server_transmit_init_frame [OF assms(3)] obtain out where a: "a = next_addr (y_srv x)"
    and st: "st = y_srv x\<lparr>queues := (queues (y_srv x))(a \<mapsto> []), next_addr := Suc a,
      queue_map := (queue_map (y_srv x))(user \<mapsto> a), sv_out := out\<rparr>" by blast
  have h: "half_sem (y_half x) user = phase_sem (LOrphan s a)" using half_sem_phase(2) [of "y_half x", OF assms(2)] by simp
  then have h': "half_sem ((y_half x)(user \<mapsto> (sock, LOrphan s a))) = half_sem (y_half x)"
    unfolding half_sem_upd by (metis fun_upd_triv)
  have um: "user_map (y_srv x) user = Some 2" using inv(2) assms(2) unfolding names_ok_def by fastforce
  have nm: "u_name u \<noteq> user" if "u \<in> set (y_users x)" "live u" for u
    using names_okD [OF inv(2) that] assms(2) by auto
  have old: "u_sem u < a" "u_queue u < a" if "u \<in> set (y_users x)" for u
    using inv(1) that unfolding addrs_ok_def a by blast+
  have lt: "k < Suc a" if "k < next_addr (y_srv x)" for k using that a by simp
  have "addrs_ok ?y"
    using inv(1) unfolding addrs_ok_def by (simp add: st h' lt del: half_sem_upd)
  moreover have "names_ok ?y"
    using inv(2) nm um unfolding names_ok_def by (auto simp: st h' simp del: half_sem_upd)
  moreover have "slots_ok ?y"
    using inv(3) unfolding slots_ok_def by (simp add: st)
  moreover have "sessions_ok v cfg (x\<lparr>y_srv := st\<rparr>)"
    by (rule sessions_ok_others [OF inv(4)]) (use nm old in \<open>fastforce simp: st same_session_def\<close>)
  ultimately show ?thesis by (simp add: srv_inv_def sessions_ok_def)
qed

text \<open>The new session starts where \<open>Session\<close> says.\<close>

lemma inv_init_transmit:
  assumes "srv_inv v cfg x" and "y_half x user = Some (sock, LTransmit True s)"
    and "server_transmit_init cfg tsock user True (y_srv x) = (Some a, st)"
  shows "srv_inv v cfg (x\<lparr>y_srv := st, y_half := (y_half x)(user := None),
                          y_users := y_users x @ [new_user user sock s a]\<rparr>)" (is "srv_inv v cfg ?y")
proof -
  have inv: "addrs_ok x" "names_ok x" "slots_ok x" "sessions_ok v cfg x" using assms(1) by (simp_all add: srv_inv_def)
  from server_transmit_init_frame [OF assms(3)] obtain out where a: "a = next_addr (y_srv x)"
    and st: "st = y_srv x\<lparr>queues := (queues (y_srv x))(a \<mapsto> []), next_addr := Suc a,
      queue_map := (queue_map (y_srv x))(user \<mapsto> a), sv_out := out\<rparr>" by blast
  have h: "half_sem (y_half x) user = Some (s, Some 0)" using half_sem_phase(2) [of "y_half x", OF assms(2)] by simp
  have um: "user_map (y_srv x) user = Some 2" using inv(2) assms(2) unfolding names_ok_def by fastforce
  have nm: "u_name u \<noteq> user" if "u \<in> set (y_users x)" "live u" for u
    using names_okD [OF inv(2) that] assms(2) by auto
  have old: "u_sem u < a" "u_queue u < a" if "u \<in> set (y_users x)" for u
    using inv(1) that unfolding addrs_ok_def a by blast+
  have s: "s < a" "s \<notin> u_sem ` set (y_users x)" "\<And>nm n. half_sem (y_half x) nm = Some (s, n) \<Longrightarrow> nm = user"
    using inv(1) h unfolding addrs_ok_def a by blast+
  have sm: "sems (y_srv x) s = Some 0" "sem_map (y_srv x) user = Some s"
    using inv(2) h unfolding names_ok_def by blast+
  have sl: "slots (y_srv x) s = None" using inv(3) s(2) unfolding slots_ok_def by blast
  have "addrs_ok ?y"
    unfolding addrs_ok_def
  proof (intro conjI)
    show "\<forall>nm k n. half_sem (y_half ?y) nm = Some (k, n) \<longrightarrow> k < next_addr (y_srv ?y) \<and> k \<notin> u_sem ` set (y_users ?y) \<and>
        (\<forall>nm' n'. half_sem (y_half ?y) nm' = Some (k, n') \<longrightarrow> nm' = nm)"
      using inv(1) s a unfolding addrs_ok_def by (auto simp: st less_Suc_eq)
  qed (use inv(1) old s a in \<open>force simp: addrs_ok_def st less_Suc_eq\<close>)+
  moreover have "names_ok ?y"
    using inv(2) nm um unfolding names_ok_def by (auto simp: st live_def)
  moreover have "slots_ok ?y"
    using inv(3) sl unfolding slots_ok_def by (auto simp: st)
  moreover have "sessions_ok v cfg (x\<lparr>y_srv := st\<rparr>)"
    by (rule sessions_ok_others [OF inv(4)]) (use nm old in \<open>fastforce simp: st same_session_def\<close>)
  moreover have "sess_start user s a (session_of st (new_user user sock s a))"
    using sm by (simp add: sess_start_def st)
  ultimately show ?thesis
    by (auto simp: srv_inv_def sessions_ok_def intro: sess_reachable.start)
qed

lemma inv_rejected:
  assumes "srv_inv v cfg x" and "serverThread cfg m sock (y_srv x) = Inr (Rejected, st)"
  shows "srv_inv v cfg (x\<lparr>y_srv := st\<rparr>)"
proof -
  have inv: "addrs_ok x" "names_ok x" "slots_ok x" "sessions_ok v cfg x" using assms(1) by (simp_all add: srv_inv_def)
  have st: "st = reply sock (''failed'' @ [NUL]) (y_srv x)" using assms(2) by (rule serverThread_Rejected)
  have "sessions_ok v cfg (x\<lparr>y_srv := st\<rparr>)"
    by (rule sessions_ok_others [OF inv(4)]) (simp add: st reply_def same_session_def)
  with inv(1-3) show ?thesis
    by (simp add: srv_inv_def st reply_def addrs_ok_def names_ok_def slots_ok_def)
qed

subsection \<open>The threads keep the invariant\<close>

text \<open>What holds between the user who steps and any other entry of the list.\<close>

lemma apart:
  assumes "addrs_ok x" and "names_ok x" and "i < length (y_users x)" and "j < length (y_users x)" and "j \<noteq> i"
  shows "u_sem (y_users x ! j) \<noteq> u_sem (y_users x ! i)" "u_queue (y_users x ! j) \<noteq> u_queue (y_users x ! i)"
    "live (y_users x ! i) \<Longrightarrow> live (y_users x ! j) \<Longrightarrow> u_name (y_users x ! j) \<noteq> u_name (y_users x ! i)"
proof -
  have d: "distinct (map u_sem (y_users x))" "distinct (map u_queue (y_users x))"
    "distinct (map u_name (filter live (y_users x)))"
    using assms(1,2) unfolding addrs_ok_def names_ok_def by blast+
  show "u_sem (y_users x ! j) \<noteq> u_sem (y_users x ! i)" "u_queue (y_users x ! j) \<noteq> u_queue (y_users x ! i)"
    using d(1,2) assms(3-5) nth_eq_iff_index_eq [of "map u_sem (y_users x)" i j]
      nth_eq_iff_index_eq [of "map u_queue (y_users x)" i j] by auto
  show "u_name (y_users x ! j) \<noteq> u_name (y_users x ! i)" if "live (y_users x ! i)" "live (y_users x ! j)"
    using filter_names_index [OF d(3) assms(4,3) that(2,1)] assms(5) by blast
qed

lemma touches_only_others:
  assumes "touches_only user s a st st'" and "s' \<noteq> s" and "a' \<noteq> a" and "user' \<noteq> user \<or> same_maps st st'"
  shows "same_session user' s' a' st st'"
  using assms unfolding touches_only_def same_session_def same_maps_def by metis

lemma srv_invD:
  assumes "srv_inv v cfg x"
  shows "addrs_ok x" "names_ok x" "slots_ok x" "sessions_ok v cfg x"
  using assms by (simp_all add: srv_inv_def)

lemma srv_inv_session:
  "srv_inv v cfg x \<Longrightarrow> u \<in> set (y_users x) \<Longrightarrow>
     sess_inv (u_name u) (u_sem u) (u_queue u) (session_of (y_srv x) u)"
  using sess_reachable_inv unfolding srv_inv_def sessions_ok_def by blast

lemma user_step_touches:
  assumes "srv_inv v cfg x" and "u \<in> set (y_users x)" and "user_step v cfg u (session_of (y_srv x) u) z"
  shows "touches_only (u_name u) (u_sem u) (u_queue u) (y_srv x) (srv z)"
    and "live (threads_of u z) \<Longrightarrow> live u"
    and "(live u \<Longrightarrow> live (threads_of u z)) \<Longrightarrow> same_maps (y_srv x) (srv z)"
    and "live u \<Longrightarrow> \<not> live (threads_of u z) \<Longrightarrow> user_map (srv z) (u_name u) = None"
    and "live u \<Longrightarrow> \<not> live (threads_of u z) \<Longrightarrow> slots (srv z) (u_sem u) = None"
  using own_step_touches [OF assms(3) srv_inv_session [OF assms(1,2)]]
    own_step_stays_ended [OF assms(3) srv_inv_session [OF assms(1,2)]]
  by (auto simp: live_def split: if_splits)

lemma user_step_others:
  assumes "srv_inv v cfg x" and "i < length (y_users x)" and "u = y_users x ! i"
    and "user_step v cfg u (session_of (y_srv x) u) z" and "j < length (y_users x)" and "j \<noteq> i" and "live (y_users x ! j)"
  shows "same_session (u_name (y_users x ! j)) (u_sem (y_users x ! j)) (u_queue (y_users x ! j)) (y_srv x) (srv z)"
proof -
  have u: "u \<in> set (y_users x)" using assms(2,3) by simp
  note ap = apart [OF srv_invD(1,2) [OF assms(1)] assms(2,5,6), folded assms(3)]
  note t = user_step_touches [OF assms(1) u assms(4)]
  show ?thesis
    by (rule touches_only_others [OF t(1) ap(1,2)]) (use ap(3) assms(7) t(3) in blast)
qed

text \<open>The four parts of the invariant after a step of one user's threads.\<close>

lemma addrs_threads:
  assumes "addrs_ok x" and "i < length (y_users x)" and "u = y_users x ! i" and "next_addr (srv z) = next_addr (y_srv x)"
  shows "addrs_ok (x\<lparr>y_srv := srv z, y_users := (y_users x)[i := threads_of u z], y_lost := n\<rparr>)"
proof -
  have m: "map u_sem ((y_users x)[i := threads_of u z]) = map u_sem (y_users x)"
    "map u_queue ((y_users x)[i := threads_of u z]) = map u_queue (y_users x)"
    using assms(3) by (simp_all add: map_update_same)
  have s: "u_sem ` set ((y_users x)[i := threads_of u z]) = u_sem ` set (y_users x)"
    "u_queue ` set ((y_users x)[i := threads_of u z]) = u_queue ` set (y_users x)"
    using m by (metis set_map)+
  have "\<forall>w \<in> set ((y_users x)[i := threads_of u z]). u_sem w < next_addr (y_srv x) \<and> u_queue w < next_addr (y_srv x)"
    using assms(1-3) set_update_subset_insert [of "y_users x" i "threads_of u z"] nth_mem [OF assms(2)]
    unfolding addrs_ok_def by fastforce
  with assms(1,4) m s show ?thesis unfolding addrs_ok_def by simp
qed

lemma slots_threads:
  assumes "srv_inv v cfg x" and "i < length (y_users x)" and "u = y_users x ! i"
    and "user_step v cfg u (session_of (y_srv x) u) z"
  shows "slots_ok (x\<lparr>y_srv := srv z, y_users := (y_users x)[i := threads_of u z], y_lost := n\<rparr>)"
proof -
  note inv = srv_invD [OF assms(1)]
  have u: "u \<in> set (y_users x)" using assms(2,3) by simp
  have t: "slots (srv z) k = slots (y_srv x) k" if "k \<noteq> u_sem u" for k
    using user_step_touches(1) [OF assms(1) u assms(4)] that unfolding touches_only_def by blast
  have s: "u_sem ` set ((y_users x)[i := threads_of u z]) = u_sem ` set (y_users x)"
    using map_update_same [of u_sem "threads_of u z" "y_users x" i] assms(3) by (simp flip: set_map)
  have 1: "slots (srv z) k = None" if "k \<notin> u_sem ` set (y_users x)" for k
    using inv(3) that u t [of k] unfolding slots_ok_def by auto
  have 2: "k = u_sock w \<and> nm \<in> set (u_popped w)"
    if w: "w \<in> set ((y_users x)[i := threads_of u z])" and k: "slots (srv z) (u_sem w) = Some (k, nm)" for w k nm
  proof -
    from w obtain j where j: "j < length (y_users x)" "w = (y_users x)[i := threads_of u z] ! j"
      by (auto simp: in_set_conv_nth)
    show ?thesis
    proof (cases "j = i")
      case True
      then have w: "w = threads_of u z" using j by simp
      have old: "k = u_sock u \<and> nm \<in> set (u_popped u)" if "slots (y_srv x) (u_sem u) = Some (k, nm)"
        using inv(3) u that unfolding slots_ok_def by blast
      with own_step_slots [OF assms(4)] k show ?thesis unfolding w by auto
    next
      case False
      then have w: "w = y_users x ! j" using j by simp
      with j apart(1) [OF inv(1,2) assms(2) j(1) False] t [of "u_sem w"] inv(3) k assms(3)
      show ?thesis unfolding slots_ok_def by (metis nth_mem)
    qed
  qed
  have 3: "slots (srv z) (u_sem w) = None" if w: "w \<in> set ((y_users x)[i := threads_of u z])" "\<not> live w" for w
  proof -
    from w(1) obtain j where j: "j < length (y_users x)" "w = (y_users x)[i := threads_of u z] ! j"
      by (auto simp: in_set_conv_nth)
    show ?thesis
    proof (cases "j = i")
      case True
      then have w': "w = threads_of u z" using j by simp
      show ?thesis
      proof (cases "live u")
        case True
        with user_step_touches(5) [OF assms(1) u assms(4)] w(2) w' show ?thesis by simp
      next
        case False
        then have "rpos (session_of (y_srv x) u) = RGone" by (simp add: live_def)
        from own_step_ended [OF assms(4) srv_inv_session [OF assms(1) u] this] obtain c ok stack st
          where c: "result_child v cfg (u_sem u) ok stack (y_srv x) = Inr st" "z = session_of (y_srv x) u\<lparr>srv := st, children := c\<rparr>"
          by (metis session_of_sel(1))
        from result_child_touches [OF c(1)] have "slots (srv z) = slots (y_srv x)" by (simp add: c(2))
        then show ?thesis using inv(3) u False unfolding slots_ok_def w' by simp
      qed
    next
      case False
      then have w': "w = y_users x ! j" using j by simp
      then have "u_sem w \<noteq> u_sem u" using apart(1) [OF inv(1,2) assms(2) j(1) False] assms(3) by simp
      from t [OF this] have "slots (srv z) (u_sem w) = slots (y_srv x) (u_sem w)" .
      moreover have "w \<in> set (y_users x)" using w' j(1) by simp
      ultimately show ?thesis using inv(3) w(2) unfolding slots_ok_def by simp
    qed
  qed
  from 1 2 3 s show ?thesis unfolding slots_ok_def by simp
qed

lemma sessions_threads:
  assumes "srv_inv v cfg x" and "i < length (y_users x)" and "u = y_users x ! i"
    and "user_step v cfg u (session_of (y_srv x) u) z"
  shows "sessions_ok v cfg (x\<lparr>y_srv := srv z, y_users := (y_users x)[i := threads_of u z], y_lost := n\<rparr>)"
  unfolding sessions_ok_def
proof
  fix w assume "w \<in> set (y_users (x\<lparr>y_srv := srv z, y_users := (y_users x)[i := threads_of u z], y_lost := n\<rparr>))"
  then obtain j where j: "j < length (y_users x)" "w = (y_users x)[i := threads_of u z] ! j"
    by (auto simp: in_set_conv_nth)
  note s = srv_invD(4) [OF assms(1)]
  have "sess_reachable v cfg (u_name w) (u_sock w) (u_sem w) (u_queue w) (session_of (srv z) w)"
  proof (cases "j = i")
    case True
    then have w: "w = threads_of u z" using j by simp
    have "u \<in> set (y_users x)" using assms(2,3) by simp
    with s have "sess_reachable v cfg (u_name u) (u_sock u) (u_sem u) (u_queue u) (session_of (y_srv x) u)"
      unfolding sessions_ok_def by blast
    from sess_reachable.step [OF this sess_step.own [OF assms(4)]] show ?thesis unfolding w by simp
  next
    case False
    then have w: "w = y_users x ! j" using j by simp
    have "sess_reachable v cfg (u_name w) (u_sock w) (u_sem w) (u_queue w) (session_of (y_srv x) w)"
      using s j(1) unfolding sessions_ok_def w by simp
    then show ?thesis
      by (rule reachable_others) (use user_step_others [OF assms j(1) False] w in simp)
  qed
  then show "sess_reachable v cfg (u_name w) (u_sock w) (u_sem w) (u_queue w)
      (session_of (y_srv (x\<lparr>y_srv := srv z, y_users := (y_users x)[i := threads_of u z], y_lost := n\<rparr>)) w)" by simp
qed

lemma names_threads:
  assumes "srv_inv v cfg x" and "i < length (y_users x)" and "u = y_users x ! i"
    and "user_step v cfg u (session_of (y_srv x) u) z"
  shows "names_ok (x\<lparr>y_srv := srv z, y_users := (y_users x)[i := threads_of u z], y_lost := n\<rparr>)" (is "names_ok ?y")
proof -
  note inv = srv_invD [OF assms(1)]
  have u: "u \<in> set (y_users x)" using assms(2,3) by simp
  note t = user_step_touches [OF assms(1) u assms(4)]
  have um: "user_map (srv z) nm = user_map (y_srv x) nm" "sem_map (srv z) nm = sem_map (y_srv x) nm"
    if "nm \<noteq> u_name u \<or> (live u \<longrightarrow> live (threads_of u z))" for nm
    using that t(1,3) unfolding touches_only_def same_maps_def by auto
  have other: "\<exists>j < length (y_users x). w = y_users x ! j \<and> j \<noteq> i"
    if "w \<in> set ((y_users x)[i := threads_of u z])" "w \<noteq> threads_of u z" for w
  proof -
    from that(1) obtain j where j: "j < length (y_users x)" "w = (y_users x)[i := threads_of u z] ! j"
      by (auto simp: in_set_conv_nth)
    moreover have "j \<noteq> i" using j that(2) by auto
    ultimately show ?thesis by (intro exI [of _ j]) simp
  qed
  have half: "nm \<noteq> u_name u \<or> \<not> live u" if "y_half x nm \<noteq> None" for nm
    using names_okD(1) [OF inv(2) u] that by auto
  have d: "distinct (map u_name (filter live (y_users ?y)))"
    using inv(2) assms(2,3) t(2) unfolding names_ok_def by (auto intro: filter_names_update)
  have 1: "y_half x (u_name w) = None \<and> user_map (srv z) (u_name w) = Some 2"
    if w: "w \<in> set ((y_users x)[i := threads_of u z])" "live w" for w
  proof (cases "w = threads_of u z")
    case True
    with w(2) t(2) have "live u" "live (threads_of u z)" by blast+
    with um [of "u_name u"] names_okD [OF inv(2) u] True show ?thesis by simp
  next
    case False
    with other [OF w(1)] obtain j where j: "j < length (y_users x)" "w = y_users x ! j" "j \<noteq> i" by blast
    have "u_name w \<noteq> u_name u \<or> \<not> live u"
      using apart(3) [OF inv(1,2) assms(2) j(1,3)] w(2) j(2) assms(3) by blast
    with um [of "u_name w"] t(2) j w(2) names_okD [OF inv(2), of w] show ?thesis by (metis nth_mem)
  qed
  have 2: "user_map (srv z) nm = Some (logins ph)" if "y_half x nm = Some (k, ph)" for nm k ph
    using inv(2) that half [of nm] um [of nm] t(2) unfolding names_ok_def by fastforce
  have 3: "sems (srv z) s = k \<and> sem_map (srv z) nm = Some s" if hs: "half_sem (y_half x) nm = Some (s, k)" for nm s k
  proof -
    have "y_half x nm \<noteq> None" using hs half_sem_phase(1) [of "y_half x" nm] by fastforce
    moreover have "s \<noteq> u_sem u" using inv(1) hs u unfolding addrs_ok_def by blast
    ultimately show ?thesis
      using inv(2) hs half [of nm] um [of nm] t(1,2) unfolding names_ok_def touches_only_def by metis
  qed
  have 4: "y_half x nm \<noteq> None \<or> (\<exists>w \<in> set ((y_users x)[i := threads_of u z]). live w \<and> u_name w = nm)"
    if nm: "user_map (srv z) nm \<noteq> None" for nm
  proof (rule ccontr)
    assume no: "\<not> ?thesis"
    then have me: "\<not> (live (threads_of u z) \<and> u_name u = nm)"
      using set_update_memI [OF assms(2), of "threads_of u z"] by auto
    have "user_map (y_srv x) nm \<noteq> None"
      using um [of nm] t(4) nm by (cases "nm = u_name u \<and> live u \<and> \<not> live (threads_of u z)") auto
    with inv(2) no obtain w where w: "w \<in> set (y_users x)" "live w" "u_name w = nm"
      unfolding names_ok_def by blast
    then obtain j where j: "j < length (y_users x)" "w = y_users x ! j" by (auto simp: in_set_conv_nth)
    have "j = i"
    proof (rule ccontr)
      assume "j \<noteq> i"
      with j have "w \<in> set ((y_users x)[i := threads_of u z])" by (metis length_list_update nth_list_update_neq nth_mem)
      with no w show False by blast
    qed
    with j w assms(3) have "live u" "u_name u = nm" by simp_all
    with me t(4) nm show False by auto
  qed
  show ?thesis unfolding names_ok_def using d 1 2 3 4 by simp
qed

theorem srv_step_inv:
  assumes "srv_step v cfg x y" and "srv_inv v cfg x"
  shows "srv_inv v cfg y"
  using assms(1)
proof (cases rule: srv_step.cases)
  case connect_result
  with inv_connect_result [OF assms(2)] show ?thesis by simp
next
  case init_result
  with inv_init_result [OF assms(2)] show ?thesis by simp
next
  case connect_transmit
  with inv_connect_transmit [OF assms(2)] show ?thesis by simp
next
  case init_orphan
  with inv_init_orphan [OF assms(2)] show ?thesis by simp
next
  case init_transmit
  with inv_init_transmit [OF assms(2)] show ?thesis by simp
next
  case rejected
  with inv_rejected [OF assms(2)] show ?thesis by simp
next
  case (threads i u z)
  note t = assms(2) threads(2-4)
  have "u \<in> set (y_users x)" using threads(2,3) by simp
  from user_step_touches(1) [OF assms(2) this threads(4)] have "next_addr (srv z) = next_addr (y_srv x)"
    by (simp add: touches_only_def)
  with addrs_threads [OF srv_invD(1) [OF assms(2)] threads(2,3)] names_threads [OF t] slots_threads [OF t]
    sessions_threads [OF t] show ?thesis by (simp add: srv_inv_def threads(1))
qed

theorem srv_reachable_inv: "srv_reachable v cfg m x \<Longrightarrow> srv_inv v cfg x"
  by (induction rule: srv_reachable.induct) (auto intro: srv_inv_start srv_step_inv)

end
