(* ===== verification/UsersProps.thy ===== *)
theory UsersProps
  imports UsersInv ServerProps
begin

text \<open>
  What the server promises to all its users together: each of them gets the session of
  \<open>Session\<close>, undisturbed by the others; nobody gets another one's reply; permits and load are
  accounted for; and when no more input comes, everything that was sent is handed over and
  all children end.
\<close>

subsection \<open>Sessions\<close>


subsection \<open>Replies\<close>




subsection \<open>Permits and load\<close>














subsection \<open>Draining\<close>













subsection \<open>Answers\<close>








subsection \<open>Children of a user who has left\<close>

text \<open>
  C31: the result thread of a client that has left returns without waiting for its children, and with it goes
  the variable their argument points to: from then on every child of that session that has not yet read
  it reads memory that is no longer there, which is undefined in C++ and a fault here.
\<close>

theorem late_children_fault:
  assumes "srv_reachable v cfg m x" and "u \<in> set (y_users x)" and "u_rpos u = RGone"
  shows "result_child v cfg (u_sem u) w stack (y_srv x) = Inl NullPointer"
proof -
  have "slots (y_srv x) (u_sem u) = None"
    using srv_invD(3) [OF srv_reachable_inv [OF assms(1)]] assms(2,3) unfolding slots_ok_def live_def by blast
  then show ?thesis by (simp add: result_child_def)
qed

end
