(* ===== verification/Logins.thy ===== *)
theory Logins
  imports UsersInv ServerProps
begin

text \<open>
  A login of \<open>Users\<close> step by step, under a free name: to a session, or to an orphan where the result
  thread cannot bind its socket.
\<close>

definition logged_in :: "bool \<Rightarrow> string \<Rightarrow> int \<Rightarrow> 'd server \<Rightarrow> 'd server" where
  "logged_in up user k st =
     (let s = next_addr st
      in st\<lparr>user_map := (user_map st)(user \<mapsto> 2), sems := (sems st)(s := if up then Some 0 else None),
            next_addr := Suc s, sem_map := (sem_map st)(user \<mapsto> s), sv_out := sv_out st @ [(k, ok_msg)]\<rparr>)"

definition transmit_up :: "string \<Rightarrow> int \<Rightarrow> 'd server \<Rightarrow> 'd server" where
  "transmit_up user k st =
     (let a = next_addr st
      in st\<lparr>queues := (queues st)(a \<mapsto> []), next_addr := Suc a, queue_map := (queue_map st)(user \<mapsto> a),
            sv_out := sv_out st @ [(k, ok_msg)]\<rparr>)"

lemma server_transmit_init_up:
  "tcp cfg \<or> orbit cfg \<Longrightarrow> server_transmit_init cfg k user True st = (Some (next_addr st), transmit_up user k st)"
  by (auto simp: server_transmit_init_def transmit_up_def reply_def Let_def)

text \<open>Three of the four steps of a login under a free name; \<open>up\<close> tells whether the socket could be bound.\<close>

lemma login_steps:
  assumes "is_field user" and "length user < 90" and "tcp cfg \<or> orbit cfg"
    and "user_map (y_srv x) user = None" and "y_half x user = None"
    and "storm cfg \<and> y_port x \<longrightarrow> \<not> ok" and "up = (storm cfg \<longrightarrow> ok)"
  shows "(srv_step v cfg ^^ 3) x (x\<lparr>y_srv := logged_in up user k (y_srv x),
     y_half := (y_half x)(user \<mapsto> (k, LTransmit up (next_addr (y_srv x)))), y_port := y_port x \<or> storm cfg \<and> up\<rparr>)"
proof -
  have f: "is_field ''result''" "is_field ''transmit''" by (simp_all add: is_field_def)
  let ?s = "next_addr (y_srv x)"
  let ?st1 = "(y_srv x)\<lparr>user_map := (user_map (y_srv x))(user \<mapsto> 1)\<rparr>"
  let ?st2 = "?st1\<lparr>sems := (sems (y_srv x))(?s \<mapsto> 0), next_addr := Suc ?s, sem_map := (sem_map (y_srv x))(user \<mapsto> ?s),
    sv_out := sv_out (y_srv x) @ [(k, ok_msg)]\<rparr>"
  let ?st3 = "?st2\<lparr>sems := (sems (y_srv x))(?s := if up then Some 0 else None)\<rparr>"
  define x1 where "x1 = x\<lparr>y_srv := ?st1, y_half := (y_half x)(user \<mapsto> (k, LCounted))\<rparr>"
  define x2 where "x2 = x1\<lparr>y_srv := ?st3, y_half := (y_half x1)(user \<mapsto> (k, LWait up ?s)), y_port := y_port x1 \<or> storm cfg \<and> up\<rparr>"
  have "serverThread cfg (login_msg ''result'' user) k (y_srv x) = Inr (DoResult user, ?st1)"
    using serverThread_header [OF f(1) assms(1), of cfg k "y_srv x"] assms(2,4) by simp
  from srv_step.connect_result [OF this assms(5)] have 1: "srv_step v cfg x x1" unfolding x1_def .
  have "server_result_init cfg k user True (y_srv x1) = Inr (?s, ?st2)"
    using assms(3) by (auto simp: x1_def server_result_init_def Let_def reply_def)
  moreover have "server_result_bind cfg ok ?s ?st2 = (up, ?st3)"
    using assms(7) by (simp add: server_result_bind_def)
  ultimately have 2: "srv_step v cfg x1 x2"
    unfolding x2_def by (intro srv_step.init_result) (use assms(6) in \<open>auto simp: x1_def\<close>)
  have "serverThread cfg (login_msg ''transmit'' user) k (y_srv x2) =
      Inr (DoTransmit user, (y_srv x2)\<lparr>user_map := (user_map (y_srv x2))(user \<mapsto> 2)\<rparr>)"
    using serverThread_header [OF f(2) assms(1), of cfg k "y_srv x2"] assms(2) by (simp add: x2_def)
  then have 3: "srv_step v cfg x2 (x2\<lparr>y_srv := (y_srv x2)\<lparr>user_map := (user_map (y_srv x2))(user \<mapsto> 2)\<rparr>,
      y_half := (y_half x2)(user \<mapsto> (k, LTransmit up ?s))\<rparr>)"
    by (intro srv_step.connect_transmit) (simp_all add: x2_def)
  have "x2\<lparr>y_srv := (y_srv x2)\<lparr>user_map := (user_map (y_srv x2))(user \<mapsto> 2)\<rparr>,
      y_half := (y_half x2)(user \<mapsto> (k, LTransmit up ?s))\<rparr> =
    x\<lparr>y_srv := logged_in up user k (y_srv x), y_half := (y_half x)(user \<mapsto> (k, LTransmit up ?s)), y_port := y_port x \<or> storm cfg \<and> up\<rparr>"
    by (simp add: x2_def x1_def logged_in_def Let_def)
  with 1 2 3 show ?thesis unfolding numeral_3_eq_3 by (auto intro!: relcomppI)
qed

lemma srv_steps_reachable:
  "(srv_step v cfg)\<^sup>*\<^sup>* x y \<Longrightarrow> srv_reachable v cfg m x \<Longrightarrow> srv_reachable v cfg m y"
  by (induction rule: rtranclp_induct) (auto intro: srv_reachable.step)

text \<open>The whole login, when the socket can be bound or none is needed.\<close>

lemma login_session:
  assumes "is_field user" and "length user < 90" and "tcp cfg \<or> orbit cfg"
    and "user_map (y_srv x) user = None" and "y_half x user = None" and "storm cfg \<longrightarrow> \<not> y_port x"
  shows "(srv_step v cfg ^^ 4) x (x\<lparr>y_srv := transmit_up user k' (logged_in True user k (y_srv x)),
     y_users := y_users x @ [new_user user k (next_addr (y_srv x)) (Suc (next_addr (y_srv x)))],
     y_port := y_port x \<or> storm cfg\<rparr>)"
proof -
  let ?s = "next_addr (y_srv x)"
  define x3 where "x3 = x\<lparr>y_srv := logged_in True user k (y_srv x),
    y_half := (y_half x)(user \<mapsto> (k, LTransmit True ?s)), y_port := y_port x \<or> storm cfg \<and> True\<rparr>"
  have 3: "(srv_step v cfg ^^ 3) x x3"
    unfolding x3_def by (rule login_steps [OF assms(1-5), of True]) (use assms(6) in simp_all)
  have a: "next_addr (y_srv x3) = Suc ?s" by (simp add: x3_def logged_in_def Let_def)
  have "srv_step v cfg x3 (x3\<lparr>y_srv := transmit_up user k' (y_srv x3), y_half := (y_half x3)(user := None),
      y_users := y_users x3 @ [new_user user k ?s (Suc ?s)]\<rparr>)"
    using server_transmit_init_up [OF assms(3), of k' user "y_srv x3"] a
    by (intro srv_step.init_transmit) (simp_all add: x3_def)
  moreover have "x3\<lparr>y_srv := transmit_up user k' (y_srv x3), y_half := (y_half x3)(user := None),
      y_users := y_users x3 @ [new_user user k ?s (Suc ?s)]\<rparr> =
    x\<lparr>y_srv := transmit_up user k' (logged_in True user k (y_srv x)),
      y_users := y_users x @ [new_user user k ?s (Suc ?s)], y_port := y_port x \<or> storm cfg\<rparr>"
    by (rule system.equality) (use assms(5) in \<open>auto simp: x3_def\<close>)
  ultimately show ?thesis
    using relpowp_Suc_I [OF 3] by simp
qed

end
