(* ===== verification/UsersDemo.thy ===== *)
theory UsersDemo
  imports UsersProps Logins
begin

text \<open>
  A run of the whole server: one user logs in, sends an image, gets an answer and leaves. The properties of
  \<open>UsersProps\<close> at its states.
\<close>

subsection \<open>A user of a fresh server\<close>

definition demo_start :: "unit system" where
  "demo_start = srv_start 5 init_statics \<lparr>text_files = (\<lambda>_. None), yml_files = (\<lambda>_. None)\<rparr>"

text \<open>One user has logged in on a server with five permits.\<close>

definition demo_users :: "unit system" where
  "demo_users = demo_start\<lparr>y_srv := (y_srv demo_start)
       \<lparr>user_map := [''u'' \<mapsto> 2], sems := [0 \<mapsto> 0], sem_map := [''u'' \<mapsto> 0], queues := [1 \<mapsto> []],
        queue_map := [''u'' \<mapsto> 1], next_addr := 2, sv_out := [(4, ok_msg), (7, ok_msg)]\<rparr>,
     y_users := [new_user ''u'' 4 0 1]\<rparr>"

lemma demo_users_reachable: "srv_reachable blind demo_cfg 5 demo_users"
proof -
  have x: "user_map (y_srv demo_start) ''u'' = None" "y_half demo_start ''u'' = None"
    by (simp_all add: demo_start_def srv_start_def init_server_def)
  have f: "is_field ''u''" "tcp demo_cfg \<or> orbit demo_cfg" "storm demo_cfg \<longrightarrow> \<not> y_port demo_start"
    by (simp_all add: is_field_def demo_cfg_def)
  have "demo_start\<lparr>y_srv := transmit_up ''u'' 7 (logged_in True ''u'' 4 (y_srv demo_start)),
      y_users := y_users demo_start @ [new_user ''u'' 4 (next_addr (y_srv demo_start)) (Suc (next_addr (y_srv demo_start)))],
      y_port := y_port demo_start \<or> storm demo_cfg\<rparr> = demo_users"
    by (rule system.equality)
      (auto simp: demo_users_def demo_start_def srv_start_def init_server_def transmit_up_def logged_in_def Let_def demo_cfg_def)
  with login_session [OF f(1) _ f(2) x f(3), of blind 4 7]
  have "(srv_step blind demo_cfg ^^ 4) demo_start demo_users" by simp
  from srv_steps_reachable [OF relpowp_imp_rtranclp [OF this]] srv_reachable.start show ?thesis
    unfolding demo_start_def by blast
qed

lemma single_user_run:
  assumes "(own_step v cfg (u_name u) (u_sock u) (u_sem u) (u_queue u))\<^sup>*\<^sup>* (session_of (y_srv x) u) z"
    and "srv_reachable v cfg m x" and "y_users x = [u]"
  shows "\<exists>y. srv_reachable v cfg m y \<and> y_srv y = srv z \<and> y_users y = [threads_of u z]"
  using assms(1)
proof (induction rule: rtranclp_induct)
  case base
  show ?case using assms(2,3) by (intro exI [of _ x]) (simp add: threads_of_def)
next
  case (step z z')
  then obtain y where y: "srv_reachable v cfg m y" "y_srv y = srv z" "y_users y = [threads_of u z]" by blast
  have "srv_step v cfg y (y\<lparr>y_srv := srv z', y_users := (y_users y)[0 := threads_of (threads_of u z) z'],
      y_lost := y_lost y + lost_child (session_of (y_srv y) (threads_of u z)) z'\<rparr>)"
    using step.hyps(2) y(2,3) by (intro srv_step.threads) simp_all
  from srv_reachable.step [OF y(1) this] y(3) show ?case by (auto simp: threads_of_def)
qed

text \<open>The user has sent one image, which was handed to a child that has not begun.\<close>

lemma demo_handed_over:
  "\<exists>x u. srv_reachable blind demo_cfg 5 x \<and> y_users x = [u] \<and>
     u = new_user ''u'' 4 0 1\<lparr>u_tpos := TRecv (Some 0), u_rpos := RWait (Some 1), u_children := 1,
           u_received := [''a.jpg''], u_popped := [''a.jpg'']\<rparr> \<and>
     sems (y_srv x) = [0 \<mapsto> 0] \<and> queues (y_srv x) = [1 \<mapsto> []] \<and> slots (y_srv x) = [0 \<mapsto> (4, ''a.jpg'')] \<and>
     process_sem (y_srv x) = 4 \<and> sv_metrics (y_srv x) = \<lparr>request_submitted = 1, request_finished = 0\<rparr>"
proof -
  let ?u = "new_user ''u'' 4 0 1"
  let ?run = "own_step blind demo_cfg (u_name ?u) (u_sock ?u) (u_sem ?u) (u_queue ?u)"
  define x0 where "x0 = session_of (y_srv demo_users) ?u"
  define st1 where "st1 = srv x0\<lparr>sv_metrics := \<lparr>request_submitted = 1, request_finished = 0\<rparr>,
    pics := [''a.jpg'' \<mapsto> []], queues := [1 \<mapsto> [''a.jpg'']]\<rparr>"
  define x1 where "x1 = x0\<lparr>srv := st1, tpos := TSignal None, received := [''a.jpg'']\<rparr>"
  define x2 where "x2 = x1\<lparr>srv := st1\<lparr>sems := [0 \<mapsto> 1]\<rparr>, tpos := TRecv (Some 0)\<rparr>"
  define x3 where "x3 = x2\<lparr>srv := st1\<lparr>sems := [0 \<mapsto> 0]\<rparr>, rpos := RDispatch 1\<rparr>"
  define st4 where "st4 = st1\<lparr>sems := [0 \<mapsto> 0], process_sem := 4, queues := [1 \<mapsto> []], slots := [0 \<mapsto> (4, ''a.jpg'')]\<rparr>"
  define x4 where "x4 = x3\<lparr>srv := st4, rpos := RWait (Some 1), children := 1, popped := [''a.jpg'']\<rparr>"
  have s: "process_sem (srv x0) = 5" "sv_metrics (srv x0) = new_Metrics" "queues (srv x0) = [1 \<mapsto> []]"
    "sems (srv x0) = [0 \<mapsto> 0]" "sem_map (srv x0) = [''u'' \<mapsto> 0]" "queue_map (srv x0) = [''u'' \<mapsto> 1]"
    "pics (srv x0) = (\<lambda>_. None)" "slots (srv x0) = (\<lambda>_. None)"
    by (simp_all add: x0_def demo_users_def demo_start_def srv_start_def init_server_def)
  have p: "tpos x0 = TRecv None" "rpos x0 = RWait None" "children x0 = 0" "received x0 = []" "popped x0 = []"
    by (simp_all add: x0_def)
  have "transmit_image demo_cfg 1 ''a.jpg'' [] True undefined (srv x0) = Inr (True, st1)"
    using s by (simp add: transmit_image_def submit_request_def inc32_def in_int32_def push_image_def demo_cfg_def
        new_Metrics_def st1_def)
  from own_step.image [OF p(1) _ this, of blind] p have 1: "?run x0 x1" by (simp add: x1_def)
  have "transmit_signal ''u'' None (srv x1) = Inr (Some (0, st1\<lparr>sems := [0 \<mapsto> 1]\<rparr>))"
    using s by (simp add: transmit_signal_def sem_post_at_def x1_def st1_def)
  from own_step.signal [OF _ this] have 2: "?run x1 x2" by (simp add: x1_def x2_def)
  have "result_wait ''u'' 0 None (srv x2) = Inr (Some (ImageReady 1, st1\<lparr>sems := [0 \<mapsto> 0]\<rparr>))"
    using s by (simp add: result_wait_def sem_wait_at_def x2_def st1_def)
  from own_step.wake [OF _ this] p have 3: "?run x2 x3" by (simp add: x1_def x2_def x3_def)
  have "result_dispatch 4 0 1 (srv x3) = Inr (Some st4)"
    using s by (simp add: result_dispatch_def pop_image_def x3_def st4_def st1_def)
  moreover have "\<not> storm demo_cfg" by (simp add: demo_cfg_def)
  ultimately have 4: "?run x3 x4"
    using own_step.dispatch [of x3 1 demo_cfg 4 0 st4 blind "''u''" 1] p s
    by (simp add: x1_def x2_def x3_def x4_def st1_def image_items_def)
  from 1 2 3 4 have "?run\<^sup>*\<^sup>* x0 x4" by (meson converse_rtranclp_into_rtranclp r_into_rtranclp)
  from single_user_run [OF this [unfolded x0_def] demo_users_reachable] obtain y where
    "srv_reachable blind demo_cfg 5 y" "y_srv y = srv x4" "y_users y = [threads_of ?u x4]"
    by (auto simp: demo_users_def)
  then show ?thesis using s
    by (intro exI [of _ y] exI [of _ "threads_of ?u x4"])
      (simp add: x1_def x2_def x3_def x4_def st1_def st4_def threads_of_def new_user_def)
qed

text \<open>And now the user leaves.\<close>

lemma demo_leaves:
  "\<exists>x u. srv_reachable blind demo_cfg 5 x \<and> y_users x = [u] \<and> u_rpos u = RGone \<and> u_children u = 1"
proof -
  from demo_handed_over obtain x u where x: "srv_reachable blind demo_cfg 5 x" "y_users x = [u]"
    and u: "u = new_user ''u'' 4 0 1\<lparr>u_tpos := TRecv (Some 0), u_rpos := RWait (Some 1), u_children := 1,
      u_received := [''a.jpg''], u_popped := [''a.jpg'']\<rparr>"
    and s: "sems (y_srv x) = [0 \<mapsto> 0]" "queues (y_srv x) = [1 \<mapsto> []]" by blast
  let ?run = "own_step blind demo_cfg (u_name u) (u_sock u) (u_sem u) (u_queue u)"
  define x4 where "x4 = session_of (y_srv x) u"
  define x5 where "x5 = x4\<lparr>srv := (srv x4)\<lparr>sems := [0 \<mapsto> 1]\<rparr>, tpos := TGone\<rparr>"
  have "transmit_disconnect (Some 0) (srv x4) = Inr ((srv x4)\<lparr>sems := [0 \<mapsto> 1]\<rparr>)"
    using s by (simp add: transmit_disconnect_def sem_post_at_def x4_def)
  from own_step.disconnect [OF _ this] have 5: "?run x4 x5" by (simp add: x4_def x5_def u)
  have "\<exists>st. result_wait ''u'' 0 (Some 1) (srv x5) = Inr (Some (ClientGone, st))"
    using s by (simp add: result_wait_def sem_wait_at_def x4_def x5_def)
  then obtain st where "result_wait ''u'' 0 (Some 1) (srv x5) = Inr (Some (ClientGone, st))" by blast
  from own_step.gone [OF _ this] have 6: "?run x5 (x5\<lparr>srv := st, rpos := RGone\<rparr>)" by (simp add: x4_def x5_def u)
  from 5 6 have "?run\<^sup>*\<^sup>* x4 (x5\<lparr>srv := st, rpos := RGone\<rparr>)" by (meson converse_rtranclp_into_rtranclp r_into_rtranclp)
  from single_user_run [OF this [unfolded x4_def] x] show ?thesis by (force simp: x4_def x5_def u)
qed

lemma late_children_fault_witness:
  "\<exists>x u. srv_reachable blind demo_cfg 5 x \<and> u \<in> set (y_users x) \<and> u_children u = 1 \<and>
     result_child blind demo_cfg (u_sem u) True (\<lambda>_. NUL) (y_srv x) = Inl NullPointer"
proof -
  from demo_leaves obtain x u where x: "srv_reachable blind demo_cfg 5 x" "y_users x = [u]" "u_rpos u = RGone" "u_children u = 1"
    by blast
  from late_children_fault [OF x(1) _ x(3), of True "\<lambda>_. NUL"] x show ?thesis by (intro exI [of _ x] exI [of _ u]) simp
qed







end
