(* ===== verification/StormUsers.thy ===== *)
theory StormUsers
  imports Logins
begin

text \<open>
  Several users of a server that uses Storm. Every result thread binds a socket to the same port for the
  datagrams of the cluster, and the socket of a client that has left is never closed: the port is
  given out once in the life of the process.
\<close>

subsection \<open>The port\<close>

text \<open>The names whose result thread has its socket and whose transmit thread is still to come.\<close>

definition ups :: "'d system \<Rightarrow> string set" where
  "ups x = {nm. \<exists>s. half_sem (y_half x) nm = Some (s, Some 0)}"

definition port_ok :: "'d system \<Rightarrow> bool" where
  "port_ok x \<longleftrightarrow>
     (if \<not> y_port x then y_users x = [] \<and> ups x = {}
      else if y_users x = [] then \<exists>nm. ups x \<subseteq> {nm}
      else ups x = {} \<and> length (y_users x) = 1)"

lemma ups_upd:
  "ups (x\<lparr>y_srv := st, y_half := (y_half x)(user \<mapsto> (k, ph)), y_port := p\<rparr>) =
     (if \<exists>s. phase_sem ph = Some (s, Some 0) then insert user (ups x) else ups x - {user})"
  "ups (x\<lparr>y_srv := st, y_half := (y_half x)(user \<mapsto> (k, ph))\<rparr>) =
     (if \<exists>s. phase_sem ph = Some (s, Some 0) then insert user (ups x) else ups x - {user})"
  "ups (x\<lparr>y_srv := st, y_half := (y_half x)(user := None), y_users := us\<rparr>) = ups x - {user}"
  "ups (x\<lparr>y_srv := st\<rparr>) = ups x" "ups (x\<lparr>y_srv := st, y_users := us, y_lost := n\<rparr>) = ups x"
  by (auto simp: ups_def)

lemma ups_phase: "y_half x user = Some (k, ph) \<Longrightarrow> user \<in> ups x \<longleftrightarrow> (\<exists>s. phase_sem ph = Some (s, Some 0))"
  by (simp add: ups_def half_sem_phase(2))

lemma ups_none: "y_half x user = None \<Longrightarrow> user \<notin> ups x"
  by (simp add: ups_def half_sem_phase(1))

lemma port_ok_step:
  assumes "srv_step v cfg x y" and "storm cfg" and "port_ok x"
  shows "port_ok y \<and> (y_port x \<longrightarrow> y_port y) \<and>
     (y_users x \<noteq> [] \<longrightarrow> map u_name (y_users y) = map u_name (y_users x) \<and> map u_sock (y_users y) = map u_sock (y_users x))"
  using assms(1)
proof (cases rule: srv_step.cases)
  case (connect_result m sock user st)
  with ups_none [OF connect_result(3)] assms(3) show ?thesis
    by (auto simp: port_ok_def ups_upd split: if_splits)
next
  case (init_result user sock s st bind_ok up st')
  have up: "up = bind_ok" using init_result(5) assms(2) by (auto simp: server_result_bind_def split: if_splits)
  have "user \<notin> ups x" using ups_phase [OF init_result(2)] by simp
  with init_result(1,4) up assms(2,3) show ?thesis
    by (auto simp: port_ok_def ups_upd split: if_splits)
next
  case (connect_transmit user sock up s m tsock st)
  have "user \<in> ups x \<longleftrightarrow> up" using ups_phase [OF connect_transmit(2)] by auto
  with connect_transmit(1) assms(3) show ?thesis
    by (auto simp: port_ok_def ups_upd split: if_splits)
next
  case (init_orphan user sock s tsock a st)
  have "user \<notin> ups x" using ups_phase [OF init_orphan(2)] by simp
  with init_orphan(1) assms(3) show ?thesis
    by (auto simp: port_ok_def ups_upd split: if_splits)
next
  case (init_transmit user sock s tsock a st)
  have "user \<in> ups x" using ups_phase [OF init_transmit(2)] by simp
  with init_transmit(1) assms(3) show ?thesis
    by (auto simp: port_ok_def ups_upd split: if_splits)
next
  case (rejected m sock st)
  with assms(3) show ?thesis by (simp add: port_ok_def ups_upd)
next
  case (threads i u z)
  then have "map u_name (y_users y) = map u_name (y_users x)" "map u_sock (y_users y) = map u_sock (y_users x)"
    by (simp_all add: map_update_same)
  with threads(1) assms(3) show ?thesis by (simp add: port_ok_def ups_upd)
qed

lemma srv_reachable_port: "srv_reachable v cfg m x \<Longrightarrow> storm cfg \<Longrightarrow> port_ok x"
proof (induction rule: srv_reachable.induct)
  case (start db dk)
  show ?case by (simp add: port_ok_def ups_def half_sem_def srv_start_def)
next
  case (step x y)
  with port_ok_step show ?case by blast
qed

lemma port_steps:
  assumes "(srv_step v cfg)\<^sup>*\<^sup>* x y" and "storm cfg" and "port_ok x" and "y_users x \<noteq> []"
  shows "port_ok y \<and> map u_name (y_users y) = map u_name (y_users x) \<and> map u_sock (y_users y) = map u_sock (y_users x)"
  using assms(1)
proof (induction rule: rtranclp_induct)
  case (step y z)
  with assms(4) have "y_users y \<noteq> []" by (metis map_is_Nil_conv)
  with port_ok_step [OF step.hyps(2) assms(2)] step.IH show ?case by simp
qed (use assms(3) in simp)

text \<open>
  C18: with Storm a server serves one user in the life of its process: once a user has logged in, no other user
  ever gets a session, whatever happens, and not after that user has left either.
\<close>

theorem storm_serves_one_user:
  assumes "srv_reachable v cfg m x" and "storm cfg" and "u \<in> set (y_users x)" and "(srv_step v cfg)\<^sup>*\<^sup>* x y"
  shows "\<exists>u'. y_users y = [u'] \<and> u_name u' = u_name u \<and> u_sock u' = u_sock u"
proof -
  have p: "port_ok x" using srv_reachable_port [OF assms(1,2)] .
  have n: "y_users x \<noteq> []" using assms(3) by auto
  with p have "length (y_users x) = 1" by (simp add: port_ok_def split: if_splits)
  then have x: "y_users x = [u]" using assms(3) by (auto simp: length_Suc_conv)
  from port_steps [OF assms(4,2) p n] x show ?thesis by (auto simp: map_eq_Cons_conv)
qed

subsection \<open>Orphans\<close>

lemma orphan_stays:
  "srv_step v cfg x y \<Longrightarrow> y_half x user = Some (k, LOrphan s a) \<Longrightarrow> y_half y user = Some (k, LOrphan s a)"
  by (erule srv_step.cases) (simp_all split: if_splits, force+)

lemma orphan_stays_steps:
  "(srv_step v cfg)\<^sup>*\<^sup>* x y \<Longrightarrow> y_half x user = Some (k, LOrphan s a) \<Longrightarrow> y_half y user = Some (k, LOrphan s a)"
  by (induction rule: rtranclp_induct) (auto dest: orphan_stays)

lemma orphan_signal_faults:
  assumes "srv_inv v cfg x" and "y_half x user = Some (k, LOrphan s a)"
    and "transmit_image cfg a name img True e (y_srv x) = Inr (True, st)"
  shows "transmit_signal user None st = Inl NullPointer"
proof -
  have "half_sem (y_half x) user = Some (s, None)" using half_sem_phase(2) [of "y_half x", OF assms(2)] by simp
  moreover have "names_ok x" using assms(1) by (simp add: srv_inv_def)
  ultimately have "sems (y_srv x) s = None" "sem_map (y_srv x) user = Some s" unfolding names_ok_def by blast+
  with transmit_image_touches [OF assms(3), of user "Suc s"] show ?thesis
    by (simp add: transmit_signal_def sem_post_at_def same_maps_def touches_only_def)
qed

text \<open>
  C19: any client that logs in to such a server later, under a free name, is answered \<open>ok\<close> twice and brings the whole
  server down, whenever it goes on: its first image makes its transmit thread post the semaphore that its
  result thread has deleted, and a disconnect before makes it post through a null pointer.
\<close>

theorem storm_second_login_faults:
  assumes "srv_reachable v cfg m x" and "storm cfg" and "tcp cfg \<or> orbit cfg" and "y_port x"
    and "is_field user" and "length user < 90" and "user_map (y_srv x) user = None"
  shows "\<exists>y a. (srv_step v cfg ^^ 4) x y \<and> sv_out (y_srv y) = sv_out (y_srv x) @ [(k, ok_msg), (k', ok_msg)] \<and>
     queue_map (y_srv y) user = Some a \<and>
     (\<forall>z. (srv_step v cfg)\<^sup>*\<^sup>* y z \<longrightarrow> transmit_disconnect None (y_srv z) = Inl NullPointer \<and>
        (\<forall>name img e st. transmit_image cfg a name img True e (y_srv z) = Inr (True, st) \<longrightarrow>
           transmit_signal user None st = Inl NullPointer))"
proof -
  let ?s = "next_addr (y_srv x)"
  have names: "names_ok x" using srv_reachable_inv [OF assms(1)] by (simp add: srv_inv_def)
  have half: "y_half x user = None"
  proof (rule ccontr)
    assume "y_half x user \<noteq> None"
    then obtain k ph where "y_half x user = Some (k, ph)" by auto
    with names have "user_map (y_srv x) user = Some (logins ph)" unfolding names_ok_def by blast
    with assms(7) show False by simp
  qed
  define x3 where "x3 = x\<lparr>y_srv := logged_in False user k (y_srv x),
    y_half := (y_half x)(user \<mapsto> (k, LTransmit False ?s)), y_port := y_port x \<or> storm cfg \<and> False\<rparr>"
  have 3: "(srv_step v cfg ^^ 3) x x3"
    unfolding x3_def by (rule login_steps [OF assms(5,6,3,7) half, of False]) (use assms(2) in simp_all)
  define y where "y = x3\<lparr>y_srv := transmit_up user k' (y_srv x3), y_half := (y_half x3)(user \<mapsto> (k, LOrphan ?s (next_addr (y_srv x3))))\<rparr>"
  have "srv_step v cfg x3 y"
    unfolding y_def using server_transmit_init_up [OF assms(3)] by (intro srv_step.init_orphan) (simp_all add: x3_def)
  from relpowp_Suc_I [OF 3 this] have 4: "(srv_step v cfg ^^ 4) x y" by simp
  have o: "y_half y user = Some (k, LOrphan ?s (next_addr (y_srv x3)))" by (simp add: y_def)
  have r: "srv_reachable v cfg m z" if "(srv_step v cfg)\<^sup>*\<^sup>* y z" for z
    using srv_steps_reachable [OF relpowp_imp_rtranclp [OF 4] assms(1)] srv_steps_reachable [OF that] by blast
  have "transmit_signal user None st = Inl NullPointer"
    if "(srv_step v cfg)\<^sup>*\<^sup>* y z" "transmit_image cfg (next_addr (y_srv x3)) name img True e (y_srv z) = Inr (True, st)" for z name img e st
    using orphan_signal_faults [OF srv_reachable_inv [OF r [OF that(1)]] orphan_stays_steps [OF that(1) o] that(2)] .
  moreover have "sv_out (y_srv y) = sv_out (y_srv x) @ [(k, ok_msg), (k', ok_msg)]" "queue_map (y_srv y) user = Some (next_addr (y_srv x3))"
    by (simp_all add: y_def x3_def transmit_up_def logged_in_def Let_def)
  ultimately show ?thesis using 4 by (intro exI [of _ y] exI [of _ "next_addr (y_srv x3)"]) (simp add: transmit_disconnect_def)
qed

subsection \<open>Two users\<close>

text \<open>One user has logged in on a server with Storm; another one comes.\<close>

definition demo_storm :: "unit system" where
  "demo_storm = (let x = srv_start 5 init_statics \<lparr>text_files = (\<lambda>_. None), yml_files = (\<lambda>_. None)\<rparr>
     in x\<lparr>y_srv := transmit_up ''u'' 7 (logged_in True ''u'' 4 (y_srv x)), y_users := [new_user ''u'' 4 0 1], y_port := True\<rparr>)"

abbreviation storm_cfg :: config where
  "storm_cfg \<equiv> demo_cfg\<lparr>storm := True\<rparr>"

lemma demo_storm_reachable: "srv_reachable blind storm_cfg 5 demo_storm"
proof -
  let ?x = "srv_start 5 init_statics \<lparr>text_files = (\<lambda>_. None), yml_files = (\<lambda>_. None)\<rparr> :: unit system"
  have x: "user_map (y_srv ?x) ''u'' = None" "y_half ?x ''u'' = None" "\<not> y_port ?x" "next_addr (y_srv ?x) = 0" "y_users ?x = []"
    by (simp_all add: srv_start_def init_server_def)
  have f: "is_field ''u''" "tcp storm_cfg \<or> orbit storm_cfg" "storm storm_cfg \<longrightarrow> \<not> y_port ?x"
    using x(3) by (simp_all add: is_field_def demo_cfg_def)
  have "?x\<lparr>y_srv := transmit_up ''u'' 7 (logged_in True ''u'' 4 (y_srv ?x)),
      y_users := y_users ?x @ [new_user ''u'' 4 (next_addr (y_srv ?x)) (Suc (next_addr (y_srv ?x)))],
      y_port := y_port ?x \<or> storm storm_cfg\<rparr> = demo_storm"
    unfolding x(4,5) demo_storm_def Let_def by (rule system.equality) simp_all
  with login_session [OF f(1) _ f(2) x(1,2) f(3), of blind 4 7]
  have "(srv_step blind storm_cfg ^^ 4) ?x demo_storm" by simp
  from srv_steps_reachable [OF relpowp_imp_rtranclp [OF this] srv_reachable.start] show ?thesis .
qed

lemma storm_second_login_faults_witness:
  "\<exists>y a. (srv_step blind storm_cfg ^^ 4) demo_storm y \<and> sv_out (y_srv y) = sv_out (y_srv demo_storm) @ [(8, ok_msg), (9, ok_msg)] \<and>
     queue_map (y_srv y) ''w'' = Some a \<and> transmit_disconnect None (y_srv y) = Inl NullPointer"
proof -
  have h: "storm storm_cfg" "tcp storm_cfg \<or> orbit storm_cfg" "y_port demo_storm" "is_field ''w''" "length ''w'' < 90"
    "user_map (y_srv demo_storm) ''w'' = None"
    by (simp_all add: demo_cfg_def demo_storm_def Let_def is_field_def transmit_up_def logged_in_def srv_start_def init_server_def)
  from storm_second_login_faults [OF demo_storm_reachable h, of 8 9] show ?thesis by blast
qed

lemma storm_serves_one_user_witness:
  "\<exists>y u. (srv_step blind storm_cfg ^^ 3) demo_storm y \<and> y_users y = [u] \<and> u_name u = ''u'' \<and> y_half y ''w'' \<noteq> None"
proof -
  have h: "is_field ''w''" "tcp storm_cfg \<or> orbit storm_cfg" "user_map (y_srv demo_storm) ''w'' = None" "y_half demo_storm ''w'' = None"
    "y_users demo_storm = [new_user ''u'' 4 0 1]"
    by (simp_all add: demo_cfg_def demo_storm_def Let_def is_field_def transmit_up_def logged_in_def srv_start_def init_server_def)
  from login_steps [OF h(1) _ h(2-4), of False False blind 8] obtain y where
    y: "(srv_step blind storm_cfg ^^ 3) demo_storm y" "y_half y ''w'' \<noteq> None" by auto
  have "storm storm_cfg" "new_user ''u'' 4 0 1 \<in> set (y_users demo_storm)" using h(5) by simp_all
  from storm_serves_one_user [OF demo_storm_reachable this relpowp_imp_rtranclp [OF y(1)]] y show ?thesis by auto
qed

end
