(* ===== verification/KafkaPipeline.thy ===== *)
theory KafkaPipeline
  imports Server ResultProps
begin

text \<open>
  Pictures of one user on their way through the Kafka producer, and the datagrams of the cluster on their way
  back. The transmit thread takes uploads (\<open>kafka_uploads\<close>), the result thread answers one queued
  picture for each datagram that arrives (\<open>storm_rounds\<close>). A datagram does not say which picture
  it is for, and the transmit thread queues the name of a picture that the broker library has refused.
\<close>

subsection \<open>The two threads\<close>

type_synonym upload = "string \<times> bytes \<times> storm_env"

definition kafka_upload :: "config \<Rightarrow> string \<Rightarrow> nat \<Rightarrow> nat \<Rightarrow> upload \<Rightarrow> 'd server \<Rightarrow> 'd server option res" where
  "kafka_upload cfg user s a u st =
     (case u of (name, img, e) \<Rightarrow>
        rbind (transmit_image cfg a name img True e st) (\<lambda>(goes_on, st1).
          if \<not> goes_on then Inr None
          else rbind (transmit_signal user (Some s) st1) (\<lambda>r. Inr (map_option snd r))))"

fun kafka_uploads :: "config \<Rightarrow> string \<Rightarrow> nat \<Rightarrow> nat \<Rightarrow> upload list \<Rightarrow> 'd server \<Rightarrow> 'd server option res" where
  "kafka_uploads cfg user s a [] st = Inr (Some st)"
| "kafka_uploads cfg user s a (u # us) st =
     rbind (kafka_upload cfg user s a u st) (\<lambda>r. case r of None \<Rightarrow> Inr None
     | Some st1 \<Rightarrow> kafka_uploads cfg user s a us st1)"

definition storm_round ::
  "config \<Rightarrow> string \<Rightarrow> int \<Rightarrow> nat \<Rightarrow> nat \<Rightarrow> (nat \<Rightarrow> char) \<Rightarrow> bytes \<Rightarrow> 'd server \<Rightarrow> 'd server option res" where
  "storm_round cfg user sock s a stack d st =
     rbind (result_wait user s (Some a) st) (\<lambda>r. case r of
       Some (ImageReady a', st1) \<Rightarrow>
         rbind (result_storm cfg sock a' (Some d) True stack st1) (\<lambda>(goes_on, st2). Inr (if goes_on then Some st2 else None))
     | _ \<Rightarrow> Inr None)"

fun storm_rounds ::
  "config \<Rightarrow> string \<Rightarrow> int \<Rightarrow> nat \<Rightarrow> nat \<Rightarrow> (nat \<Rightarrow> char) \<Rightarrow> bytes list \<Rightarrow> 'd server \<Rightarrow> 'd server option res" where
  "storm_rounds cfg user sock s a stack [] st = Inr (Some st)"
| "storm_rounds cfg user sock s a stack (d # ds) st =
     rbind (storm_round cfg user sock s a stack d st) (\<lambda>r. case r of None \<Rightarrow> Inr None
     | Some st1 \<Rightarrow> storm_rounds cfg user sock s a stack ds st1)"

text \<open>The images that the broker library takes.\<close>

definition produced :: "upload list \<Rightarrow> bytes list" where
  "produced us = map (\<lambda>(name, img, e). img) (filter (\<lambda>(name, img, e). s_produced e) us)"

lemma produced_simps [simp]:
  "produced [] = []" "produced ((name, img, e) # us) = (if s_produced e then img # produced us else produced us)"
  by (simp_all add: produced_def)

lemma length_produced: "length (produced us) \<le> length us"
  by (simp add: produced_def)

abbreviation brokers_stay :: "upload list \<Rightarrow> bool" where
  "brokers_stay us \<equiv> list_all (\<lambda>(name, img, e). EvError True \<notin> set (s_events e)) us"

subsection \<open>Uploads\<close>

lemma kafka_upload_runs:
  assumes "storm cfg" and "use_kafka cfg" and "producer st = Some k" and "k_run k" and "EvError True \<notin> set (s_events e)"
    and "queues st a = Some q" and "sems st s = Some n" and "in_int32 (request_submitted (sv_metrics st) + 1)"
  shows "\<exists>m. kafka_upload cfg user s a (name, img, e) st =
     Inr (Some (st\<lparr>queues := (queues st)(a \<mapsto> q @ [name]), sems := (sems st)(s \<mapsto> Suc n),
       producer := Some \<lparr>k_run = True, k_outq = drop m (k_outq k @ produced [(name, img, e)])\<rparr>,
       sv_metrics := (sv_metrics st)\<lparr>request_submitted := request_submitted (sv_metrics st) + 1\<rparr>\<rparr>))"
proof -
  have "kafka_send (s_produced e) (s_delivered e) (s_events e) img (int (length img)) k =
      Inr \<lparr>k_run = True, k_outq = drop (s_delivered e) (k_outq k @ produced [(name, img, e)])\<rparr>"
    using assms(4,5) by (simp add: kafka_send_def read_at_def poll_def fold_event_up)
  then show ?thesis
    using assms
    by (intro exI [of _ "s_delivered e"])
      (simp add: kafka_upload_def transmit_image_def submit_request_def inc32_def transmit_pass_def push_image_def
        transmit_signal_def sem_post_at_def)
qed

lemma kafka_uploads_run:
  assumes "storm cfg" and "use_kafka cfg"
  shows "producer st = Some k \<Longrightarrow> k_run k \<Longrightarrow> brokers_stay us \<Longrightarrow> queues st a = Some q \<Longrightarrow> sems st s = Some n \<Longrightarrow>
     in_int32 (request_submitted (sv_metrics st)) \<Longrightarrow> in_int32 (request_submitted (sv_metrics st) + int (length us)) \<Longrightarrow>
     \<exists>m. kafka_uploads cfg user s a us st =
       Inr (Some (st\<lparr>queues := (queues st)(a \<mapsto> q @ map fst us), sems := (sems st)(s \<mapsto> n + length us),
         producer := Some \<lparr>k_run = True, k_outq = drop m (k_outq k @ produced us)\<rparr>,
         sv_metrics := (sv_metrics st)\<lparr>request_submitted := request_submitted (sv_metrics st) + int (length us)\<rparr>\<rparr>))"
proof (induction us arbitrary: st k q n)
  case Nil
  then show ?case by (cases k) (auto intro!: exI [of _ 0] server.equality ext)
next
  case (Cons u us)
  obtain name img e where u: "u = (name, img, e)" by (cases u)
  have "in_int32 (request_submitted (sv_metrics st) + 1)" using Cons.prems(6,7) by (simp add: in_int32_def)
  with kafka_upload_runs [OF assms Cons.prems(1,2) _ Cons.prems(4,5)] Cons.prems(3) u obtain m where
    m: "kafka_upload cfg user s a u st =
      Inr (Some (st\<lparr>queues := (queues st)(a \<mapsto> q @ [name]), sems := (sems st)(s \<mapsto> Suc n),
        producer := Some \<lparr>k_run = True, k_outq = drop m (k_outq k @ produced [u])\<rparr>,
        sv_metrics := (sv_metrics st)\<lparr>request_submitted := request_submitted (sv_metrics st) + 1\<rparr>\<rparr>))" (is "_ = Inr (Some ?st1)")
    by fastforce
  let ?k1 = "\<lparr>k_run = True, k_outq = drop m (k_outq k @ produced [u])\<rparr>"
  have "\<exists>m'. kafka_uploads cfg user s a us ?st1 =
      Inr (Some (?st1\<lparr>queues := (queues ?st1)(a \<mapsto> (q @ [name]) @ map fst us), sems := (sems ?st1)(s \<mapsto> Suc n + length us),
        producer := Some \<lparr>k_run = True, k_outq = drop m' (k_outq ?k1 @ produced us)\<rparr>,
        sv_metrics := (sv_metrics ?st1)\<lparr>request_submitted := request_submitted (sv_metrics ?st1) + int (length us)\<rparr>\<rparr>))"
    by (rule Cons.IH) (use Cons.prems u in \<open>simp_all add: in_int32_def\<close>)
  then obtain m' where u': "kafka_uploads cfg user s a us ?st1 =
      Inr (Some (?st1\<lparr>queues := (queues ?st1)(a \<mapsto> (q @ [name]) @ map fst us), sems := (sems ?st1)(s \<mapsto> Suc n + length us),
        producer := Some \<lparr>k_run = True, k_outq = drop m' (k_outq ?k1 @ produced us)\<rparr>,
        sv_metrics := (sv_metrics ?st1)\<lparr>request_submitted := request_submitted (sv_metrics ?st1) + int (length us)\<rparr>\<rparr>))"
    by blast
  have "\<exists>m''. drop m' (drop m (k_outq k @ produced [u]) @ produced us) = drop m'' (k_outq k @ produced (u # us))"
  proof -
    have "drop m' (drop m xs @ ys) = drop (min m (length xs) + m') (xs @ ys)" for xs ys :: "bytes list"
      by (cases "m \<le> length xs") (simp_all add: min_def add.commute)
    moreover have "produced (u # us) = produced [u] @ produced us" by (simp add: u)
    ultimately show ?thesis by (metis append_assoc)
  qed
  then obtain m'' where "drop m' (drop m (k_outq k @ produced [u]) @ produced us) = drop m'' (k_outq k @ produced (u # us))"
    by blast
  with u' show ?case using m u
    by (intro exI [of _ m'']) (auto simp: algebra_simps intro!: server.equality ext)
qed

subsection \<open>Answers\<close>

lemma storm_round_replies:
  assumes "queues st a = Some (name # q)" and "sems st s = Some (Suc n)" and "in_int32 (request_finished (sv_metrics st) + 1)"
    and "storm_reply d (getInfo_index (sv_disk st)) stack = Inr (idx, msg)"
  shows "storm_round cfg user sock s a stack d st =
     Inr (Some (st\<lparr>queues := (queues st)(a \<mapsto> q), sems := (sems st)(s \<mapsto> n), sv_out := sv_out st @ [(sock, msg)],
       sv_metrics := (sv_metrics st)\<lparr>request_finished := request_finished (sv_metrics st) + 1\<rparr>\<rparr>))"
  using assms
  by (simp add: storm_round_def result_wait_def sem_wait_at_def result_storm_def pop_image_def finish_request_def inc32_def reply_def)

lemma storm_rounds_reply:
  assumes "list_all2 (\<lambda>d msg. \<exists>idx. storm_reply d info stack = Inr (idx, msg)) ds msgs"
  shows "getInfo_index (sv_disk st) = info \<Longrightarrow> queues st a = Some q \<Longrightarrow> length ds \<le> length q \<Longrightarrow> sems st s = Some n \<Longrightarrow>
     length ds \<le> n \<Longrightarrow> in_int32 (request_finished (sv_metrics st)) \<Longrightarrow>
     in_int32 (request_finished (sv_metrics st) + int (length ds)) \<Longrightarrow>
     storm_rounds cfg user sock s a stack ds st =
       Inr (Some (st\<lparr>queues := (queues st)(a \<mapsto> drop (length ds) q), sems := (sems st)(s \<mapsto> n - length ds),
         sv_out := sv_out st @ map (Pair sock) msgs,
         sv_metrics := (sv_metrics st)\<lparr>request_finished := request_finished (sv_metrics st) + int (length ds)\<rparr>\<rparr>))"
  using assms
proof (induction ds msgs arbitrary: st q n rule: list_all2_induct)
  case Nil
  then show ?case by (auto intro!: server.equality ext)
next
  case (Cons d ds msg msgs)
  from Cons.prems(3) obtain name q' where q: "q = name # q'" by (cases q) auto
  from Cons.prems(5) obtain n' where n: "n = Suc n'" by (cases n) auto
  from Cons.hyps(1) obtain idx where "storm_reply d info stack = Inr (idx, msg)" by blast
  with Cons.prems q n have 1: "storm_round cfg user sock s a stack d st =
      Inr (Some (st\<lparr>queues := (queues st)(a \<mapsto> q'), sems := (sems st)(s \<mapsto> n'), sv_out := sv_out st @ [(sock, msg)],
        sv_metrics := (sv_metrics st)\<lparr>request_finished := request_finished (sv_metrics st) + 1\<rparr>\<rparr>))" (is "_ = Inr (Some ?st1)")
    by (intro storm_round_replies) (simp_all add: in_int32_def)
  have "storm_rounds cfg user sock s a stack ds ?st1 =
      Inr (Some (?st1\<lparr>queues := (queues ?st1)(a \<mapsto> drop (length ds) q'), sems := (sems ?st1)(s \<mapsto> n' - length ds),
         sv_out := sv_out ?st1 @ map (Pair sock) msgs,
         sv_metrics := (sv_metrics ?st1)\<lparr>request_finished := request_finished (sv_metrics ?st1) + int (length ds)\<rparr>\<rparr>))"
    using Cons.prems q n by (intro Cons.IH) (simp_all add: in_int32_def)
  with 1 q n show ?case by (auto simp: algebra_simps intro!: server.equality ext)
qed

subsection \<open>Pictures and answers\<close>

text \<open>
  C20: with Kafka the answers follow the order of the pictures the broker library has taken, while the names are queued for all:
  if \<open>n\<close> pictures are uploaded and \<open>m\<close> of them taken, and the cluster answers every message once and in
  order, then the client gets the answers to these \<open>m\<close> pictures as the answers to its first \<open>m\<close> pictures. No
  fault tells; the last \<open>n - m\<close> names stay in the queue and count as requests in progress. If
  all are taken, every picture has its own answer and nothing is left.
\<close>

theorem kafka_answers_shift:
  assumes "storm cfg" and "use_kafka cfg" and "producer st = Some k" and "k_run k" and "brokers_stay us"
    and "queues st a = Some []" and "sems st s = Some 0"
    and "in_int32 (request_submitted (sv_metrics st))" and "in_int32 (request_submitted (sv_metrics st) + int (length us))"
    and "in_int32 (request_finished (sv_metrics st))" and "in_int32 (request_finished (sv_metrics st) + int (length us))"
    and "list_all2 (\<lambda>img msg. \<exists>idx. storm_reply (cluster img) (getInfo_index (sv_disk st)) stack = Inr (idx, msg)) (produced us) msgs"
  shows "\<exists>st1 st2 m. kafka_uploads cfg user s a us st = Inr (Some st1) \<and>
     queues st1 a = Some (map fst us) \<and> sv_out st1 = sv_out st \<and>
     producer st1 = Some \<lparr>k_run = True, k_outq = drop m (k_outq k @ produced us)\<rparr> \<and>
     storm_rounds cfg user sock s a stack (map cluster (produced us)) st1 = Inr (Some st2) \<and>
     sv_out st2 = sv_out st @ map (Pair sock) msgs \<and>
     queues st2 a = Some (drop (length (produced us)) (map fst us)) \<and>
     get_num_ongoing (sv_metrics st2) = get_num_ongoing (sv_metrics st) + int (length us - length (produced us))"
proof -
  obtain m where m: "kafka_uploads cfg user s a us st =
    Inr (Some (st\<lparr>queues := (queues st)(a \<mapsto> map fst us), sems := (sems st)(s \<mapsto> length us),
       producer := Some \<lparr>k_run = True, k_outq = drop m (k_outq k @ produced us)\<rparr>,
       sv_metrics := (sv_metrics st)\<lparr>request_submitted := request_submitted (sv_metrics st) + int (length us)\<rparr>\<rparr>))"
    (is "_ = Inr (Some ?st1)")
    using kafka_uploads_run [OF assms(1-9), of user] by (auto simp del: drop_append)
  define st1 where "st1 = ?st1"
  let ?ds = "map cluster (produced us)"
  have "list_all2 (\<lambda>d msg. \<exists>idx. storm_reply d (getInfo_index (sv_disk st)) stack = Inr (idx, msg)) ?ds msgs"
    using assms(12) by (simp add: list.rel_map)
  from storm_rounds_reply [OF this, of st1 a "map fst us" s "length us" cfg user sock] length_produced [of us] assms(10,11)
  have "\<exists>st2. storm_rounds cfg user sock s a stack ?ds st1 = Inr (Some st2) \<and> sv_out st2 = sv_out st @ map (Pair sock) msgs \<and>
      queues st2 a = Some (drop (length (produced us)) (map fst us)) \<and>
      sv_metrics st2 = (sv_metrics st1)\<lparr>request_finished := request_finished (sv_metrics st) + int (length (produced us))\<rparr>"
    by (simp add: st1_def in_int32_def)
  then obtain st2 where "storm_rounds cfg user sock s a stack ?ds st1 = Inr (Some st2)" "sv_out st2 = sv_out st @ map (Pair sock) msgs"
    "queues st2 a = Some (drop (length (produced us)) (map fst us))"
    "sv_metrics st2 = (sv_metrics st1)\<lparr>request_finished := request_finished (sv_metrics st) + int (length (produced us))\<rparr>"
    by blast
  then show ?thesis using m length_produced [of us]
    by (intro exI [of _ st1] exI [of _ st2] exI [of _ m]) (simp add: st1_def get_num_ongoing_def)
qed

text \<open>The library refuses the first of two pictures.\<close>

definition kafka_cfg :: config where
  "kafka_cfg = \<lparr>tcp = True, orbit = False, mf = False, storm = True, use_kafka = True\<rparr>"

definition kafka_env :: "bool \<Rightarrow> storm_env" where
  "kafka_env ok = \<lparr>s_spout = undefined, s_produced = ok, s_delivered = 0, s_events = []\<rparr>"

definition two_uploads :: "upload list" where
  "two_uploads = [(''a'', ''too big'', kafka_env False), (''b'', ''jpg'', kafka_env True)]"

definition kafka_server :: "unit server" where
  "kafka_server = (init_server 5 init_statics \<lparr>text_files = (\<lambda>_. None), yml_files = (\<lambda>_. None)\<rparr>)
     \<lparr>queues := [1 \<mapsto> []], sems := [0 \<mapsto> 0], producer := Some \<lparr>k_run = True, k_outq = []\<rparr>\<rparr>"

lemma kafka_answers_shift_witness:
  "\<exists>st1 st2. kafka_uploads kafka_cfg ''u'' 0 1 two_uploads kafka_server = Inr (Some st1) \<and> queues st1 1 = Some [''a'', ''b''] \<and>
     storm_rounds kafka_cfg ''u'' 4 0 1 (\<lambda>_. NUL) [print_int 0 @ '',0,0,0,0,0,0,0,0,''] st1 = Inr (Some st2) \<and>
     sv_out st2 = [(4, none_msg)] \<and> queues st2 1 = Some [''b''] \<and> get_num_ongoing (sv_metrics st2) = 1"
proof -
  let ?st = kafka_server and ?us = two_uploads
  have h: "storm kafka_cfg" "use_kafka kafka_cfg" "producer ?st = Some \<lparr>k_run = True, k_outq = []\<rparr>" "k_run \<lparr>k_run = True, k_outq = []\<rparr>"
    "brokers_stay ?us" "queues ?st 1 = Some []" "sems ?st 0 = Some 0" "in_int32 (request_submitted (sv_metrics ?st))"
    "in_int32 (request_submitted (sv_metrics ?st) + int (length ?us))" "in_int32 (request_finished (sv_metrics ?st))"
    "in_int32 (request_finished (sv_metrics ?st) + int (length ?us))"
    and p: "produced ?us = [''jpg'']" "map fst ?us = [''a'', ''b'']" "length ?us = 2" "sv_out ?st = []" "get_num_ongoing (sv_metrics ?st) = 0"
    by (simp_all add: kafka_cfg_def kafka_env_def two_uploads_def kafka_server_def init_server_def new_Metrics_def in_int32_def
        get_num_ongoing_def)
  have r: "list_all2 (\<lambda>img msg. \<exists>idx. storm_reply (print_int 0 @ '',0,0,0,0,0,0,0,0,'') (getInfo_index (sv_disk ?st)) (\<lambda>_. NUL) =
      Inr (idx, msg)) (produced ?us) [none_msg]"
    unfolding p using storm_reply_bolt [of 0] by (simp add: in_int32_def)
  from kafka_answers_shift [OF h r, of "''u''" 4] obtain st1 st2 where
    "kafka_uploads kafka_cfg ''u'' 0 1 ?us ?st = Inr (Some st1)" "queues st1 1 = Some [''a'', ''b'']"
    "storm_rounds kafka_cfg ''u'' 4 0 1 (\<lambda>_. NUL) [print_int 0 @ '',0,0,0,0,0,0,0,0,''] st1 = Inr (Some st2)"
    "sv_out st2 = [(4, none_msg)]" "queues st2 1 = Some [''b'']" "get_num_ongoing (sv_metrics st2) = 1"
    unfolding p list.map by (auto simp del: storm_rounds.simps)
  then show ?thesis by blast
qed

end
