(* ===== verification/StartupProps.thy ===== *)
theory StartupProps
  imports Startup ImgDBProps
begin

text \<open>
  What a process that has started can rely on, whatever its command line was, and how start-up
  fails: missing GUIDs, no permits, no spout. Training and serving are two runs of the same
  program that meet in the files on disk.
\<close>

subsection \<open>Options\<close>

definition modes_ok :: "server_args \<Rightarrow> bool" where
  "modes_ok sa \<longleftrightarrow> (tcp (sa_cfg sa) \<longleftrightarrow> \<not> orbit (sa_cfg sa) \<and> \<not> mf (sa_cfg sa))"

lemma modes_ok_default [boot_simps]: "modes_ok default_args"
  by (simp add: modes_ok_def default_args_def)

lemma server_option_modes: "server_option i a sa = Some sa' \<Longrightarrow> modes_ok sa \<Longrightarrow> modes_ok sa'"
  by (auto simp: server_option_def modes_ok_def split: if_splits)

lemma server_options_modes: "server_options opts sa = Some sa' \<Longrightarrow> modes_ok sa \<Longrightarrow> modes_ok sa'"
proof (induction opts sa rule: server_options.induct)
  case (3 i a opts sa)
  then show ?case by (auto dest: server_option_modes split: option.splits)
qed simp_all

subsection \<open>Starting\<close>

lemma server_boot_Started:
  assumes "server_boot imread surf e opts dk = Inr (Started p)"
  obtains sa md pack st where "server_options opts default_args = Some sa" "\<not> sa_train sa"
    "init_network sa e = Inr (md, pack)"
    "server_run (sa_cfg sa) e (init_server (init_permits (sa_max_image sa)) init_statics dk) = Inr (Some st)"
    "p = \<lparr>p_cfg = sa_cfg sa, p_msgd = md, p_pack = pack, p_listener = orbit (sa_cfg sa), p_server = st\<rparr>"
proof -
  from assms obtain sa where sa: "server_options opts default_args = Some sa"
    by (cases "server_options opts default_args") (simp_all add: server_boot_def)
  from assms sa obtain md pack where n: "init_network sa e = Inr (md, pack)"
    by (cases "init_network sa e") (auto simp: server_boot_def split: if_splits)
  from assms sa n have nt: "\<not> sa_train sa"
    by (auto simp: server_boot_def rbind_eq_Inr split: if_splits)
  from assms sa n nt obtain st where "server_run (sa_cfg sa) e
      (init_server (init_permits (sa_max_image sa)) init_statics dk) = Inr (Some st)"
    "p = \<lparr>p_cfg = sa_cfg sa, p_msgd = md, p_pack = pack, p_listener = orbit (sa_cfg sa), p_server = st\<rparr>"
    by (auto simp: server_boot_def rbind_eq_Inr split: if_splits option.splits)
  from that [OF sa nt n this] show thesis .
qed

lemma flannIndex_init_matchImg [simp]: "flannIndex (init_matchImg i c n dk db) \<noteq> None"
  by (simp add: init_matchImg_def init_matchImg_at_def Let_def)

lemma server_run_Some:
  assumes "server_run cfg e st = Inr (Some st')"
  shows "process_sem st' = process_sem st \<and> user_map st' = user_map st \<and> queue_map st' = queue_map st \<and>
     (use_kafka cfg \<longrightarrow> producer st' \<noteq> None) \<and> (\<not> storm cfg \<longrightarrow> flannIndex (sv_db st') \<noteq> None)"
proof (cases "storm cfg")
  case True
  show ?thesis
  proof (cases "use_kafka cfg")
    case True
    with assms \<open>storm cfg\<close> show ?thesis by (auto simp: server_run_def rbind_eq_Inr)
  next
    case False
    with assms \<open>storm cfg\<close> have "\<exists>ip. st' = st\<lparr>spout_ip := ip\<rparr>"
      by (cases "find_spout (spout_ip st) (b_answer e)")
        (auto simp: server_run_def split: if_splits spout_answer.splits)
    with False \<open>storm cfg\<close> show ?thesis by auto
  qed
next
  case False
  show ?thesis
  proof (cases "use_kafka cfg")
    case True
    with assms obtain k where k: "new_KafkaProducer (b_producer e) (b_topic e) = Inr k"
      by (cases "new_KafkaProducer (b_producer e) (b_topic e)") (simp_all add: server_run_def)
    with False True assms have "st' = st\<lparr>producer := Some k, sv_db := init_matchImg ''./indexImgTable''
        ''ImgIndex.yml'' ''/demo/info/'' (sv_disk st) (sv_db st)\<rparr>"
      by (simp add: server_run_def)
    with False show ?thesis by simp
  next
    case nk: False
    have "st' = st\<lparr>sv_db := init_matchImg ''./indexImgTable'' ''ImgIndex.yml'' ''/demo/info/'' (sv_disk st) (sv_db st)\<rparr>"
      using False nk assms by (simp add: server_run_def)
    with False nk show ?thesis by simp
  qed
qed

lemma init_network_modes:
  assumes "init_network sa e = Inr (md, pack)"
  shows "(orbit (sa_cfg sa) \<longrightarrow> mfsockid md = 0 \<and> msgd.src_GUID md = sa_src_GUID sa \<and> msgd.dst_GUID md = sa_dst_GUID sa) \<and>
     (\<not> orbit (sa_cfg sa) \<and> mf (sa_cfg sa) \<longrightarrow> (\<exists>q. pack = Some q \<and> getMyGUID q = sa_src_GUID sa)) \<and>
     (orbit (sa_cfg sa) \<or> mf (sa_cfg sa) \<longrightarrow> sa_src_GUID sa \<noteq> -1 \<and> sa_dst_GUID sa \<noteq> -1)"
  using assms
  by (auto simp: init_network_def init_def new_msgd_def new_MFPackager_def getMyGUID_def Let_def rbind_eq_Inr
      split: if_splits)

text \<open>
  C28: a server that has started, whatever its options were, runs in exactly one of its modes as far as its code
  can tell: TCP unless \<open>-orbit\<close> or \<open>-mf\<close> was given; in orbit mode with an open message distributor and
  its listener, otherwise in \<open>mf\<close> mode with a packager; with \<open>-kafka\<close> it has a producer,
  without \<open>-storm\<close> a loaded index; and nobody is logged in.
\<close>

theorem started_well_formed:
  assumes "server_boot imread surf e opts dk = Inr (Started p)"
  shows "(tcp (p_cfg p) \<longleftrightarrow> \<not> orbit (p_cfg p) \<and> \<not> mf (p_cfg p)) \<and>
     (orbit (p_cfg p) \<longrightarrow> mfsockid (p_msgd p) \<noteq> -1 \<and> p_listener p) \<and>
     (\<not> orbit (p_cfg p) \<and> mf (p_cfg p) \<longrightarrow> p_pack p \<noteq> None) \<and>
     (use_kafka (p_cfg p) \<longrightarrow> producer (p_server p) \<noteq> None) \<and>
     (\<not> storm (p_cfg p) \<longrightarrow> flannIndex (sv_db (p_server p)) \<noteq> None) \<and>
     user_map (p_server p) = (\<lambda>_. None)"
proof -
  from assms obtain sa md pack st where b: "server_options opts default_args = Some sa"
    "init_network sa e = Inr (md, pack)"
    "server_run (sa_cfg sa) e (init_server (init_permits (sa_max_image sa)) init_statics dk) = Inr (Some st)"
    "p = \<lparr>p_cfg = sa_cfg sa, p_msgd = md, p_pack = pack, p_listener = orbit (sa_cfg sa), p_server = st\<rparr>"
    by (elim server_boot_Started)
  from server_options_modes [OF b(1) modes_ok_default] init_network_modes [OF b(2)] server_run_Some [OF b(3)]
  show ?thesis by (auto simp: b(4) modes_ok_def init_server_def)
qed

definition fine_env :: boot_env where
  "fine_env = \<lparr>b_signal = True, b_mutex = True, b_mfopen = 0, b_md_mutex = True, b_udp = True,
     b_answer = None, b_producer = True, b_topic = True, b_listen = True\<rparr>"

abbreviation no_disk :: "unit disk" where
  "no_disk \<equiv> \<lparr>text_files = (\<lambda>_. None), yml_files = (\<lambda>_. None)\<rparr>"

lemmas boot_eval = server_boot_def server_option_def default_args_def init_network_def server_run_def
  fine_env_def new_MFPackager_def init_def new_msgd_def init_permits_def new_KafkaProducer_def

lemma strtol_int_eval: "strtol_int ''102'' = 102" "strtol_int ''101'' = 101" "strtol_int ''all'' = 0"
  by code_simp+

lemma started_well_formed_witness:
  "\<exists>p. server_boot Some (\<lambda>_ _. ([()], [()])) fine_env [Opt 4 '''', Opt 6 ''102'', Opt 7 ''101''] no_disk = Inr (Started p) \<and>
     orbit (p_cfg p) \<and> \<not> tcp (p_cfg p) \<and> mfsockid (p_msgd p) \<noteq> -1"
proof -
  have "\<exists>p. server_boot Some (\<lambda>_ _. ([()], [()])) fine_env [Opt 4 '''', Opt 6 ''102'', Opt 7 ''101''] no_disk =
      Inr (Started p) \<and> orbit (p_cfg p)"
    by (simp add: boot_eval strtol_int_eval)
  then obtain p where p: "server_boot Some (\<lambda>_ _. ([()], [()])) fine_env [Opt 4 '''', Opt 6 ''102'', Opt 7 ''101''] no_disk =
      Inr (Started p)" "orbit (p_cfg p)" by blast
  from started_well_formed [OF p(1)] p show ?thesis by blast
qed

text \<open>
  a parallelism of zero or less (a negative one, or text that is not a number) starts a server that accepts
  clients and images but never matches one: no permit exists, and every hand-over blocks.
\<close>

theorem bad_parallelism_starves:
  assumes "server_boot imread surf e opts dk = Inr (Started p)"
    and "server_options opts default_args = Some sa" and "sa_max_image sa \<le> 0"
  shows "process_sem (p_server p) = 0 \<and>
     (\<forall>st. process_sem st = process_sem (p_server p) \<longrightarrow> result_dispatch sock slot a st = Inr None)"
proof -
  from assms(1) obtain sa' md pack st where b: "server_options opts default_args = Some sa'"
    "server_run (sa_cfg sa') e (init_server (init_permits (sa_max_image sa')) init_statics dk) = Inr (Some st)"
    "p = \<lparr>p_cfg = sa_cfg sa', p_msgd = md, p_pack = pack, p_listener = orbit (sa_cfg sa'), p_server = st\<rparr>"
    by (elim server_boot_Started)
  from server_run_Some [OF b(2)] b assms(2,3) have "process_sem (p_server p) = 0"
    by (auto simp: init_server_def init_permits_def)
  then show ?thesis by (simp add: result_dispatch_def)
qed

lemma bad_parallelism_starves_witness:
  "\<exists>p. server_boot Some (\<lambda>_ _. ([()], [()])) fine_env [Opt 10 ''all''] no_disk = Inr (Started p) \<and>
     result_dispatch 4 0 1 (p_server p) = Inr None"
proof -
  obtain p where p: "server_boot Some (\<lambda>_ _. ([()], [()])) fine_env [Opt 10 ''all''] no_disk = Inr (Started p)"
    by (simp add: boot_eval strtol_int_eval)
  have "server_options [Opt 10 ''all''] default_args = Some (default_args\<lparr>sa_max_image := 0\<rparr>)"
    by (simp add: server_option_def strtol_int_eval)
  from bad_parallelism_starves [OF p this] p show ?thesis by auto
qed

text \<open>
  with \<open>-storm\<close> alone the server ends with status 0 when the spout finder answers \<open>none\<close>; when it answers
  nothing at all, the server starts all the same, with an empty address for the spout.
\<close>

theorem storm_without_spout:
  assumes "server_options opts default_args = Some sa" and "storm (sa_cfg sa)" and "\<not> use_kafka (sa_cfg sa)"
    and "tcp (sa_cfg sa)" and "\<not> sa_train sa" and "b_signal e" and "b_mutex e" and "b_udp e"
  shows "(b_answer e = Some ''none'' \<longrightarrow> server_boot imread surf e opts dk = Inr (Returned 0)) \<and>
     (b_answer e = None \<longrightarrow>
        (\<exists>p. server_boot imread surf e opts dk = Inr (Started p) \<and> spout_ip (p_server p) = []))"
proof -
  have m: "\<not> orbit (sa_cfg sa)" "\<not> mf (sa_cfg sa)"
    using server_options_modes [OF assms(1) modes_ok_default] assms(4) by (simp_all add: modes_ok_def)
  have f: "find_spout old (Some ''none'') = Inr NotReady" for old
    using find_spout_name [of "''none''" old] by simp
  show ?thesis
    using assms m f by (auto simp: server_boot_def init_network_def server_run_def find_spout_def init_server_def)
qed

lemma storm_without_spout_witness:
  "\<exists>p. server_boot Some (\<lambda>_ _. ([()], [()])) fine_env [Opt 8 ''''] no_disk = Inr (Started p) \<and> spout_ip (p_server p) = []"
proof -
  have "server_options [Opt 8 ''''] default_args = Some (default_args\<lparr>sa_cfg := (sa_cfg default_args)\<lparr>storm := True\<rparr>\<rparr>)"
    by (simp add: server_option_def)
  from storm_without_spout [OF this, of fine_env Some "\<lambda>_ _. ([()], [()])" no_disk] show ?thesis
    by (simp add: default_args_def fine_env_def)
qed

subsection \<open>Training, then serving\<close>

text \<open>
  C17: a run with \<open>-train\<close> over 100 readable images that all have descriptors, and then a run without options on
  the disk it left: the server starts with exactly these descriptors as its index, in order, and
  with tables that agree, so that no match can throw because of them.
\<close>

theorem train_then_serve:
  fixes imread :: "string \<Rightarrow> 'img option" and surf :: "int \<Rightarrow> 'img \<Rightarrow> 'kp list \<times> 'd list"
  assumes "\<forall>i \<in> {1..100}. imread (''/demo/img/'' @ print_int i @ ''.jpg'') \<noteq> None"
    and "\<forall>i \<in> {1..100}. desp_of imread surf ''/demo/img/'' i \<noteq> [] \<and>
           in_int32 (int (length (desp_of imread surf ''/demo/img/'' i)))"
    and "b_signal e" and "b_mutex e"
  shows "\<exists>dk' p. server_boot imread surf e [Opt 9 ''''] dk = Inr (Trained dk') \<and>
     server_boot imread surf e [] dk' = Inr (Started p) \<and>
     flannIndex (sv_db (p_server p)) = Some (concat (map (desp_of imread surf ''/demo/img/'') [1..100])) \<and>
     tables_agree (index_IMG (sv_db (p_server p))) (dscCnt_IMG (sv_db (p_server p)))"
proof -
  have "in_int32 100" by (simp add: in_int32_def)
  from train_then_load [OF _ this assms(1,2), of "''./indexImgTable''" "''ImgIndex.yml''" dk "''/demo/info/''"]
  obtain tr dk' where t: "init_DB imread surf 100 ''/demo/img/'' ''./indexImgTable'' ''ImgIndex.yml'' init_statics dk = Inr (tr, dk')"
    and l: "let db = init_matchImg ''./indexImgTable'' ''ImgIndex.yml'' ''/demo/info/'' dk' init_statics
      in flannIndex db = Some (concat (map (desp_of imread surf ''/demo/img/'') [1..100])) \<and>
         tables_agree (index_IMG db) (dscCnt_IMG db)"
    by (auto simp: Let_def)
  have "server_boot imread surf e [Opt 9 ''''] dk = Inr (Trained dk')"
    using t assms(3,4) by (simp add: server_boot_def server_option_def default_args_def init_network_def)
  moreover have "\<exists>p. server_boot imread surf e [] dk' = Inr (Started p) \<and>
      sv_db (p_server p) = init_matchImg ''./indexImgTable'' ''ImgIndex.yml'' ''/demo/info/'' dk' init_statics"
    using assms(3,4)
    by (simp add: server_boot_def default_args_def init_network_def server_run_def init_server_def)
  ultimately show ?thesis using l by (auto simp: Let_def)
qed

lemma train_then_serve_witness:
  "\<exists>dk' p. server_boot Some (\<lambda>_ _. ([()], [(), ()])) fine_env [Opt 9 ''''] no_disk = Inr (Trained dk') \<and>
     server_boot Some (\<lambda>_ _. ([()], [(), ()])) fine_env [] dk' = Inr (Started p) \<and>
     tables_agree (index_IMG (sv_db (p_server p))) (dscCnt_IMG (sv_db (p_server p)))"
proof -
  have d: "desp_of Some (\<lambda>_ _. ([()], [(), ()])) ''/demo/img/'' i = [(), ()]" for i
    by (simp add: desp_of_def)
  have s: "b_signal fine_env" "b_mutex fine_env" by (simp_all add: fine_env_def)
  have "\<forall>i \<in> {1..100}. desp_of Some (\<lambda>_ _. ([()], [(), ()])) ''/demo/img/'' i \<noteq> [] \<and>
      in_int32 (int (length (desp_of Some (\<lambda>_ _. ([()], [(), ()])) ''/demo/img/'' i)))"
    by (simp add: d in_int32_def)
  from train_then_serve [OF _ this s] show ?thesis by blast
qed

end
