(* ===== verification/Cipher.thy ===== *)
theory Cipher
  imports Prelude
begin

text \<open>
  The encryption sample (\<open>src/encryption/AEScipher.c\<close>): AES-256 in CBC mode through OpenSSL's
  EVP interface. OpenSSL is outside the repository; the record \<open>evp\<close> holds what its calls
  return, and \<open>evp_cbc\<close> is its documented behaviour: padding up to the next whole block of 16
  bytes, and decryption as the inverse of encryption under the same key and initialisation
  vector. A context stands for its key, its vector and what was fed to it.
\<close>

subsection \<open>OpenSSL as a parameter\<close>

record evp =
  ctx_ok :: bool
  enc_init_ok :: bool
  dec_init_ok :: bool
  enc_update :: "bytes \<Rightarrow> bytes \<Rightarrow> bytes \<Rightarrow> bytes option"
  enc_final :: "bytes \<Rightarrow> bytes \<Rightarrow> bytes \<Rightarrow> bytes option"
  dec_update :: "bytes \<Rightarrow> bytes \<Rightarrow> bytes \<Rightarrow> bytes option"
  dec_final :: "bytes \<Rightarrow> bytes \<Rightarrow> bytes \<Rightarrow> bytes option"

definition evp_cbc :: "evp \<Rightarrow> bool" where
  "evp_cbc e \<longleftrightarrow> ctx_ok e \<and> enc_init_ok e \<and> dec_init_ok e \<and>
     (\<forall>key iv p. length key = 32 \<and> length iv = 16 \<longrightarrow>
        (\<exists>c1 c2 p1 p2. enc_update e key iv p = Some c1 \<and> enc_final e key iv p = Some c2 \<and>
           length (c1 @ c2) = (length p div 16 + 1) * 16 \<and>
           dec_update e key iv (c1 @ c2) = Some p1 \<and> dec_final e key iv (c1 @ c2) = Some p2 \<and>
           p1 @ p2 = p))"

subsection \<open>The program\<close>

definition handleErrors :: "'a res" where
  "handleErrors = Inl Abort"

text \<open>
  The shape both directions have: initialise, feed all input, write what comes out, then write
  the final part behind it. The key is read for 32 bytes and the vector for 16. The result is the output array and the length.
\<close>

definition crypt ::
  "bool \<Rightarrow> bool \<Rightarrow> (bytes \<Rightarrow> bytes \<Rightarrow> bytes \<Rightarrow> bytes option) \<Rightarrow> (bytes \<Rightarrow> bytes \<Rightarrow> bytes \<Rightarrow> bytes option) \<Rightarrow>
   bytes \<Rightarrow> int \<Rightarrow> bytes \<Rightarrow> bytes \<Rightarrow> bytes \<Rightarrow> (bytes \<times> int) res" where
  "crypt ctx init update final input input_len key iv out =
     (if \<not> ctx then handleErrors
      else if \<not> init then handleErrors
      else rbind (read_at 0 32 key) (\<lambda>k. rbind (read_at 0 16 iv) (\<lambda>v.
        rbind (read_at 0 (nat input_len) input) (\<lambda>p.
          case update k v p of
            None \<Rightarrow> handleErrors
          | Some o1 \<Rightarrow> rbind (write_at 0 o1 out) (\<lambda>out1.
              case final k v p of
                None \<Rightarrow> handleErrors
              | Some o2 \<Rightarrow> rbind (write_at (length o1) o2 out1) (\<lambda>out2.
                  Inr (out2, int (length o1) + int (length o2))))))))"

definition encrypt :: "evp \<Rightarrow> bytes \<Rightarrow> int \<Rightarrow> bytes \<Rightarrow> bytes \<Rightarrow> bytes \<Rightarrow> (bytes \<times> int) res" where
  "encrypt e plaintext plaintext_len key iv ciphertext =
     crypt (ctx_ok e) (enc_init_ok e) (enc_update e) (enc_final e) plaintext plaintext_len key iv ciphertext"

definition decrypt :: "evp \<Rightarrow> bytes \<Rightarrow> int \<Rightarrow> bytes \<Rightarrow> bytes \<Rightarrow> bytes \<Rightarrow> (bytes \<times> int) res" where
  "decrypt e ciphertext ciphertext_len key iv plaintext =
     crypt (ctx_ok e) (dec_init_ok e) (dec_update e) (dec_final e) ciphertext ciphertext_len key iv plaintext"

definition aes_key :: bytes where
  "aes_key = ''31415926535897932384626433832795'' @ [NUL]"

definition aes_iv :: bytes where
  "aes_iv = ''01234567890123456'' @ [NUL]"

definition aes_plaintext :: bytes where
  "aes_plaintext = ''I do not like chocolate ice cream.''"

text \<open>\<open>main\<close>, for any message in place of the hard-coded one; the result is the text it prints last.\<close>

definition cipher_main :: "evp \<Rightarrow> string \<Rightarrow> (nat \<Rightarrow> char) \<Rightarrow> (nat \<Rightarrow> char) \<Rightarrow> string res" where
  "cipher_main e plaintext stack1 stack2 =
     rbind (encrypt e (plaintext @ [NUL]) (int (length plaintext)) aes_key aes_iv (stack_array 128 stack1))
       (\<lambda>(ciphertext, n).
         rbind (decrypt e ciphertext n aes_key aes_iv (stack_array 128 stack2))
           (\<lambda>(decrypted, m). rbind (write_at (nat m) [NUL] decrypted) (\<lambda>d. Inr (cstr d))))"

subsection \<open>Round trip\<close>

lemma write_twice:
  assumes "length (o1 @ o2) \<le> length out"
  shows "rbind (write_at 0 o1 out) (\<lambda>out1. write_at (length o1) o2 out1) =
     Inr (o1 @ o2 @ drop (length (o1 @ o2)) out)"
  using assms by (simp add: write_at_def add.commute)

lemma crypt_ok:
  assumes "update (take 32 key) (take 16 iv) p = Some o1" and "final (take 32 key) (take 16 iv) p = Some o2"
    and "32 \<le> length key" and "16 \<le> length iv" and "length (o1 @ o2) \<le> length out"
  shows "crypt True True update final (p @ rest) (int (length p)) key iv out =
     Inr (o1 @ o2 @ drop (length (o1 @ o2)) out, int (length (o1 @ o2)))"
proof -
  have "write_at 0 o1 out = Inr (o1 @ drop (length o1) out)"
    using assms(5) by (simp add: write_at_def)
  moreover have "write_at (length o1) o2 (o1 @ drop (length o1) out) =
      Inr (o1 @ o2 @ drop (length (o1 @ o2)) out)"
    using assms(5) by (simp add: write_at_def add.commute)
  ultimately show ?thesis using assms(1-4) by (simp add: crypt_def read_at_def)
qed

lemma crypt_overflow:
  assumes "update (take 32 key) (take 16 iv) p = Some o1" and "final (take 32 key) (take 16 iv) p = Some o2"
    and "32 \<le> length key" and "16 \<le> length iv" and "length out < length (o1 @ o2)"
  shows "crypt True True update final (p @ rest) (int (length p)) key iv out = Inl BufferOverflow"
  using assms by (simp add: crypt_def read_at_def write_at_def)

text \<open>
  C40: with a library that does what OpenSSL documents, the program prints the message it encrypted, for every
  message without NUL of at most 127 bytes, whatever its two uninitialised arrays held; a longer
  message is written past the end of the 128 bytes for the ciphertext.
\<close>

theorem cipher_main_roundtrip:
  assumes "evp_cbc e" and "no_nul m"
  shows "cipher_main e m stack1 stack2 = (if length m \<le> 127 then Inr m else Inl BufferOverflow)"
proof -
  have k: "length (take 32 aes_key) = 32" "length (take 16 aes_iv) = 16" "32 \<le> length aes_key" "16 \<le> length aes_iv"
    by (simp_all add: aes_key_def aes_iv_def)
  from assms(1) k(1,2) obtain c1 c2 p1 p2 where e:
    "enc_update e (take 32 aes_key) (take 16 aes_iv) m = Some c1" "enc_final e (take 32 aes_key) (take 16 aes_iv) m = Some c2"
    "length (c1 @ c2) = (length m div 16 + 1) * 16"
    "dec_update e (take 32 aes_key) (take 16 aes_iv) (c1 @ c2) = Some p1"
    "dec_final e (take 32 aes_key) (take 16 aes_iv) (c1 @ c2) = Some p2" "p1 @ p2 = m"
    unfolding evp_cbc_def by blast
  have ok: "ctx_ok e" "enc_init_ok e" "dec_init_ok e" using assms(1) by (simp_all add: evp_cbc_def)
  have l: "length (c1 @ c2) \<le> 128 \<longleftrightarrow> length m \<le> 127" unfolding e(3) by presburger
  show ?thesis
  proof (cases "length m \<le> 127")
    case True
    let ?rest = "drop (length (c1 @ c2)) (stack_array 128 stack1)"
    have enc: "encrypt e (m @ [NUL]) (int (length m)) aes_key aes_iv (stack_array 128 stack1) =
        Inr ((c1 @ c2) @ ?rest, int (length (c1 @ c2)))"
      using crypt_ok [of "enc_update e" aes_key aes_iv m c1 "enc_final e" c2 "stack_array 128 stack1" "[NUL]"]
        e(1,2) k(3,4) ok l True by (simp add: encrypt_def)
    have dec: "decrypt e ((c1 @ c2) @ ?rest) (int (length (c1 @ c2))) aes_key aes_iv (stack_array 128 stack2) =
        Inr (m @ drop (length m) (stack_array 128 stack2), int (length m))"
      using crypt_ok [of "dec_update e" aes_key aes_iv "c1 @ c2" p1 "dec_final e" p2 "stack_array 128 stack2" ?rest]
        e(4,5) k(3,4) ok True unfolding decrypt_def e(6) [symmetric] by simp
    have "128 - length m = Suc (127 - length m)" using True by simp
    then have "write_at (length m) [NUL] (m @ drop (length m) (stack_array 128 stack2)) =
        Inr (m @ NUL # drop (Suc (length m)) (stack_array 128 stack2))"
      using True by (simp add: write_at_def)
    with enc dec True show ?thesis by (simp add: cipher_main_def cstr_NUL [OF assms(2)])
  next
    case False
    with l have "length (stack_array 128 stack1) < length (c1 @ c2)" by simp
    from crypt_overflow [of "enc_update e" aes_key aes_iv m c1 "enc_final e" c2 "stack_array 128 stack1" "[NUL]"]
      e(1,2) k(3,4) this ok False show ?thesis
      by (simp add: cipher_main_def encrypt_def)
  qed
qed

text \<open>A library that only pads, to show that the documented behaviour can be had.\<close>

definition pad_block16 :: "bytes \<Rightarrow> bytes" where
  "pad_block16 p = p @ replicate (16 - length p mod 16) (char_of (16 - length p mod 16))"

definition unpad_block16 :: "bytes \<Rightarrow> bytes" where
  "unpad_block16 c = take (length c - of_char (last c)) c"

definition pad_evp :: evp where
  "pad_evp = \<lparr>ctx_ok = True, enc_init_ok = True, dec_init_ok = True,
     enc_update = (\<lambda>k v p. Some (pad_block16 p)), enc_final = (\<lambda>k v p. Some []),
     dec_update = (\<lambda>k v c. Some []), dec_final = (\<lambda>k v c. Some (unpad_block16 c))\<rparr>"

lemma unpad_pad: "unpad_block16 (pad_block16 p) = p"
proof -
  define n where "n = 16 - length p mod 16"
  have n: "0 < n" "n \<le> 16" by (simp_all add: n_def)
  then obtain j where "n = Suc j" by (cases n) auto
  then have "last (pad_block16 p) = char_of n" by (simp add: pad_block16_def n_def [symmetric])
  moreover have "of_char (char_of n :: char) = n" using n(2) by simp
  ultimately show ?thesis by (simp add: unpad_block16_def) (simp add: pad_block16_def n_def [symmetric])
qed

lemma pad_evp_cbc: "evp_cbc pad_evp"
proof -
  have "n + (16 - n mod 16) = (n div 16 + 1) * 16" for n :: nat by presburger
  then show ?thesis by (simp add: evp_cbc_def pad_evp_def unpad_pad) (simp add: pad_block16_def)
qed

lemma cipher_main_roundtrip_witness:
  "cipher_main pad_evp aes_plaintext (\<lambda>_. CHR ''x'') (\<lambda>_. CHR ''y'') = Inr aes_plaintext"
proof -
  have "no_nul aes_plaintext" "length aes_plaintext \<le> 127" by (simp_all add: aes_plaintext_def)
  with cipher_main_roundtrip [OF pad_evp_cbc, of aes_plaintext "\<lambda>_. CHR ''x''" "\<lambda>_. CHR ''y''"]
  show ?thesis by simp
qed

end
