(* ===== verification/Spec2Isabelle.thy ===== *)
theory Spec2Isabelle
  imports OrbitPipeline UsersDemo StormUsers KafkaPipeline StartupProps Bolt Cipher
begin

text \<open>
  A verification development for the painting recognition system of \<open>src/\<close>: a client photographs
  paintings and sends the pictures to a server, which matches them against a database of images
  and answers with the name, artist and date of the painting and the index of the image. Client
  and server talk over TCP, over the MobilityFirst network through a message distributor
  (\<open>orbit\<close>) or through a packager (\<open>mf\<close>, new orbit). The server matches itself, or passes the
  pictures to a Storm cluster, directly or through Kafka, and receives the results as datagrams.

  \<^bold>\<open>Parts and theories.\<close> Every theory opens with what it models; the order is that of the imports.

  \<^item> \<open>Prelude\<close>, \<open>CLib\<close>: faults and results (\<open>res\<close>), 32-bit integers, buffers with C strings;
    \<open>strtok\<close>, \<open>strtol\<close>, decimal output. \<open>SemQueue\<close>: the interface of a queue guarded by a
    semaphore (locale \<open>sem_queue\<close>), which the distributor's connections and sockets and the
    server's image queues are interpretations of.
  \<^item> \<open>MsgDistributor\<close> to \<open>MsgStream\<close>: \<open>MsgDistributor.cpp\<close>. The record \<open>msgd\<close> is the object with its
    maps and the heap behind them; one definition per method, cut at its waits (\<open>connect_request\<close>,
    \<open>connect_finish\<close>, \<open>accept_enter\<close>, \<open>accept_wake\<close>, \<open>accept_respond\<close>, \<open>accept_register\<close>,
    \<open>recv_enter\<close>, \<open>recv_wake\<close>, \<open>send\<close>, \<open>close\<close>, \<open>listen\<close>). \<open>MsgFrames\<close>: the wire format;
    \<open>MsgInv\<close>: the invariant of the maps; \<open>MsgThreads\<close>: the threads of a process as a step relation;
    \<open>MsgStream\<close>: a sequence of messages from the distributor of one program to that of the other.
  \<^item> \<open>MFPackager\<close>, \<open>Metrics\<close>: the files of these names.
  \<^item> \<open>Floats\<close>, \<open>ImgVote\<close>, \<open>ImgMatch\<close>, \<open>ImgMatchProps\<close>: \<open>ImgMatch.cpp\<close> of server and bolt: single-precision
    distances, the vote, the thresholds, the location. \<open>ImgDB\<close>, \<open>ImgDBProps\<close>: training, loading and
    the info texts. \<open>Bolt\<close>: \<open>JniImageMatching.cpp\<close> and the bolt's \<open>calLocation\<close>.
  \<^item> \<open>Results\<close>, \<open>ResultProps\<close>: the reply texts, from \<open>sprintf\<close> in the server to \<open>strtok\<close> in the client.
  \<^item> \<open>ImgTransfer\<close>, \<open>ImgTransferProps\<close>: announcing and sending an image in the three modes (locale
    \<open>image_channel\<close>, interpreted once per mode). \<open>Kafka\<close>: \<open>KafkaProducer.cpp\<close> and \<open>kafka.h\<close>. \<open>Spout\<close>: finding
    the spout, passing images on, \<open>starter.cpp\<close>.
  \<^item> \<open>Server\<close>: the threads of \<open>server-OpenCV.cpp\<close> on the record \<open>server\<close>, its globals and heap. \<open>Session\<close>,
    \<open>SessionInv\<close>, \<open>ServerProps\<close>: the two threads of one user, their children and everybody else as a
    step relation, with its invariant. \<open>Users\<close>, \<open>UsersFrame\<close>, \<open>UsersInv\<close>, \<open>UsersProps\<close>, \<open>UsersDemo\<close>: the
    server with any number of users, from \<open>serverThread\<close> over both \<open>init\<close> parts to the steps of
    \<open>Session\<close>, each of which touches its own user's queue, semaphore and slot only (\<open>UsersFrame\<close>).
    \<open>Logins\<close>: a login as a run of these steps. \<open>StormUsers\<close>: the users of a server with Storm, whose result
    threads need the one UDP port of the process (\<open>y_port\<close>).
    \<open>Startup\<close>, \<open>StartupProps\<close>: options, \<open>main\<close>, \<open>server_run\<close>.
  \<^item> \<open>Client\<close>, \<open>ClientProps\<close>: \<open>client-OpenCV.cpp\<close>. \<open>Pipeline\<close>, \<open>OrbitPipeline\<close> and this theory: one
    picture through all of it, in each of the three modes, matched by the server or by the cluster.
    \<open>KafkaPipeline\<close>: many pictures of one user through the Kafka producer and the answers to them.
    \<open>Cipher\<close>: the encryption sample, which nothing else uses.

  \<^bold>\<open>Conventions.\<close> A C++ computation returns \<open>Inl\<close> a fault (a null pointer, a write or read outside an
  array, an uncaught exception, a signed overflow, \<open>exit\<close>) or \<open>Inr\<close> its result; a blocking call that
  finds nothing returns \<open>Inr None\<close>. Results of system calls, of the network and of libraries are
  arguments; so is uninitialised memory (\<open>stack\<close>, \<open>heap\<close>), over which every statement quantifies.
  Objects that are shared through pointers live at numbered addresses, and a deleted object is
  undefined at its address. Time, output to the terminal and memory leaks are left out.

  \<^bold>\<open>What the lemmas show.\<close> For the distributor: framing both ways, the handshake, FIFO order, fresh ids,
  and that no interleaving of its threads faults. For the server: the session invariant, that no
  image is lost and no operation faults in any interleaving, that a disconnect is drained, and the
  races, leaks and lock-outs the code has. For all its users together: what \<open>Session\<close> assumes of the
  other threads holds (\<open>users_run_sessions\<close>), replies go where the image came from, permits and load are
  accounted for, the work that has arrived is finished in a bounded number of steps, and each image
  gets one answer. With Storm only the first user is served, and a later login brings the server
  down; with Kafka the answers follow the pictures the broker library has taken. For matching: the elected image is the one with most accepted votes and the
  threshold is exact; the bolt refines the server. For the data on disk: training, then loading. For
  the client: login, uploads, frames, closing. For the whole: \<open>photograph_to_display\<close>,
  \<open>orbit_photograph_to_display\<close> over the distributors, \<open>mf_photograph_to_display\<close> over the packagers, and
  \<open>storm_photograph_same_display\<close> for the way through the cluster.

  \<^bold>\<open>Bounds.\<close> Loops are recursions that terminate: over the list of events a loop consumes, over the
  bytes of a file, or with a measure on a 32-bit integer. No definition uses fuel; a loop whose
  events run out yields \<open>None\<close>, and where the code's wait must end (\<open>destructor_drains\<close>,
  \<open>disconnect_drains\<close>) that is a theorem. Socket ids are below 10^9, file names and info texts within
  the arrays of the code; the statements say so, and that the code overflows beyond. \<open>Users\<close> assumes of
  the clients that nobody opens a second result connection under a name that is logging in, and of
  \<open>bind\<close> that it fails on a port the process has bound already.

  \<^bold>\<open>Not modelled.\<close> OpenCV, OpenSSL, librdkafka, MobilityFirst and POSIX are parameters, and so is
  the Java topology, of which \<open>cluster_runs_bolt\<close> states what \<open>StormMatch.java\<close> does. The camera,
  windows and drawing; help texts; destructors that only free memory; failures of
  \<open>pthread_create\<close> and of \<open>pthread_mutex_init\<close> inside a thread; data races inside one operation of the
  C++ library (the steps of a thread are its operations between two waits). The Java topology, the
  Android client and \<open>jclient\<close> are other languages; the copies of the C++ files under \<open>client\<close> and
  \<open>storm-kafka\<close> are identical to the modelled ones.
\<close>

section \<open>The system as a whole\<close>

lemma server_takes_tcp:
  "server_takes heap (TcpUpload ann es) = Some (nm, img) \<Longrightarrow>
     transmit_receive_tcp heap ann es = Inr (Some (nm, img, []))"
  by (auto split: sum.splits option.splits prod.splits list.splits)

lemma upload_arrives:
  assumes "cl_tcp c" and "cl_size_per_time c = 1" and "is_field file_name" and "length file_name < 60"
    and "in_int32 (cl_fake_id c)" and "env_ok img ce" and "img \<noteq> []" and "in_int32 (int (length img))"
  shows "\<exists>ann es c'. transmit_one file_name ce c = Inr (TcpUpload ann es, c') \<and>
     transmit_receive_tcp heap ann es = Inr (Some (file_name, img, []))"
proof -
  from transmit_one_taken [OF disjI1 [OF assms(1)] assms(3-5) disjI1 [OF assms(2)] assms(6-8), of heap]
  obtain u c' where u: "transmit_one file_name ce c = Inr (u, c')"
    "server_takes heap u = Some (upload_name file_name c, img)" by blast
  from u(1) assms(1) obtain ann es where t: "u = TcpUpload ann es"
    by (auto simp: transmit_one_def rbind_eq_Inr split: option.splits if_splits)
  have "upload_name file_name c = file_name" using assms(2) by (simp add: upload_name_def announce_name_def)
  with u(2) t have "transmit_receive_tcp heap ann es = Inr (Some (file_name, img, []))"
    by (intro server_takes_tcp) simp
  with u(1) t show ?thesis by blast
qed

lemma reply_displayed:
  assumes "rl_counter rl = 1" and "show_result (fill msg (zeros 1024)) (rl_ui rl) = Inr ui"
  shows "result_step 1 consume (int (length msg)) msg rl =
     (if msg = [] then Inr (rl\<lparr>rl_stop := True\<rparr>)
      else Inr (rl\<lparr>rl_counter := 1, rl_ui := ui,
             rl_times := (if consume \<and> rl_times rl \<noteq> [] then tl (rl_times rl) else rl_times rl)\<rparr>))"
  using assms by (simp add: result_step_def in_int32_def)

text \<open>
  C1: a photograph sent by a TCP client with \<open>size_per_time\<close> 1 to a server whose session of that user is idle:
  the upload is received unchanged, queued, handed over, matched and answered with exactly one
  reply, after which the session is idle again with all permits and no request in progress; and
  when the match finds an image whose info text has three fields, the client's result thread shows
  these fields and the index.
\<close>

theorem photograph_to_display:
  fixes v :: "('img, 'kp, 'd) vision" and im :: "('img, 'kp, 'd, unit) img_match"
  assumes "cl_tcp c" and "cl_size_per_time c = 1" and "is_field file_name" and "length file_name < 60"
    and "in_int32 (cl_fake_id c)" and "env_ok img ce" and "img \<noteq> []" and "in_int32 (int (length img))"
    and "tcp cfg" and "\<not> storm cfg" and "queues st a = Some []" and "sems st s = Some 0"
    and "process_sem st = Suc k" and "in_int32 (request_submitted (sv_metrics st) + 1)"
    and "in_int32 (request_finished (sv_metrics st) + 1)"
    and "matchImg (\<lambda>_. v_decode v img) (v_surf v) (v_knn v) file_name (snd (new_ImgMatch 0 (sv_db st) :: ('img, 'kp, 'd, unit) img_match \<times> _))
           (fst (new_ImgMatch 0 (sv_db st))) = Inr im"
    and "getMatchedImgIndex im = idx" and "idx \<noteq> 0"
    and "getInfo (sv_disk st) im = title @ '','' @ artist @ '','' @ date"
    and "list_all is_field [title, artist, date]"
    and "length title + length artist + length date + length (print_int idx) < 180"
    and "rl_counter rl = 1"
  shows "\<exists>ann es c' st' msg rl'. transmit_one file_name ce c = Inr (TcpUpload ann es, c') \<and>
     serve_picture v cfg user sock s a heap stack e ann es st = Inr (Some st') \<and>
     sv_out st' = sv_out st @ [(sock, msg)] \<and> queues st' a = Some [] \<and> sems st' s = Some 0 \<and>
     process_sem st' = process_sem st \<and>
     get_num_ongoing (sv_metrics st') = get_num_ongoing (sv_metrics st) \<and>
     result_step 1 consume (int (length msg)) msg rl = Inr rl' \<and>
     drawResult (rl_ui rl') = 1 \<and> result_title (rl_ui rl') = ''Title: '' @ title \<and>
     result_artist (rl_ui rl') = ''Artist: '' @ artist \<and> result_date (rl_ui rl') = ''Date: '' @ date \<and>
     matchIndex (rl_ui rl') = print_int idx"
proof -
  from upload_arrives [OF assms(1-8), of heap] obtain ann es c' where
    u: "transmit_one file_name ce c = Inr (TcpUpload ann es, c')"
    and rx: "transmit_receive_tcp heap ann es = Inr (Some (file_name, img, []))" by blast
  from reply_shown [OF assms(20,18,21), of stack "rl_ui rl"] obtain msg ui where
    r: "result_reply idx (title @ '','' @ artist @ '','' @ date) stack = Inr msg"
    and ui: "show_result (fill msg (zeros 1024)) (rl_ui rl) = Inr ui" "drawResult ui = 1"
      "result_title ui = ''Title: '' @ title" "result_artist ui = ''Artist: '' @ artist"
      "result_date ui = ''Date: '' @ date" "matchIndex ui = print_int idx" by auto
  have "result_reply (getMatchedImgIndex im) (getInfo (sv_disk st) im) stack = Inr msg"
    using r by (simp only: assms(17,19))
  from serve_queued_reply [OF assms(4,10-16) this, of user sock e, folded serve_picture_queued [OF rx]] obtain st' where
    st': "serve_picture v cfg user sock s a heap stack e ann es st = Inr (Some st')"
      "sv_out st' = sv_out st @ [(sock, msg)]" "process_sem st' = process_sem st" "queues st' a = Some []"
      "sems st' s = Some 0" "get_num_ongoing (sv_metrics st') = get_num_ongoing (sv_metrics st)" by blast
  have "length msg = 200"
    using r result_reply_size [OF assms(18), of _ stack] by (auto simp: length_zero_fields split: if_splits)
  then have "\<exists>rl'. result_step 1 consume (int (length msg)) msg rl = Inr rl' \<and> rl_ui rl' = ui"
    using reply_displayed [OF assms(22) ui(1), of consume] by auto
  then show ?thesis using u st' ui by auto
qed

lemma photograph_to_display_witness:
  "\<exists>ann es c' st' msg rl'. transmit_one ''pics/u-1.jpg''
       \<lparr>ce_file = Some ''jpg'', ce_io = True, ce_opens = True, ce_cut = 9, ce_stack = (\<lambda>_. NUL)\<rparr> init_client =
       Inr (TcpUpload ann es, c') \<and>
     serve_picture demo_vision demo_cfg ''u'' 4 0 1 (\<lambda>_. NUL) (\<lambda>_. NUL) demo_storm_env ann es demo_server = Inr (Some st') \<and>
     sv_out st' = [(4, msg)] \<and>
     result_step 1 False (int (length msg)) msg \<lparr>rl_counter = 1, rl_stop = False, rl_ui = init_shown, rl_times = []\<rparr> = Inr rl' \<and>
     result_artist (rl_ui rl') = ''Artist: Leonardo''"
proof -
  let ?ce = "\<lparr>ce_file = Some ''jpg'', ce_io = True, ce_opens = True, ce_cut = 9, ce_stack = (\<lambda>_. NUL)\<rparr>"
  let ?rl = "\<lparr>rl_counter = 1, rl_stop = False, rl_ui = init_shown, rl_times = []\<rparr>"
  from demo_match [of "''pics/u-1.jpg''"] obtain im :: "(bytes, unit, bool, unit) img_match" where
    m: "matchImg (\<lambda>_. v_decode demo_vision ''jpg'') (v_surf demo_vision) (v_knn demo_vision) ''pics/u-1.jpg''
      (snd (new_ImgMatch 0 (sv_db demo_server) :: (bytes, unit, bool, unit) img_match \<times> _))
      (fst (new_ImgMatch 0 (sv_db demo_server))) = Inr im"
    and x: "getMatchedImgIndex im = 2"
    and i: "getInfo (sv_disk demo_server) im = ''Mona Lisa'' @ '','' @ ''Leonardo'' @ '','' @ ''1503''" by blast
  have p: "print_int 2 = ''2''" by code_simp
  have f: "is_field ''pics/u-1.jpg''" "list_all is_field [''Mona Lisa'', ''Leonardo'', ''1503'']"
    by (simp_all add: is_field_def)
  have h: "cl_tcp init_client" "cl_size_per_time init_client = 1" "in_int32 (cl_fake_id init_client)"
    "env_ok ''jpg'' ?ce" "in_int32 (int (length ''jpg''))" "tcp demo_cfg" "\<not> storm demo_cfg"
    "queues demo_server 1 = Some []" "sems demo_server 0 = Some 0" "process_sem demo_server = Suc 4"
    "in_int32 (request_submitted (sv_metrics demo_server) + 1)"
    "in_int32 (request_finished (sv_metrics demo_server) + 1)" "sv_out demo_server = []" "rl_counter ?rl = 1"
    by (simp_all add: init_client_def env_ok_def in_int32_def demo_cfg_def demo_server_def init_server_def new_Metrics_def)
  from photograph_to_display [OF h(1,2) f(1) _ h(3,4) _ h(5-12) m x _ i f(2) _ h(14),
      where heap = "\<lambda>_. NUL" and user = "''u''" and sock = 4 and stack = "\<lambda>_. NUL" and e = demo_storm_env and consume = False] h(13)
  show ?thesis by (auto simp: p)
qed

lemma storm_side:
  fixes v :: "('img, 'kp, 'd) vision" and bdb :: "'d img_db" and desp :: "'d list"
  defines "idx \<equiv> answer 50 1 (dscCnt_IMG bdb) (accepted (index_IMG bdb) (v_knn v (flannIndex bdb) desp))"
  assumes "transmit_receive_tcp heap ann es = Inr (Some (file_name, img, []))"
    and "storm cfg" and "\<not> use_kafka cfg" and "in_int32 (int (length img))"
    and "s_spout e = \<lparr>e_socket = True, e_host = True, e_write_size = True, e_read_reply = True, e_write_img = True\<rparr>"
    and "queues st a = Some []" and "sems st s = Some 0"
    and "in_int32 (request_submitted (sv_metrics st) + 1)" and "in_int32 (request_finished (sv_metrics st) + 1)"
    and "cluster_runs_bolt v bdb cluster"
    and "v_decode v img = Some pic" and "v_surf v 1500 pic = (kps, desp)" and "desp \<noteq> []"
    and "tables_agree (index_IMG bdb) (dscCnt_IMG bdb)"
    and "rows_in_range (index_IMG bdb) (v_knn v (flannIndex bdb) desp)"
    and "idx \<noteq> 0" and "getInfo_index (sv_disk st) idx = title @ '','' @ artist @ '','' @ date"
    and "list_all is_field [title, artist, date]"
    and "length title + length artist + length date + length (print_int idx) < 180"
  shows "\<exists>st' msg. storm_picture cfg cluster user sock s a heap stack e ann es st = Inr (Some st') \<and>
     sv_out st' = sv_out st @ [(sock, msg)] \<and> process_sem st' = process_sem st \<and>
     queues st' a = Some [] \<and> sems st' s = Some 0 \<and> pics st' = pics st \<and>
     get_num_ongoing (sv_metrics st') = get_num_ongoing (sv_metrics st) \<and> msg \<noteq> [] \<and>
     show_result (fill msg (zeros 1024)) ui = Inr (painting_ui title artist date idx ui)"
proof -
  have i32: "in_int32 idx"
    unfolding idx_def using answer_in_int32 [OF assms(15,16)] by simp
  have cl: "cluster [size, img] = Some (print_int idx @ '',0,0,0,0,0,0,0,0,'')" for size
    using assms(11) jni_answer [of "v_decode v" img pic "v_surf v" kps desp bdb "v_knn v", OF assms(12-16)]
    unfolding cluster_runs_bolt_def idx_def by blast
  from storm_reply_shown [where info_of = "getInfo_index (sv_disk st)" and stack = stack and ui = ui,
      OF assms(19,17) i32 assms(18,20)] obtain msg where
    r: "storm_reply (print_int idx @ '',0,0,0,0,0,0,0,0,'') (getInfo_index (sv_disk st)) stack = Inr (idx, msg)"
    and l: "length msg = 1024"
    and d: "show_result (fill msg (zeros 1024)) ui = Inr (painting_ui title artist date idx ui)" by blast
  have n: "msg \<noteq> []" using l by auto
  have "e_socket (s_spout e)" "e_host (s_spout e)" "e_write_size (s_spout e)" "e_read_reply (s_spout e)"
    "e_write_img (s_spout e)" using assms(6) by simp_all
  from storm_picture_reply [where cluster = cluster and st = st and user = user and sock = sock,
      OF assms(2-5) this assms(7-10) cl r] n d
  show ?thesis by blast
qed

text \<open>
  C22: the same photograph on a server that passes images to Storm and on one that matches itself. When
  the bolts have the server's tables and elect an image whose info text has three fields, both
  servers take the upload, answer with one reply and are idle again, and the client ends in the
  same state, with these fields and the index on its display. The Storm server does not store the image.
\<close>

theorem storm_photograph_same_display:
  fixes v :: "('img, 'kp, 'd) vision" and bdb :: "'d img_db" and desp :: "'d list"
  defines "idx \<equiv> answer 50 1 (dscCnt_IMG bdb) (accepted (index_IMG bdb) (v_knn v (flannIndex bdb) desp))"
  assumes "cl_tcp c" and "cl_size_per_time c = 1" and "is_field file_name" and "length file_name < 60"
    and "in_int32 (cl_fake_id c)" and "env_ok img ce" and "img \<noteq> []" and "in_int32 (int (length img))"
    and "tcp cfg" and "storm cfg" and "\<not> use_kafka cfg"
    and "s_spout e = \<lparr>e_socket = True, e_host = True, e_write_size = True, e_read_reply = True, e_write_img = True\<rparr>"
    and "queues st a = Some []" and "sems st s = Some 0" and "process_sem st = Suc k"
    and "in_int32 (request_submitted (sv_metrics st) + 1)"
    and "in_int32 (request_finished (sv_metrics st) + 1)"
    and "cluster_runs_bolt v bdb cluster"
    and "index_IMG (sv_db st) = index_IMG bdb" and "dscCnt_IMG (sv_db st) = dscCnt_IMG bdb"
    and "flannIndex (sv_db st) = flannIndex bdb"
    and "v_decode v img = Some pic" and "v_surf v 1500 pic = (kps, desp)" and "desp \<noteq> []"
    and "tables_agree (index_IMG bdb) (dscCnt_IMG bdb)"
    and "rows_in_range (index_IMG bdb) (v_knn v (flannIndex bdb) desp)"
    and "idx \<noteq> 0" and "getInfo_index (sv_disk st) idx = title @ '','' @ artist @ '','' @ date"
    and "list_all is_field [title, artist, date]"
    and "length title + length artist + length date + length (print_int idx) < 180"
    and "rl_counter rl = 1"
  shows "\<exists>ann es c' st1 st2 msg1 msg2 rl'. transmit_one file_name ce c = Inr (TcpUpload ann es, c') \<and>
     storm_picture cfg cluster user sock s a heap stack e ann es st = Inr (Some st1) \<and>
     serve_picture v (cfg\<lparr>storm := False\<rparr>) user sock s a heap stack e ann es st = Inr (Some st2) \<and>
     sv_out st1 = sv_out st @ [(sock, msg1)] \<and> sv_out st2 = sv_out st @ [(sock, msg2)] \<and>
     (\<forall>x \<in> {st1, st2}. queues x a = Some [] \<and> sems x s = Some 0 \<and> process_sem x = process_sem st \<and>
        get_num_ongoing (sv_metrics x) = get_num_ongoing (sv_metrics st)) \<and>
     pics st1 = pics st \<and>
     result_step 1 consume (int (length msg1)) msg1 rl = Inr rl' \<and>
     result_step 1 consume (int (length msg2)) msg2 rl = Inr rl' \<and>
     result_title (rl_ui rl') = ''Title: '' @ title \<and> result_artist (rl_ui rl') = ''Artist: '' @ artist \<and>
     result_date (rl_ui rl') = ''Date: '' @ date \<and> matchIndex (rl_ui rl') = print_int idx"
proof -
  from upload_arrives [OF assms(2-9), of heap] obtain ann es c' where
    u: "transmit_one file_name ce c = Inr (TcpUpload ann es, c')"
    and rx: "transmit_receive_tcp heap ann es = Inr (Some (file_name, img, []))" by blast
  let ?ui = "painting_ui title artist date idx (rl_ui rl)"
  from storm_side [where cluster = cluster and user = user and sock = sock and ui = "rl_ui rl" and stack = stack and st = st and desp = desp,
      OF rx assms(11,12,9,13-15,17-19,23-27) assms(28-31) [unfolded idx_def], folded idx_def] obtain st1 msg1 where
    st1: "storm_picture cfg cluster user sock s a heap stack e ann es st = Inr (Some st1)"
      "sv_out st1 = sv_out st @ [(sock, msg1)]" "process_sem st1 = process_sem st" "queues st1 a = Some []"
      "sems st1 s = Some 0" "pics st1 = pics st"
      "get_num_ongoing (sv_metrics st1) = get_num_ongoing (sv_metrics st)"
    and n1: "msg1 \<noteq> []" and s1: "show_result (fill msg1 (zeros 1024)) (rl_ui rl) = Inr ?ui" by blast
  from reply_shown [OF assms(30,28,31), of stack "rl_ui rl"] obtain msg2 where
    r2: "result_reply idx (title @ '','' @ artist @ '','' @ date) stack = Inr msg2"
    and s2: "show_result (fill msg2 (zeros 1024)) (rl_ui rl) = Inr ?ui" by blast
  have n2: "msg2 \<noteq> []"
    using r2 result_reply_size [OF assms(28), of _ stack] by (auto simp: length_zero_fields split: if_splits)
  from local_answer [of v img pic kps desp bdb "sv_db st", OF assms(23-27) assms(20-22) assms(28) [unfolded idx_def], of file_name] obtain im :: "('img, 'kp, 'd, unit) img_match" where
    m: "matchImg (\<lambda>_. v_decode v img) (v_surf v) (v_knn v) file_name
        (snd (new_ImgMatch 0 (sv_db st) :: ('img, 'kp, 'd, unit) img_match \<times> _)) (fst (new_ImgMatch 0 (sv_db st))) = Inr im"
    and im: "getMatchedImgIndex im = idx" unfolding idx_def by blast
  have "result_reply (getMatchedImgIndex im) (getInfo (sv_disk st) im) stack = Inr msg2"
    using r2 im assms(29) by (simp add: getInfo_def getMatchedImgIndex_def)
  from serve_queued_reply [OF assms(5) _ assms(14-18) m this, of "cfg\<lparr>storm := False\<rparr>" user sock e,
      folded serve_picture_queued [OF rx]] obtain st2 where
    st2: "serve_picture v (cfg\<lparr>storm := False\<rparr>) user sock s a heap stack e ann es st = Inr (Some st2)"
      "sv_out st2 = sv_out st @ [(sock, msg2)]" "process_sem st2 = process_sem st" "queues st2 a = Some []"
      "sems st2 s = Some 0" "get_num_ongoing (sv_metrics st2) = get_num_ongoing (sv_metrics st)"
    using assms(10) by auto
  define rl' where "rl' = rl\<lparr>rl_counter := 1, rl_ui := ?ui,
    rl_times := (if consume \<and> rl_times rl \<noteq> [] then tl (rl_times rl) else rl_times rl)\<rparr>"
  have "result_step 1 consume (int (length msg1)) msg1 rl = Inr rl'"
    "result_step 1 consume (int (length msg2)) msg2 rl = Inr rl'"
    using reply_displayed [OF assms(32) s1] reply_displayed [OF assms(32) s2] n1 n2 by (auto simp: rl'_def)
  moreover have "rl_ui rl' = ?ui" by (simp add: rl'_def)
  ultimately show ?thesis using u st1 st2
    by (intro exI [of _ ann] exI [of _ es] exI [of _ c'] exI [of _ st1] exI [of _ st2] exI [of _ msg1]
        exI [of _ msg2] exI [of _ rl']) simp
qed

definition demo_storm_server :: "bool server" where
  "demo_storm_server = demo_server\<lparr>sv_db := init_statics\<lparr>index_IMG := [1, 2], dscCnt_IMG := [1, 40]\<rparr>\<rparr>"

definition demo_cluster :: "bytes list \<Rightarrow> bytes option" where
  "demo_cluster ms =
     (case jni_matchingIndex (v_decode demo_vision) (v_surf demo_vision) (v_knn demo_vision) (last ms)
             (int (length (last ms))) (sv_db demo_storm_server) of
        Inl f \<Rightarrow> None | Inr (ret, db) \<Rightarrow> Some ret)"

lemma storm_photograph_same_display_witness:
  "\<exists>ann es c' st1 st2 msg1 msg2 rl'. transmit_one ''pics/u-1.jpg''
       \<lparr>ce_file = Some ''jpg'', ce_io = True, ce_opens = True, ce_cut = 9, ce_stack = (\<lambda>_. NUL)\<rparr> init_client =
       Inr (TcpUpload ann es, c') \<and>
     storm_picture (demo_cfg\<lparr>storm := True\<rparr>) demo_cluster ''u'' 4 0 1 (\<lambda>_. NUL) (\<lambda>_. NUL)
       demo_storm_env ann es demo_storm_server = Inr (Some st1) \<and>
     serve_picture demo_vision (demo_cfg\<lparr>storm := False\<rparr>) ''u'' 4 0 1 (\<lambda>_. NUL) (\<lambda>_. NUL)
       demo_storm_env ann es demo_storm_server = Inr (Some st2) \<and>
     sv_out st1 = [(4, msg1)] \<and> sv_out st2 = [(4, msg2)] \<and>
     result_step 1 False (int (length msg1)) msg1 \<lparr>rl_counter = 1, rl_stop = False, rl_ui = init_shown, rl_times = []\<rparr> = Inr rl' \<and>
     result_step 1 False (int (length msg2)) msg2 \<lparr>rl_counter = 1, rl_stop = False, rl_ui = init_shown, rl_times = []\<rparr> = Inr rl' \<and>
     result_artist (rl_ui rl') = ''Artist: Leonardo''"
proof -
  let ?ce = "\<lparr>ce_file = Some ''jpg'', ce_io = True, ce_opens = True, ce_cut = 9, ce_stack = (\<lambda>_. NUL)\<rparr>"
  let ?rl = "\<lparr>rl_counter = 1, rl_stop = False, rl_ui = init_shown, rl_times = []\<rparr>"
  let ?cfg = "demo_cfg\<lparr>storm := True\<rparr>" and ?st = demo_storm_server and ?v = demo_vision
  let ?idx = "answer 50 1 (dscCnt_IMG (sv_db ?st)) (accepted (index_IMG (sv_db ?st)) (v_knn ?v (flannIndex (sv_db ?st)) [True]))"
  have x: "?idx = 2"
    by (simp add: demo_storm_server_def demo_vision_def answer_def accepted_def ratio_ok_def elected_def is_winner_def first_occs_def)
  have p: "print_int 2 = ''2''" by code_simp
  have i: "getInfo_index (sv_disk ?st) ?idx = ''Mona Lisa'' @ '','' @ ''Leonardo'' @ '','' @ ''1503''"
    unfolding x using lines_of_unlines [of "[]" "''Mona Lisa,Leonardo,1503''"]
    by (simp add: getInfo_index_def p demo_storm_server_def demo_server_def init_server_def)
  have f: "is_field ''pics/u-1.jpg''" "list_all is_field [''Mona Lisa'', ''Leonardo'', ''1503'']"
    by (simp_all add: is_field_def)
  have cl: "cluster_runs_bolt ?v (sv_db ?st) demo_cluster"
    by (simp add: cluster_runs_bolt_def demo_cluster_def)
  have t: "tables_agree (index_IMG (sv_db ?st)) (dscCnt_IMG (sv_db ?st))"
    "rows_in_range (index_IMG (sv_db ?st)) (v_knn ?v (flannIndex (sv_db ?st)) [True])"
    by (simp_all add: tables_agree_def rows_in_range_def in_int32_def demo_storm_server_def demo_vision_def)
  have v: "v_decode ?v ''jpg'' = Some ''jpg''" "v_surf ?v 1500 ''jpg'' = ([()], [True])" by (simp_all add: demo_vision_def)
  have h: "cl_tcp init_client" "cl_size_per_time init_client = 1" "in_int32 (cl_fake_id init_client)"
    "env_ok ''jpg'' ?ce" "in_int32 (int (length ''jpg''))" "tcp ?cfg" "storm ?cfg" "\<not> use_kafka ?cfg"
    "s_spout demo_storm_env = \<lparr>e_socket = True, e_host = True, e_write_size = True, e_read_reply = True, e_write_img = True\<rparr>"
    "queues ?st 1 = Some []" "sems ?st 0 = Some 0" "process_sem ?st = Suc 4"
    "in_int32 (request_submitted (sv_metrics ?st) + 1)" "in_int32 (request_finished (sv_metrics ?st) + 1)"
    "sv_out ?st = []" "rl_counter ?rl = 1"
    by (simp_all add: init_client_def env_ok_def in_int32_def demo_cfg_def demo_storm_server_def demo_server_def
        demo_storm_env_def init_server_def new_Metrics_def)
  have z: "?idx \<noteq> 0" "length ''Mona Lisa'' + length ''Leonardo'' + length ''1503'' + length (print_int ?idx) < 180"
    unfolding x by (simp_all add: p)
  from storm_photograph_same_display [OF h(1,2) f(1) _ h(3,4) _ h(5-14) cl refl refl refl v _ t z(1) i f(2) z(2) h(16),
      where heap = "\<lambda>_. NUL" and user = "''u''" and sock = 4 and stack = "\<lambda>_. NUL" and consume = False] h(15)
  show ?thesis by (auto simp: p)
qed

end
